(* ===== verification/Prelude.thy ===== *)
theory Prelude
  imports Main "HOL-Library.Word"
begin

text \<open>
  Shared vocabulary of the development: the machine types of the Rust sources, the
  \<open>Result\<close> plumbing, slices and arrays, and the byte order conversions.

  \<^item> \<open>u8\<close>, \<open>u16\<close>, \<open>u32\<close>, \<open>u64\<close> are words of that width;
    \<open>usize\<close> is a \<^typ>\<open>nat\<close> whose checked operations fail at \<open>usize_limit\<close>, the limit
    of the 32-bit device targets.
  \<^item> A Rust \<open>Result\<close> is a sum, \<open>Inl\<close> for \<open>Err\<close>; \<open>try_bind\<close> is
    the operator \<open>?\<close>, \<open>map_err\<close> and \<open>ok_or\<close> are the library's adapters.
  \<^item> A slice is a byte list; \<open>slice_get\<close> is the fallible range read \<open>get(a..b)\<close>,
    \<open>copy_into\<close> is \<open>copy_from_slice\<close> into a range, \<open>to_array\<close> the
    conversion of a slice to an array of a fixed length.
  \<^item> \<open>from_le\<close>, \<open>from_be\<close>, \<open>to_le\<close> and \<open>to_be\<close> read and write words in
    little and big endian order.
\<close>

unbundle bit_operations_syntax

named_theorems result_simps
  \<open>when a chain of fallible operations returns a value\<close>
named_theorems codec_lens
  \<open>lengths of the encoded frames\<close>

type_synonym u8 = "8 word"
type_synonym u16 = "16 word"
type_synonym u32 = "32 word"
type_synonym u64 = "64 word"
type_synonym usize = nat
type_synonym bytes = "u8 list"

section \<open>Checked arithmetic on machine integers\<close>

definition usize_limit :: nat where
  "usize_limit = 2 ^ 32"

definition checked_add_usize :: "usize \<Rightarrow> usize \<Rightarrow> usize option" where
  "checked_add_usize a b = (if a + b < usize_limit then Some (a + b) else None)"

definition checked_mul_usize :: "usize \<Rightarrow> usize \<Rightarrow> usize option" where
  "checked_mul_usize a b = (if a * b < usize_limit then Some (a * b) else None)"

definition saturating_add_usize :: "usize \<Rightarrow> usize \<Rightarrow> usize" where
  "saturating_add_usize a b = min (a + b) (usize_limit - 1)"

definition usize_try_from_u32 :: "u32 \<Rightarrow> usize option" where
  "usize_try_from_u32 w = (if unat w < usize_limit then Some (unat w) else None)"

definition u32_try_from_usize :: "usize \<Rightarrow> u32 option" where
  "u32_try_from_usize n = (if n < 2 ^ 32 then Some (of_nat n) else None)"

definition u16_try_from_usize :: "usize \<Rightarrow> u16 option" where
  "u16_try_from_usize n = (if n < 2 ^ 16 then Some (of_nat n) else None)"

definition checked_add_u32 :: "u32 \<Rightarrow> u32 \<Rightarrow> u32 option" where
  "checked_add_u32 a b = (if unat a + unat b < 2 ^ 32 then Some (a + b) else None)"

definition checked_sub_u32 :: "u32 \<Rightarrow> u32 \<Rightarrow> u32 option" where
  "checked_sub_u32 a b = (if b \<le> a then Some (a - b) else None)"

lemma checked_add_usize_Some [simp]:
  "checked_add_usize a b = Some c \<longleftrightarrow> c = a + b \<and> a + b < usize_limit"
  by (auto simp: checked_add_usize_def)

lemma usize_try_from_u32_eq [simp]: "usize_try_from_u32 w = Some (unat w)"
  using unsigned_less [of w] by (simp add: usize_try_from_u32_def usize_limit_def)

lemma checked_add_u32_Some [simp]:
  "checked_add_u32 a b = Some c \<longleftrightarrow> unat a + unat b < 2 ^ 32 \<and> c = a + b"
  by (auto simp: checked_add_u32_def)

lemma unat_add_u32:
  "unat (a :: u32) + unat b < 2 ^ 32 \<Longrightarrow> unat (a + b) = unat a + unat b"
  by (simp add: unat_word_ariths)

section \<open>Results\<close>

definition try_bind :: "'e + 'a \<Rightarrow> ('a \<Rightarrow> 'e + 'b) \<Rightarrow> 'e + 'b" where
  "try_bind m f = (case m of Inl e \<Rightarrow> Inl e | Inr x \<Rightarrow> f x)"

definition map_err :: "('e \<Rightarrow> 'f) \<Rightarrow> 'e + 'a \<Rightarrow> 'f + 'a" where
  "map_err g m = (case m of Inl e \<Rightarrow> Inl (g e) | Inr x \<Rightarrow> Inr x)"

definition ok_or :: "'e \<Rightarrow> 'a option \<Rightarrow> 'e + 'a" where
  "ok_or e m = (case m of None \<Rightarrow> Inl e | Some x \<Rightarrow> Inr x)"

definition is_ok :: "'e + 'a \<Rightarrow> bool" where
  "is_ok m = (case m of Inl _ \<Rightarrow> False | Inr _ \<Rightarrow> True)"

lemma try_bind_simps [simp]:
  "try_bind (Inl e) f = Inl e"
  "try_bind (Inr x) f = f x"
  by (simp_all add: try_bind_def)

lemma map_err_simps [simp]:
  "map_err g (Inl e) = Inl (g e)"
  "map_err g (Inr x) = Inr x"
  by (simp_all add: map_err_def)

lemma ok_or_simps [simp]:
  "ok_or e None = Inl e"
  "ok_or e (Some x) = Inr x"
  by (simp_all add: ok_or_def)

lemma is_ok_simps [simp]:
  "\<not> is_ok (Inl e)"
  "is_ok (Inr x)"
  by (simp_all add: is_ok_def)

lemma try_bind_Inr [result_simps]:
  "try_bind m f = Inr y \<longleftrightarrow> (\<exists>x. m = Inr x \<and> f x = Inr y)"
  by (cases m) simp_all

lemma map_err_Inr [result_simps]: "map_err g m = Inr x \<longleftrightarrow> m = Inr x"
  by (cases m) simp_all

lemma ok_or_Inr [result_simps]: "ok_or e m = Inr x \<longleftrightarrow> m = Some x"
  by (cases m) simp_all

lemma if_Inl_Inr [result_simps]:
  "(if b then Inl e else m) = Inr x \<longleftrightarrow> \<not> b \<and> m = Inr x"
  by simp

section \<open>Slices and arrays\<close>

definition slice_get :: "'a list \<Rightarrow> usize \<Rightarrow> usize \<Rightarrow> 'a list option" where
  "slice_get xs a b =
     (if a \<le> b \<and> b \<le> length xs then Some (take (b - a) (drop a xs)) else None)"

definition slice_from :: "'a list \<Rightarrow> usize \<Rightarrow> 'a list option" where
  "slice_from xs a = (if a \<le> length xs then Some (drop a xs) else None)"

definition to_array :: "nat \<Rightarrow> 'a list \<Rightarrow> 'a list option" where
  "to_array n xs = (if length xs = n then Some xs else None)"

definition copy_into :: "'a list \<Rightarrow> usize \<Rightarrow> 'a list \<Rightarrow> 'a list" where
  "copy_into buf a xs = take a buf @ xs @ drop (a + length xs) buf"

lemma to_array_Some [simp, result_simps]: "to_array n xs = Some ys \<longleftrightarrow> length xs = n \<and> ys = xs"
  by (auto simp: to_array_def)

lemma to_array_length [simp]: "length xs = n \<Longrightarrow> to_array n xs = Some xs"
  by simp

lemma slice_get_Some [result_simps]:
  "slice_get xs a b = Some ys \<longleftrightarrow>
     a \<le> b \<and> b \<le> length xs \<and> ys = take (b - a) (drop a xs)"
  by (auto simp: slice_get_def)

lemma length_copy_into [simp]:
  "a + length xs \<le> length buf \<Longrightarrow> length (copy_into buf a xs) = length buf"
  by (simp add: copy_into_def)

lemma take_copy_into:
  "a + length xs \<le> length buf \<Longrightarrow> take (a + length xs) (copy_into buf a xs) = take a buf @ xs"
  by (simp add: copy_into_def)

lemma drop_copy_into:
  "a + length xs \<le> length buf \<Longrightarrow>
     drop (a + length xs) (copy_into buf a xs) = drop (a + length xs) buf"
  by (simp add: copy_into_def)

section \<open>Byte order\<close>

fun le_nat :: "bytes \<Rightarrow> nat" where
  "le_nat [] = 0"
| "le_nat (b # bs) = unat b + 256 * le_nat bs"

fun nat_le :: "nat \<Rightarrow> nat \<Rightarrow> bytes" where
  "nat_le 0 v = []"
| "nat_le (Suc n) v = of_nat v # nat_le n (v div 256)"

definition from_le :: "bytes \<Rightarrow> 'a::len word" where
  "from_le bs = of_nat (le_nat bs)"

definition from_be :: "bytes \<Rightarrow> 'a::len word" where
  "from_be bs = of_nat (le_nat (rev bs))"

definition to_le :: "nat \<Rightarrow> 'a::len word \<Rightarrow> bytes" where
  "to_le n w = nat_le n (unat w)"

definition to_be :: "nat \<Rightarrow> 'a::len word \<Rightarrow> bytes" where
  "to_be n w = rev (nat_le n (unat w))"

lemma length_nat_le [simp, codec_lens]: "length (nat_le n v) = n"
  by (induction n arbitrary: v) auto

lemma length_to_le [simp, codec_lens]: "length (to_le n w) = n"
  by (simp add: to_le_def)

lemma length_to_be [simp, codec_lens]: "length (to_be n w) = n"
  by (simp add: to_be_def)

lemma unat_of_nat_byte: "unat (of_nat v :: u8) = v mod 256"
  by (simp add: unat_of_nat take_bit_eq_mod)

lemma le_nat_nat_le: "le_nat (nat_le n v) = v mod 256 ^ n"
proof (induction n arbitrary: v)
  case 0
  then show ?case by simp
next
  case (Suc n)
  then show ?case
    by (simp add: unat_of_nat_byte mod_mult2_eq)
qed

lemma byte_less [simp]: "unat (b :: u8) < 256"
  using unsigned_less [of b] by simp

lemma le_nat_less: "le_nat bs < 256 ^ length bs"
proof (induction bs)
  case (Cons b bs)
  have "unat b + 256 * le_nat bs < 256 + 256 * le_nat bs" by simp
  also have "\<dots> \<le> 256 * 256 ^ length bs" using Cons.IH by simp
  finally show ?case by simp
qed simp

lemma nat_le_le_nat: "nat_le (length bs) (le_nat bs) = bs"
proof (induction bs)
  case (Cons b bs)
  have "(unat b + 256 * le_nat bs) div 256 = le_nat bs" by simp
  moreover have "of_nat (unat b + 256 * le_nat bs) = b"
    by (simp add: of_nat_mult word_unat_eq_iff unat_word_ariths)
  ultimately show ?case using Cons.IH by simp
qed simp

lemma from_le_to_le:
  fixes w :: "'a::len word"
  assumes "LENGTH('a) = 8 * n"
  shows "from_le (to_le n w) = w"
proof -
  have "(256::nat) ^ n = 2 ^ LENGTH('a)" by (simp add: assms power_mult)
  then show ?thesis
    by (simp add: from_le_def to_le_def le_nat_nat_le)
qed

lemma to_le_from_le:
  assumes "LENGTH('a::len) = 8 * length bs"
  shows "to_le (length bs) (from_le bs :: 'a word) = bs"
proof -
  have "le_nat bs < 2 ^ LENGTH('a)"
    using le_nat_less [of bs] by (simp add: assms power_mult)
  then show ?thesis
    by (simp add: from_le_def to_le_def unat_of_nat take_bit_nat_eq_self nat_le_le_nat)
qed

lemma from_be_to_be:
  fixes w :: "'a::len word"
  assumes "LENGTH('a) = 8 * n"
  shows "from_be (to_be n w) = w"
  using from_le_to_le [OF assms, of w] by (simp add: from_be_def to_be_def from_le_def to_le_def)

lemma to_be_from_be:
  assumes "LENGTH('a::len) = 8 * length bs"
  shows "to_be (length bs) (from_be bs :: 'a word) = bs"
  using to_le_from_le [of "rev bs", where 'a = 'a] assms
  by (simp add: from_be_def to_be_def from_le_def to_le_def)

lemmas from_to_le [simp] =
  from_le_to_le [where 'a = 8 and n = 1, simplified]
  from_le_to_le [where 'a = 16 and n = 2, simplified]
  from_le_to_le [where 'a = 32 and n = 4, simplified]
  from_le_to_le [where 'a = 64 and n = 8, simplified]

lemma to_from_le16 [simp]: "length bs = 2 \<Longrightarrow> to_le 2 (from_le bs :: u16) = bs"
  using to_le_from_le [of bs, where 'a = 16] by simp

lemma to_from_le32 [simp]: "length bs = 4 \<Longrightarrow> to_le 4 (from_le bs :: u32) = bs"
  using to_le_from_le [of bs, where 'a = 32] by simp

lemma to_from_le64 [simp]: "length bs = 8 \<Longrightarrow> to_le 8 (from_le bs :: u64) = bs"
  using to_le_from_le [of bs, where 'a = 64] by simp

lemma from_to_be32 [simp]: "from_be (to_be 4 (w :: u32)) = w"
  using from_be_to_be [of 4 w] by simp

lemma to_from_be32 [simp]: "length bs = 4 \<Longrightarrow> to_be 4 (from_be bs :: u32) = bs"
  using to_be_from_be [of bs, where 'a = 32] by simp

section \<open>Byte strings\<close>

definition ascii :: "string \<Rightarrow> bytes" where
  "ascii s = map of_char s"

lemma length_ascii [simp, codec_lens]: "length (ascii s) = length s"
  by (simp add: ascii_def)

section \<open>Contracts\<close>

text \<open>
  The contract of an encoder and a strict decoder: a valid value is read back, and nothing
  but its own encoding is accepted. Each frame type of the wire format provides one.
\<close>

locale codec =
  fixes encode :: "'a \<Rightarrow> bytes"
    and decode :: "bytes \<Rightarrow> 'e + 'a"
    and valid :: "'a \<Rightarrow> bool"
  assumes decode_encode: "valid x \<Longrightarrow> decode (encode x) = Inr x"
    and decode_sound: "decode bs = Inr x \<Longrightarrow> valid x \<and> bs = encode x"
begin

lemma decode_iff: "decode bs = Inr x \<longleftrightarrow> valid x \<and> bs = encode x"
  using decode_encode decode_sound by blast

lemma decode_inj: "decode bs = Inr x \<Longrightarrow> decode bs' = Inr x \<Longrightarrow> bs = bs'"
  using decode_sound by blast

lemma encode_inj: "valid x \<Longrightarrow> valid y \<Longrightarrow> encode x = encode y \<Longrightarrow> x = y"
  using decode_encode by (metis Inr_inject)

lemma decode_error: "is_ok (decode bs) \<longleftrightarrow> (\<exists>x. valid x \<and> bs = encode x)"
proof (cases "decode bs")
  case (Inl e)
  then have "\<not> (\<exists>x. valid x \<and> bs = encode x)" using decode_encode by fastforce
  with Inl show ?thesis by simp
next
  case (Inr x)
  then show ?thesis using decode_sound by auto
qed

end

text \<open>
  The contract of an enumeration and its wire identifiers: each constructor has its own
  identifier, and every other identifier is rejected.
\<close>

locale wire_enum =
  fixes as_wire :: "'a \<Rightarrow> 'w"
    and try_from :: "'w \<Rightarrow> 'a option"
  assumes try_from_as_wire: "try_from (as_wire x) = Some x"
    and try_from_sound: "try_from w = Some x \<Longrightarrow> as_wire x = w"
begin

lemma try_from_iff: "try_from w = Some x \<longleftrightarrow> w = as_wire x"
  using try_from_as_wire try_from_sound by blast

lemma as_wire_inj: "as_wire x = as_wire y \<longleftrightarrow> x = y"
  using try_from_as_wire by (metis option.inject)

lemma try_from_None: "try_from w = None \<longleftrightarrow> w \<notin> range as_wire"
  by (metis not_None_eq rangeE rangeI try_from_iff)

end

end
