(* ===== verification/Utf8.thy ===== *)
theory Utf8
  imports Prelude
begin

text \<open>
  What the sources use of Rust's \<open>str\<close>: \<open>core::str::from_utf8\<close>, which accepts exactly the
  well-formed UTF-8 byte sequences of the Unicode standard (no overlong forms, no surrogates,
  nothing above U+10FFFF), the characters of a string, \<open>trim\<close> (which strips the characters
  of the Unicode property \<open>White_Space\<close> at both ends) and \<open>is_ascii\<close>. A \<open>&str\<close> is
  represented by its bytes. \<open>utf8_encode\<close> is the encoder of the standard, and
  \<open>utf8_chars_iff\<close> says that the decoder accepts its image and nothing else.
\<close>

definition utf8_cont :: "u8 \<Rightarrow> bool" where
  "utf8_cont b \<longleftrightarrow> 0x80 \<le> b \<and> b \<le> 0xBF"

definition utf8_second3 :: "u8 \<Rightarrow> u8 \<Rightarrow> bool" where
  "utf8_second3 b0 b1 \<longleftrightarrow>
     (b0 = 0xE0 \<and> 0xA0 \<le> b1 \<and> b1 \<le> 0xBF) \<or>
     (0xE1 \<le> b0 \<and> b0 \<le> 0xEC \<and> utf8_cont b1) \<or>
     (b0 = 0xED \<and> 0x80 \<le> b1 \<and> b1 \<le> 0x9F) \<or>
     (0xEE \<le> b0 \<and> b0 \<le> 0xEF \<and> utf8_cont b1)"

definition utf8_second4 :: "u8 \<Rightarrow> u8 \<Rightarrow> bool" where
  "utf8_second4 b0 b1 \<longleftrightarrow>
     (b0 = 0xF0 \<and> 0x90 \<le> b1 \<and> b1 \<le> 0xBF) \<or>
     (0xF1 \<le> b0 \<and> b0 \<le> 0xF3 \<and> utf8_cont b1) \<or>
     (b0 = 0xF4 \<and> 0x80 \<le> b1 \<and> b1 \<le> 0x8F)"

fun utf8_chars :: "bytes \<Rightarrow> nat list option" where
  "utf8_chars [] = Some []"
| "utf8_chars (b0 # bs) =
     (if b0 < 0x80 then map_option (Cons (unat b0)) (utf8_chars bs)
      else if 0xC2 \<le> b0 \<and> b0 \<le> 0xDF then
        (case bs of
           b1 # r \<Rightarrow>
             if utf8_cont b1
             then map_option (Cons ((unat b0 - 0xC0) * 64 + (unat b1 - 0x80))) (utf8_chars r)
             else None
         | _ \<Rightarrow> None)
      else if 0xE0 \<le> b0 \<and> b0 \<le> 0xEF then
        (case bs of
           b1 # b2 # r \<Rightarrow>
             if utf8_second3 b0 b1 \<and> utf8_cont b2
             then map_option
               (Cons ((unat b0 - 0xE0) * 4096 + (unat b1 - 0x80) * 64 + (unat b2 - 0x80)))
               (utf8_chars r)
             else None
         | _ \<Rightarrow> None)
      else if 0xF0 \<le> b0 \<and> b0 \<le> 0xF4 then
        (case bs of
           b1 # b2 # b3 # r \<Rightarrow>
             if utf8_second4 b0 b1 \<and> utf8_cont b2 \<and> utf8_cont b3
             then map_option
               (Cons ((unat b0 - 0xF0) * 262144 + (unat b1 - 0x80) * 4096
                  + (unat b2 - 0x80) * 64 + (unat b3 - 0x80)))
               (utf8_chars r)
             else None
         | _ \<Rightarrow> None)
      else None)"

definition from_utf8_ok :: "bytes \<Rightarrow> bool" where
  "from_utf8_ok bs \<longleftrightarrow> utf8_chars bs \<noteq> None"

definition str_chars :: "bytes \<Rightarrow> nat list" where
  "str_chars bs = (case utf8_chars bs of None \<Rightarrow> [] | Some cs \<Rightarrow> cs)"

definition char_is_whitespace :: "nat \<Rightarrow> bool" where
  "char_is_whitespace c \<longleftrightarrow>
     (9 \<le> c \<and> c \<le> 13) \<or> c = 0x20 \<or> c = 0x85 \<or> c = 0xA0 \<or> c = 0x1680
     \<or> (0x2000 \<le> c \<and> c \<le> 0x200A) \<or> c = 0x2028 \<or> c = 0x2029 \<or> c = 0x202F
     \<or> c = 0x205F \<or> c = 0x3000"

definition chars_trim :: "nat list \<Rightarrow> nat list" where
  "chars_trim cs = rev (dropWhile char_is_whitespace (rev (dropWhile char_is_whitespace cs)))"

text \<open>\<open>s.trim().is_empty()\<close>\<close>

definition str_trim_is_empty :: "bytes \<Rightarrow> bool" where
  "str_trim_is_empty s \<longleftrightarrow> chars_trim (str_chars s) = []"

definition str_is_ascii :: "bytes \<Rightarrow> bool" where
  "str_is_ascii s \<longleftrightarrow> list_all (\<lambda>b. b < 0x80) s"

lemma chars_trim_Nil: "chars_trim cs = [] \<longleftrightarrow> list_all char_is_whitespace cs"
proof -
  have "(\<forall>c \<in> set (dropWhile char_is_whitespace cs). char_is_whitespace c) \<longleftrightarrow>
      (\<forall>c \<in> set cs. char_is_whitespace c)"
    by (induction cs) auto
  then show ?thesis
    by (simp add: chars_trim_def list_all_iff)
qed

lemma str_trim_is_empty_iff:
  "str_trim_is_empty s \<longleftrightarrow> list_all char_is_whitespace (str_chars s)"
  by (simp add: str_trim_is_empty_def chars_trim_Nil)

lemma utf8_chars_ascii:
  "list_all (\<lambda>b. b < 0x80) bs \<Longrightarrow> utf8_chars bs = Some (map unat bs)"
  by (induction bs) simp_all

lemma from_utf8_ok_ascii: "str_is_ascii bs \<Longrightarrow> from_utf8_ok bs"
  by (simp add: str_is_ascii_def from_utf8_ok_def utf8_chars_ascii)

lemma str_chars_ascii: "str_is_ascii bs \<Longrightarrow> str_chars bs = map unat bs"
  by (simp add: str_is_ascii_def str_chars_def utf8_chars_ascii)

section \<open>The decoder accepts the standard's encodings only\<close>

definition is_scalar :: "nat \<Rightarrow> bool" where
  "is_scalar c \<longleftrightarrow> c < 0xD800 \<or> (0xE000 \<le> c \<and> c < 0x110000)"

definition utf8_encode_char :: "nat \<Rightarrow> bytes" where
  "utf8_encode_char c =
     (if c < 0x80 then [of_nat c]
      else if c < 0x800 then [of_nat (0xC0 + c div 64), of_nat (0x80 + c mod 64)]
      else if c < 0x10000 then
        [of_nat (0xE0 + c div 4096), of_nat (0x80 + c div 64 mod 64), of_nat (0x80 + c mod 64)]
      else
        [of_nat (0xF0 + c div 262144), of_nat (0x80 + c div 4096 mod 64),
         of_nat (0x80 + c div 64 mod 64), of_nat (0x80 + c mod 64)])"

definition utf8_encode :: "nat list \<Rightarrow> bytes" where
  "utf8_encode cs = concat (map utf8_encode_char cs)"

lemma unat_of_nat_small: "n < 256 \<Longrightarrow> unat (of_nat n :: u8) = n"
  by (simp add: unat_of_nat_byte)

lemmas byte_nat = word_le_nat_alt word_less_nat_alt word_unat_eq_iff unat_of_nat_small

lemmas utf8_class = utf8_cont_def utf8_second3_def utf8_second4_def

lemma radix64_split3: "(c :: nat) div 4096 * 4096 + c div 64 mod 64 * 64 + c mod 64 = c"
proof -
  have "c div 4096 = c div 64 div 64" using div_mult2_eq [of c 64 64] by simp
  then have "c div 4096 * 4096 + c div 64 mod 64 * 64 + c mod 64
      = (c div 64 div 64 * 64 + c div 64 mod 64) * 64 + c mod 64"
    by (simp only: distrib_right mult.assoc)
  also have "\<dots> = c" by (simp only: div_mult_mod_eq)
  finally show ?thesis .
qed

lemma radix64_split4:
  "(c :: nat) div 262144 * 262144 + c div 4096 mod 64 * 4096 + c div 64 mod 64 * 64 + c mod 64 = c"
proof -
  have "c div 262144 = c div 64 div 4096" "c div 4096 = c div 64 div 64"
    using div_mult2_eq [of c 64 4096] div_mult2_eq [of c 64 64] by simp_all
  then have "c div 262144 * 262144 + c div 4096 mod 64 * 4096 + c div 64 mod 64 * 64 + c mod 64
      = (c div 64 div 4096 * 4096 + c div 64 div 64 mod 64 * 64 + c div 64 mod 64) * 64 + c mod 64"
    by (simp only: distrib_right mult.assoc)
  also have "\<dots> = c" by (simp only: radix64_split3 div_mult_mod_eq)
  finally show ?thesis .
qed

lemma radix64_join2:
  assumes "y < 64" "c = x * 64 + y"
  shows "c div 64 = x" "(c :: nat) mod 64 = y"
  using assms by simp_all

lemma radix64_join3:
  assumes "y < 64" "z < 64" "c = x * 4096 + y * 64 + z"
  shows "c div 4096 = x" "c div 64 mod 64 = y" "(c :: nat) mod 64 = z"
proof -
  have "c = (x * 64 + y) * 64 + z" using assms(3) by simp
  note j = radix64_join2 [OF assms(2) this]
  show "c mod 64 = z" "c div 64 mod 64 = y" "c div 4096 = x"
    using j assms(1) div_mult2_eq [of c 64 64] by simp_all
qed

lemma radix64_join4:
  assumes "y < 64" "z < 64" "w < 64" "c = x * 262144 + y * 4096 + z * 64 + w"
  shows "c div 262144 = x" "c div 4096 mod 64 = y" "c div 64 mod 64 = z" "(c :: nat) mod 64 = w"
proof -
  have "c = (x * 4096 + y * 64 + z) * 64 + w" using assms(4) by simp
  note j = radix64_join2 [OF assms(3) this]
  note k = radix64_join3 [OF assms(1,2) j(1)]
  show "c mod 64 = w" "c div 64 mod 64 = z" by (fact j(2), fact k(3))
  show "c div 4096 mod 64 = y" "c div 262144 = x"
    using k div_mult2_eq [of c 64 64] div_mult2_eq [of c 64 4096] by simp_all
qed

lemma utf8_chars_encode_char:
  assumes "is_scalar c"
  shows "utf8_chars (utf8_encode_char c @ bs) = map_option (Cons c) (utf8_chars bs)"
proof -
  consider "c < 0x80" | "0x80 \<le> c" "c < 0x800" | "0x800 \<le> c" "c < 0x10000" | "0x10000 \<le> c"
    by linarith
  then show ?thesis
  proof cases
    case 1
    then show ?thesis by (simp add: utf8_encode_char_def byte_nat)
  next
    case 2
    then have "2 \<le> c div 64" "c div 64 < 32" "c mod 64 \<le> 63" by auto
    with 2 show ?thesis
      by (simp add: utf8_encode_char_def byte_nat utf8_class del: of_nat_add)
  next
    case 3
    then have b: "c div 4096 < 16" by auto
    note v = radix64_split3 [of c]
    have m: "c mod 64 < 64" "c div 64 mod 64 < 64" by simp_all
    have e: "c div 4096 = 0 \<Longrightarrow> 32 \<le> c div 64 mod 64" "c div 4096 = 13 \<Longrightarrow> c div 64 mod 64 < 32"
      using 3 assms v m by (simp_all add: is_scalar_def)
    have "c div 4096 = 0 \<or> (1 \<le> c div 4096 \<and> c div 4096 \<le> 12) \<or> c div 4096 = 13
        \<or> 14 \<le> c div 4096" by linarith
    then have "utf8_second3 (of_nat (0xE0 + c div 4096)) (of_nat (0x80 + c div 64 mod 64))"
      using b m e by (auto simp: byte_nat utf8_class simp del: of_nat_add)
    moreover have "c mod 64 \<le> 63" using m(1) by linarith
    ultimately show ?thesis
      using 3 b v by (simp add: utf8_encode_char_def byte_nat utf8_cont_def del: of_nat_add)
  next
    case 4
    then have b: "c div 262144 \<le> 4" using assms by (auto simp: is_scalar_def)
    note v = radix64_split4 [of c]
    have m: "c mod 64 < 64" "c div 64 mod 64 < 64" "c div 4096 mod 64 < 64" by simp_all
    have e: "c div 262144 = 0 \<Longrightarrow> 16 \<le> c div 4096 mod 64"
        "c div 262144 = 4 \<Longrightarrow> c div 4096 mod 64 < 16"
      using 4 assms v m by (simp_all add: is_scalar_def)
    from b have "c div 262144 = 0 \<or> (1 \<le> c div 262144 \<and> c div 262144 \<le> 3)
        \<or> c div 262144 = 4" by linarith
    then have "utf8_second4 (of_nat (0xF0 + c div 262144)) (of_nat (0x80 + c div 4096 mod 64))"
      using b m e by (auto simp: byte_nat utf8_class simp del: of_nat_add)
    moreover have "c mod 64 \<le> 63" "c div 64 mod 64 \<le> 63" "c div 4096 mod 64 \<le> 63"
      using m by linarith+
    ultimately show ?thesis
      using 4 b v by (simp add: utf8_encode_char_def byte_nat utf8_cont_def del: of_nat_add)
  qed
qed

lemma utf8_chars_encode:
  "list_all is_scalar cs \<Longrightarrow> utf8_chars (utf8_encode cs) = Some cs"
  by (induction cs) (simp_all add: utf8_encode_def utf8_chars_encode_char)

lemma of_nat_unat_diff:
  "k \<le> unat (b :: u8) \<Longrightarrow> n = unat b - k \<Longrightarrow> of_nat (k + n) = b"
  by simp

lemma utf8_encode_char1: "b0 < 0x80 \<Longrightarrow> utf8_encode_char (unat b0) = [b0]"
  by (simp add: utf8_encode_char_def byte_nat)

lemma utf8_encode_char2:
  assumes "0xC2 \<le> b0" "b0 \<le> 0xDF" "utf8_cont b1"
  defines "c \<equiv> (unat b0 - 0xC0) * 64 + (unat b1 - 0x80)"
  shows "is_scalar c" "utf8_encode_char c = [b0, b1]"
proof -
  have b: "0xC2 \<le> unat b0" "unat b0 \<le> 0xDF" "0x80 \<le> unat b1" "unat b1 \<le> 0xBF"
    using assms by (simp_all add: byte_nat utf8_class)
  then have "unat b1 - 0x80 < 64" by simp
  note r = radix64_join2 [OF this c_def [THEN meta_eq_to_obj_eq]]
  have c: "0x80 \<le> c" "c < 0x800" using b by (auto simp: c_def)
  show "is_scalar c" using c by (simp add: is_scalar_def)
  show "utf8_encode_char c = [b0, b1]"
    using b c of_nat_unat_diff [OF _ r(1)] of_nat_unat_diff [OF _ r(2)]
    by (simp add: utf8_encode_char_def del: of_nat_add)
qed

lemma utf8_encode_char3:
  assumes "utf8_second3 b0 b1" "utf8_cont b2"
  defines "c \<equiv> (unat b0 - 0xE0) * 4096 + (unat b1 - 0x80) * 64 + (unat b2 - 0x80)"
  shows "is_scalar c" "utf8_encode_char c = [b0, b1, b2]"
proof -
  have b: "0xE0 \<le> unat b0" "unat b0 \<le> 0xEF" "0x80 \<le> unat b1" "unat b1 \<le> 0xBF"
      "0x80 \<le> unat b2" "unat b2 \<le> 0xBF" "unat b0 = 0xE0 \<Longrightarrow> 0xA0 \<le> unat b1"
      "unat b0 = 0xED \<Longrightarrow> unat b1 \<le> 0x9F"
    using assms by (auto simp: byte_nat utf8_class)
  then have "unat b1 - 0x80 < 64" "unat b2 - 0x80 < 64" by simp_all
  note r = radix64_join3 [OF this c_def [THEN meta_eq_to_obj_eq]]
  have c: "c < 0x10000" using b by (auto simp: c_def)
  have lo: "0x800 \<le> c" using b by (cases "unat b0 = 0xE0") (auto simp: c_def)
  have "c < 0xD800 \<or> 0xE000 \<le> c"
    using b by (cases "unat b0 \<le> 0xEC"; cases "unat b0 = 0xED") (auto simp: c_def)
  then show "is_scalar c" using c by (auto simp: is_scalar_def)
  show "utf8_encode_char c = [b0, b1, b2]"
    using b(1,3,5) c lo of_nat_unat_diff [OF _ r(1)] of_nat_unat_diff [OF _ r(2)]
      of_nat_unat_diff [OF _ r(3)]
    by (simp add: utf8_encode_char_def del: of_nat_add)
qed

lemma utf8_encode_char4:
  assumes "utf8_second4 b0 b1" "utf8_cont b2" "utf8_cont b3"
  defines "c \<equiv> (unat b0 - 0xF0) * 262144 + (unat b1 - 0x80) * 4096
     + (unat b2 - 0x80) * 64 + (unat b3 - 0x80)"
  shows "is_scalar c" "utf8_encode_char c = [b0, b1, b2, b3]"
proof -
  have b: "0xF0 \<le> unat b0" "unat b0 \<le> 0xF4" "0x80 \<le> unat b1" "unat b1 \<le> 0xBF"
      "0x80 \<le> unat b2" "unat b2 \<le> 0xBF" "0x80 \<le> unat b3" "unat b3 \<le> 0xBF"
      "unat b0 = 0xF0 \<Longrightarrow> 0x90 \<le> unat b1" "unat b0 = 0xF4 \<Longrightarrow> unat b1 \<le> 0x8F"
    using assms by (auto simp: byte_nat utf8_class)
  then have "unat b1 - 0x80 < 64" "unat b2 - 0x80 < 64" "unat b3 - 0x80 < 64" by simp_all
  note r = radix64_join4 [OF this c_def [THEN meta_eq_to_obj_eq]]
  have lo: "0x10000 \<le> c" using b by (cases "unat b0 = 0xF0") (auto simp: c_def)
  have "c < 0x110000" using b by (cases "unat b0 = 0xF4") (auto simp: c_def)
  with lo show "is_scalar c" by (simp add: is_scalar_def)
  show "utf8_encode_char c = [b0, b1, b2, b3]"
    using b(1,3,5,7) lo of_nat_unat_diff [OF _ r(1)] of_nat_unat_diff [OF _ r(2)]
      of_nat_unat_diff [OF _ r(3)] of_nat_unat_diff [OF _ r(4)]
    by (simp add: utf8_encode_char_def del: of_nat_add)
qed

lemma utf8_chars_ConsE:
  assumes "utf8_chars (b0 # bs) = Some cs"
  obtains
    (one) cs' where "b0 < 0x80" "utf8_chars bs = Some cs'" "cs = unat b0 # cs'"
  | (two) b1 r cs' where "0xC2 \<le> b0" "b0 \<le> 0xDF" "utf8_cont b1" "bs = b1 # r"
      "utf8_chars r = Some cs'" "cs = ((unat b0 - 0xC0) * 64 + (unat b1 - 0x80)) # cs'"
  | (three) b1 b2 r cs' where "utf8_second3 b0 b1" "utf8_cont b2" "bs = b1 # b2 # r"
      "utf8_chars r = Some cs'"
      "cs = ((unat b0 - 0xE0) * 4096 + (unat b1 - 0x80) * 64 + (unat b2 - 0x80)) # cs'"
  | (four) b1 b2 b3 r cs' where "utf8_second4 b0 b1" "utf8_cont b2" "utf8_cont b3"
      "bs = b1 # b2 # b3 # r" "utf8_chars r = Some cs'"
      "cs = ((unat b0 - 0xF0) * 262144 + (unat b1 - 0x80) * 4096
         + (unat b2 - 0x80) * 64 + (unat b3 - 0x80)) # cs'"
  using assms unfolding utf8_chars.simps
  by (simp only: split: if_splits list.splits) (fastforce simp only: map_option_eq_Some option.simps)+

lemma utf8_encode_Cons: "utf8_encode (c # cs) = utf8_encode_char c @ utf8_encode cs"
  by (simp add: utf8_encode_def)

lemma utf8_chars_sound:
  "utf8_chars bs = Some cs \<Longrightarrow> list_all is_scalar cs \<and> bs = utf8_encode cs"
proof (induction bs arbitrary: cs rule: length_induct)
  case (1 bs)
  show ?case
  proof (cases bs)
    case Nil
    with "1.prems" show ?thesis by (simp add: utf8_encode_def)
  next
    case (Cons b0 bs')
    have IH: "list_all is_scalar cs' \<and> r = utf8_encode cs'"
      if "utf8_chars r = Some cs'" "length r \<le> length bs'" for r cs'
      using "1.IH" that unfolding Cons by (simp add: less_Suc_eq_le)
    from "1.prems" Cons have "utf8_chars (b0 # bs') = Some cs" by simp
    then show ?thesis
    proof (cases rule: utf8_chars_ConsE)
      case (one cs')
      then have "is_scalar (unat b0)" by (simp add: byte_nat is_scalar_def)
      with one Cons IH [of bs' cs'] show ?thesis
        by (simp add: utf8_encode_Cons utf8_encode_char1)
    next
      case (two b1 r cs')
      with Cons IH [of r cs'] show ?thesis
        by (simp add: utf8_encode_Cons utf8_encode_char2)
    next
      case (three b1 b2 r cs')
      with Cons IH [of r cs'] show ?thesis
        by (simp add: utf8_encode_Cons utf8_encode_char3 del: diff_add_assoc2 Nat.diff_add_assoc)
    next
      case (four b1 b2 b3 r cs')
      with Cons IH [of r cs'] show ?thesis
        by (simp add: utf8_encode_Cons utf8_encode_char4)
    qed
  qed
qed

theorem utf8_chars_iff:
  "utf8_chars bs = Some cs \<longleftrightarrow> list_all is_scalar cs \<and> bs = utf8_encode cs"
  using utf8_chars_sound utf8_chars_encode by blast

end
