(* ===== verification/Decimal.thy ===== *)
theory Decimal
  imports Utf8
begin

text \<open>
  The decimal form of a number, as \<open>write!(f, "{}", n)\<close> of the standard library prints it, with the
  value of a digit string as its inverse. \<open>Ledger_Types\<close> prints sizes with it, \<open>Review_UI\<close>
  shows that \<open>from_u64\<close> computes it.
\<close>

fun low_digits :: "nat \<Rightarrow> bytes" where
  "low_digits n = (if n = 0 then [] else of_nat (48 + n mod 10) # low_digits (n div 10))"

declare low_digits.simps [simp del]

definition decimal :: "nat \<Rightarrow> bytes" where
  "decimal n = (if n = 0 then [48] else rev (low_digits n))"

definition decimal_value :: "bytes \<Rightarrow> nat" where
  "decimal_value s = foldl (\<lambda>v b. 10 * v + (unat b - 48)) 0 s"

lemma low_digits_length: "n < 10 ^ k \<Longrightarrow> length (low_digits n) \<le> k"
proof (induction k arbitrary: n)
  case (Suc k)
  then have "n div 10 < 10 ^ k" by (simp add: less_mult_imp_div_less mult.commute)
  with Suc.IH show ?case by (subst low_digits.simps) simp
qed (simp add: low_digits.simps)

lemma unat_digit: "unat (of_nat (48 + n mod 10) :: u8) = 48 + n mod 10"
  by (intro unat_of_nat_small) simp

lemma decimal_value_low: "decimal_value (rev (low_digits n)) = n"
proof (induction n rule: low_digits.induct)
  case (1 n)
  show ?case
  proof (cases "n = 0")
    case False
    with 1 show ?thesis
      by (subst low_digits.simps) (simp add: decimal_value_def unat_digit del: of_nat_add)
  qed (simp add: low_digits.simps decimal_value_def)
qed

lemma decimal_value_decimal: "decimal_value (decimal n) = n"
  using decimal_value_low [of n] by (simp add: decimal_def decimal_value_def)

lemma decimal_inj [simp]: "decimal m = decimal n \<longleftrightarrow> m = n"
  by (metis decimal_value_decimal)

lemma u64_less: "unat (w :: u64) < 10 ^ 20"
  using unsigned_less [of w] by (rule less_trans) simp

lemma decimal_length: "length (decimal (unat (w :: u64))) \<le> 20"
  using low_digits_length [OF u64_less [of w]] by (simp add: decimal_def)

lemma low_digits_ascii: "list_all (\<lambda>b. b < 0x80) (low_digits n)"
proof (induction n rule: low_digits.induct)
  case (1 n)
  have "(of_nat (48 + n mod 10) :: u8) < 0x80"
    unfolding word_less_nat_alt unat_digit by simp
  with 1 show ?case by (subst low_digits.simps) simp
qed

lemma decimal_ascii: "str_is_ascii (decimal n)"
  using low_digits_ascii [of n] by (simp add: str_is_ascii_def decimal_def list_all_iff)

end
