(* ===== verification/Ledger_Types.thy ===== *)
theory Ledger_Types
  imports Decimal "HOL-Library.List_Lexorder"
begin

text \<open>
  \<open>crates/sunrise-edge-ledger-core/src/types.rs\<close>: the fixed-capacity containers and the
  protocol identifiers. The const-generic capacity \<open>N\<close> of \<open>BoundedBytes\<close> and
  \<open>BoundedStr\<close> is an argument of their constructors; \<open>bb_wf\<close> is what the Rust types
  guarantee (a backing array of \<open>N\<close> bytes, of which \<open>len\<close> are in use, the rest zero).
  A \<open>[u8; 32]\<close> is a byte list, its length part of the well-formedness predicates.
\<close>

section \<open>Bounded byte buffers\<close>

record capacity_error =
  ce_actual :: usize
  ce_maximum :: usize

record bounded_bytes =
  bb_buf :: bytes
  bb_len :: usize

definition bb_new :: "nat \<Rightarrow> bounded_bytes" where
  "bb_new n = \<lparr>bb_buf = replicate n 0, bb_len = 0\<rparr>"

definition bb_from_slice :: "nat \<Rightarrow> bytes \<Rightarrow> capacity_error + bounded_bytes" where
  "bb_from_slice n s =
     (if length s > n then Inl \<lparr>ce_actual = length s, ce_maximum = n\<rparr>
      else
        let buf = replicate n 0;
            buf' = (case slice_get buf 0 (length s) of
                      None \<Rightarrow> buf
                    | Some _ \<Rightarrow> copy_into buf 0 s)
        in Inr \<lparr>bb_buf = buf', bb_len = length s\<rparr>)"

abbreviation bb_default :: "nat \<Rightarrow> bounded_bytes" where
  "bb_default n \<equiv> bb_new n"

abbreviation bb_length :: "bounded_bytes \<Rightarrow> usize" where
  "bb_length b \<equiv> bb_len b"

definition bb_as_bytes :: "bounded_bytes \<Rightarrow> bytes" where
  "bb_as_bytes b = (case slice_get (bb_buf b) 0 (bb_len b) of None \<Rightarrow> [] | Some s \<Rightarrow> s)"

definition bb_is_empty :: "bounded_bytes \<Rightarrow> bool" where
  "bb_is_empty b \<longleftrightarrow> bb_len b = 0"

definition bb_wf :: "nat \<Rightarrow> bounded_bytes \<Rightarrow> bool" where
  "bb_wf n b \<longleftrightarrow> length (bb_buf b) = n \<and> bb_len b \<le> n
     \<and> drop (bb_len b) (bb_buf b) = replicate (n - bb_len b) 0"

lemma bb_from_slice_Inr:
  "bb_from_slice n s = Inr b \<longleftrightarrow>
     length s \<le> n \<and> b = \<lparr>bb_buf = s @ replicate (n - length s) 0, bb_len = length s\<rparr>"
  by (auto simp: bb_from_slice_def Let_def slice_get_def copy_into_def not_less)

lemma bb_from_slice_as_bytes: "bb_from_slice n s = Inr b \<Longrightarrow> bb_as_bytes b = s"
  by (auto simp: bb_from_slice_Inr bb_as_bytes_def slice_get_def)

lemma bb_from_slice_wf: "bb_from_slice n s = Inr b \<Longrightarrow> bb_wf n b"
  by (auto simp: bb_from_slice_Inr bb_wf_def)

lemma bb_wf_length: "bb_wf n b \<Longrightarrow> length (bb_as_bytes b) = bb_len b"
  by (auto simp: bb_wf_def bb_as_bytes_def slice_get_def)

lemma bb_from_slice_iff:
  "bb_from_slice n s = Inr b \<longleftrightarrow> bb_wf n b \<and> s = bb_as_bytes b"
proof
  assume "bb_from_slice n s = Inr b"
  then show "bb_wf n b \<and> s = bb_as_bytes b"
    using bb_from_slice_as_bytes bb_from_slice_wf by blast
next
  assume a: "bb_wf n b \<and> s = bb_as_bytes b"
  then have s: "s = take (bb_len b) (bb_buf b)" "length s = bb_len b" "bb_len b \<le> n"
    and d: "drop (bb_len b) (bb_buf b) = replicate (n - bb_len b) 0"
    by (auto simp: bb_wf_def bb_as_bytes_def slice_get_def)
  have "bb_buf b = s @ replicate (n - length s) 0"
    unfolding s(2) d [symmetric] using s(1) by simp
  with s(2,3) show "bb_from_slice n s = Inr b"
    by (cases b) (auto simp: bb_from_slice_Inr)
qed

interpretation bounded: codec bb_as_bytes "bb_from_slice n" "bb_wf n" for n
  by unfold_locales (simp_all add: bb_from_slice_iff)

section \<open>Bounded strings\<close>

record bounded_str =
  bs_bytes :: bounded_bytes

datatype bounded_str_error = Capacity capacity_error | InvalidUtf8Str

definition bs_from_utf8_slice :: "nat \<Rightarrow> bytes \<Rightarrow> bounded_str_error + bounded_str" where
  "bs_from_utf8_slice n s =
     try_bind (map_err Capacity (bb_from_slice n s)) (\<lambda>b.
     if \<not> from_utf8_ok (bb_as_bytes b) then Inl InvalidUtf8Str
     else Inr \<lparr>bs_bytes = b\<rparr>)"

definition bs_as_str :: "bounded_str \<Rightarrow> bytes" where
  "bs_as_str s = (if from_utf8_ok (bb_as_bytes (bs_bytes s)) then bb_as_bytes (bs_bytes s) else [])"

abbreviation bs_length :: "bounded_str \<Rightarrow> usize" where
  "bs_length s \<equiv> bb_length (bs_bytes s)"

definition bs_is_empty :: "bounded_str \<Rightarrow> bool" where
  "bs_is_empty s = bb_is_empty (bs_bytes s)"

definition bs_wf :: "nat \<Rightarrow> bounded_str \<Rightarrow> bool" where
  "bs_wf n s \<longleftrightarrow> bb_wf n (bs_bytes s) \<and> from_utf8_ok (bb_as_bytes (bs_bytes s))"

lemma bs_from_utf8_slice_iff:
  "bs_from_utf8_slice n s = Inr b \<longleftrightarrow> bs_wf n b \<and> s = bs_as_str b"
  by (cases b)
    (auto simp: bs_from_utf8_slice_def result_simps bb_from_slice_iff bs_wf_def bs_as_str_def)

interpretation bstr: codec bs_as_str "bs_from_utf8_slice n" "bs_wf n" for n
  by unfold_locales (simp_all add: bs_from_utf8_slice_iff)

lemma bs_wf_length: "bs_wf n s \<Longrightarrow> length (bs_as_str s) \<le> n"
  by (auto simp: bs_wf_def bs_as_str_def bb_wf_length bb_wf_def)

lemma bs_is_empty_iff: "bs_wf n s \<Longrightarrow> bs_is_empty s \<longleftrightarrow> bs_as_str s = []"
  using bb_wf_length [of n "bs_bytes s"]
  by (auto simp: bs_wf_def bs_is_empty_def bb_is_empty_def bs_as_str_def)

section \<open>Identifiers with a wire form\<close>

type_synonym protocol_version = u32
type_synonym epoch = u64

datatype hash_algorithm_id = Sha2_256 | Sha3_256 | Blake3_256

definition hash_as_u16 :: "hash_algorithm_id \<Rightarrow> u16" where
  "hash_as_u16 h = (case h of Sha2_256 \<Rightarrow> 1 | Sha3_256 \<Rightarrow> 2 | Blake3_256 \<Rightarrow> 3)"

definition hash_label :: "hash_algorithm_id \<Rightarrow> bytes" where
  "hash_label h = (case h of
     Sha2_256 \<Rightarrow> ascii ''sha2-256''
   | Sha3_256 \<Rightarrow> ascii ''sha3-256''
   | Blake3_256 \<Rightarrow> ascii ''blake3-256'')"

definition hash_try_from_u16 :: "u16 \<Rightarrow> hash_algorithm_id option" where
  "hash_try_from_u16 v =
     (if v = 1 then Some Sha2_256 else if v = 2 then Some Sha3_256
      else if v = 3 then Some Blake3_256 else None)"

datatype signature_scheme_id = Ed25519 | Secp256k1

definition scheme_as_u16 :: "signature_scheme_id \<Rightarrow> u16" where
  "scheme_as_u16 s = (case s of Ed25519 \<Rightarrow> 1 | Secp256k1 \<Rightarrow> 2)"

definition scheme_label :: "signature_scheme_id \<Rightarrow> bytes" where
  "scheme_label s = (case s of Ed25519 \<Rightarrow> ascii ''ed25519'' | Secp256k1 \<Rightarrow> ascii ''secp256k1'')"

definition scheme_try_from_u16 :: "u16 \<Rightarrow> signature_scheme_id option" where
  "scheme_try_from_u16 v =
     (if v = 1 then Some Ed25519 else if v = 2 then Some Secp256k1 else None)"

datatype access_mode = ReadMode | WriteMode | ConsumeMode

definition mode_as_u8 :: "access_mode \<Rightarrow> u8" where
  "mode_as_u8 m = (case m of ReadMode \<Rightarrow> 1 | WriteMode \<Rightarrow> 2 | ConsumeMode \<Rightarrow> 3)"

definition mode_label :: "access_mode \<Rightarrow> bytes" where
  "mode_label m = (case m of
     ReadMode \<Rightarrow> ascii ''read'' | WriteMode \<Rightarrow> ascii ''write'' | ConsumeMode \<Rightarrow> ascii ''consume'')"

definition mode_try_from_u8 :: "u8 \<Rightarrow> access_mode option" where
  "mode_try_from_u8 v =
     (if v = 1 then Some ReadMode else if v = 2 then Some WriteMode
      else if v = 3 then Some ConsumeMode else None)"

interpretation hash_id: wire_enum hash_as_u16 hash_try_from_u16
  by unfold_locales
    (auto simp: hash_as_u16_def hash_try_from_u16_def
      split: hash_algorithm_id.splits if_splits)

interpretation scheme_id: wire_enum scheme_as_u16 scheme_try_from_u16
  by unfold_locales
    (auto simp: scheme_as_u16_def scheme_try_from_u16_def
      split: signature_scheme_id.splits if_splits)

interpretation mode_id: wire_enum mode_as_u8 mode_try_from_u8
  by unfold_locales
    (auto simp: mode_as_u8_def mode_try_from_u8_def split: access_mode.splits if_splits)

section \<open>Digests, identifiers and references\<close>

record digest32 =
  dg_algorithm :: hash_algorithm_id
  dg_bytes :: bytes

abbreviation d32_new :: "hash_algorithm_id \<Rightarrow> bytes \<Rightarrow> digest32" where
  "d32_new algorithm bs \<equiv> \<lparr>dg_algorithm = algorithm, dg_bytes = bs\<rparr>"

abbreviation d32_algorithm :: "digest32 \<Rightarrow> hash_algorithm_id" where
  "d32_algorithm d \<equiv> dg_algorithm d"

abbreviation d32_bytes :: "digest32 \<Rightarrow> bytes" where
  "d32_bytes d \<equiv> dg_bytes d"

datatype object_id = ObjectId (oid_bytes: bytes)

abbreviation object_id_new :: "bytes \<Rightarrow> object_id" where
  "object_id_new bs \<equiv> ObjectId bs"

abbreviation object_id_as_bytes :: "object_id \<Rightarrow> bytes" where
  "object_id_as_bytes i \<equiv> oid_bytes i"

datatype address = Address (addr_bytes: bytes)

abbreviation address_new :: "bytes \<Rightarrow> address" where
  "address_new bs \<equiv> Address bs"

abbreviation address_as_bytes :: "address \<Rightarrow> bytes" where
  "address_as_bytes a \<equiv> addr_bytes a"

datatype asset_id = AssetId (asset_bytes: bytes)

abbreviation asset_id_new :: "bytes \<Rightarrow> asset_id" where
  "asset_id_new bs \<equiv> AssetId bs"

abbreviation asset_id_as_bytes :: "asset_id \<Rightarrow> bytes" where
  "asset_id_as_bytes a \<equiv> asset_bytes a"

record object_ref =
  or_id :: object_id
  or_version :: u64
  or_digest :: digest32

record access_entry =
  ae_object_ref :: object_ref
  ae_mode :: access_mode

record fee_payment =
  fp_asset_id :: asset_id
  fp_max_fee :: u64
  fp_fee_object :: object_ref

text \<open>\<open>ObjectId\<close> derives \<open>Ord\<close>: the lexicographic order of its bytes.\<close>

instantiation object_id :: linorder
begin

definition less_eq_object_id :: "object_id \<Rightarrow> object_id \<Rightarrow> bool" where
  "less_eq_object_id a b \<longleftrightarrow> oid_bytes a \<le> oid_bytes b"

definition less_object_id :: "object_id \<Rightarrow> object_id \<Rightarrow> bool" where
  "less_object_id a b \<longleftrightarrow> oid_bytes a < oid_bytes b"

instance
  by standard
    (auto simp: less_eq_object_id_def less_object_id_def less_le_not_le intro: object_id.expand)

end

definition digest_wf :: "digest32 \<Rightarrow> bool" where
  "digest_wf d \<longleftrightarrow> length (dg_bytes d) = 32"

definition oid_wf :: "object_id \<Rightarrow> bool" where
  "oid_wf i \<longleftrightarrow> length (oid_bytes i) = 32"

definition addr_wf :: "address \<Rightarrow> bool" where
  "addr_wf a \<longleftrightarrow> length (addr_bytes a) = 32"

definition asset_wf :: "asset_id \<Rightarrow> bool" where
  "asset_wf a \<longleftrightarrow> length (asset_bytes a) = 32"

definition ref_wf :: "object_ref \<Rightarrow> bool" where
  "ref_wf r \<longleftrightarrow> oid_wf (or_id r) \<and> digest_wf (or_digest r)"

definition fee_wf :: "fee_payment \<Rightarrow> bool" where
  "fee_wf f \<longleftrightarrow> asset_wf (fp_asset_id f) \<and> ref_wf (fp_fee_object f)"

section \<open>Display\<close>

text \<open>\<open>{byte:02x}\<close>: two lowercase hexadecimal digits.\<close>

definition hex_digit :: "nat \<Rightarrow> u8" where
  "hex_digit n = (if n < 10 then of_nat (48 + n) else of_nat (87 + n))"

definition fmt_02x :: "u8 \<Rightarrow> bytes" where
  "fmt_02x b = [hex_digit (unat b div 16), hex_digit (unat b mod 16)]"

definition display_bytes :: "bytes \<Rightarrow> bytes" where
  "display_bytes bs = concat (map fmt_02x bs)"

definition display_capacity_error :: "capacity_error \<Rightarrow> bytes" where
  "display_capacity_error e =
     ascii ''value is '' @ decimal (ce_actual e) @ ascii '' bytes, maximum is ''
       @ decimal (ce_maximum e)"

definition display_bounded_str_error :: "bounded_str_error \<Rightarrow> bytes" where
  "display_bounded_str_error e = (case e of
     Capacity error \<Rightarrow> display_capacity_error error
   | InvalidUtf8Str \<Rightarrow> ascii ''value is not valid UTF-8'')"

definition display_bounded_str :: "bounded_str \<Rightarrow> bytes" where
  "display_bounded_str s = bs_as_str s"

definition display_hash :: "hash_algorithm_id \<Rightarrow> bytes" where
  "display_hash h = hash_label h"

definition display_digest :: "digest32 \<Rightarrow> bytes" where
  "display_digest d = display_hash (dg_algorithm d) @ ascii '':'' @ display_bytes (dg_bytes d)"

definition display_object_id :: "object_id \<Rightarrow> bytes" where
  "display_object_id i = display_bytes (oid_bytes i)"

definition display_address :: "address \<Rightarrow> bytes" where
  "display_address a = display_bytes (addr_bytes a)"

definition display_asset_id :: "asset_id \<Rightarrow> bytes" where
  "display_asset_id a = display_bytes (asset_bytes a)"

lemma length_display_bytes [simp]: "length (display_bytes bs) = 2 * length bs"
  by (induction bs) (simp_all add: display_bytes_def fmt_02x_def)

lemma unat_hex_digit: "n < 16 \<Longrightarrow> unat (hex_digit n) = (if n < 10 then 48 + n else 87 + n)"
  by (simp add: hex_digit_def unat_of_nat_small del: of_nat_add)

lemma hex_digit_inj: "m < 16 \<Longrightarrow> n < 16 \<Longrightarrow> hex_digit m = hex_digit n \<longleftrightarrow> m = n"
  by (auto dest!: arg_cong [of _ _ unat] simp: unat_hex_digit split: if_splits)

lemma fmt_02x_inj [simp]: "fmt_02x a = fmt_02x b \<longleftrightarrow> a = b"
proof
  assume "fmt_02x a = fmt_02x b"
  moreover have "unat a div 16 < 16" "unat b div 16 < 16" by (simp_all add: less_mult_imp_div_less)
  ultimately have "unat a div 16 = unat b div 16" "unat a mod 16 = unat b mod 16"
    by (simp_all add: fmt_02x_def hex_digit_inj)
  then have "unat a = unat b" by (metis div_mult_mod_eq)
  then show "a = b" by (simp add: word_unat_eq_iff)
qed simp

lemma length_fmt_02x [simp]: "length (fmt_02x b) = 2"
  by (simp add: fmt_02x_def)

lemma display_bytes_inj [simp]: "display_bytes xs = display_bytes ys \<longleftrightarrow> xs = ys"
proof
  assume eq: "display_bytes xs = display_bytes ys"
  then have "length xs = length ys"
    using length_display_bytes [of xs] length_display_bytes [of ys] by simp
  then show "xs = ys"
    using eq by (induction xs ys rule: list_induct2) (simp_all add: display_bytes_def)
qed simp

section \<open>The access manifest\<close>

definition max_access_entries :: usize where
  "max_access_entries = 8"

record access_manifest =
  am_entries :: "access_entry option list"
  am_len :: usize

definition am_new :: access_manifest where
  "am_new = \<lparr>am_entries = replicate max_access_entries None, am_len = 0\<rparr>"

abbreviation am_default :: access_manifest where
  "am_default \<equiv> am_new"

definition am_push :: "access_manifest \<Rightarrow> access_entry \<Rightarrow> capacity_error + access_manifest" where
  "am_push m e =
     (if \<not> am_len m < length (am_entries m)
      then Inl \<lparr>ce_actual = saturating_add_usize (am_len m) 1, ce_maximum = max_access_entries\<rparr>
      else Inr (m\<lparr>am_entries := (am_entries m)[am_len m := Some e],
                 am_len := saturating_add_usize (am_len m) 1\<rparr>))"

fun somes :: "'a option list \<Rightarrow> 'a list" where
  "somes [] = []"
| "somes (None # xs) = somes xs"
| "somes (Some x # xs) = x # somes xs"

definition am_iter :: "access_manifest \<Rightarrow> access_entry list" where
  "am_iter m = somes (case slice_get (am_entries m) 0 (am_len m) of None \<Rightarrow> [] | Some es \<Rightarrow> es)"

definition am_get :: "access_manifest \<Rightarrow> usize \<Rightarrow> access_entry option" where
  "am_get m index =
     (if index \<ge> am_len m then None
      else if index < length (am_entries m) then am_entries m ! index else None)"

abbreviation am_length :: "access_manifest \<Rightarrow> usize" where
  "am_length m \<equiv> am_len m"

definition am_is_empty :: "access_manifest \<Rightarrow> bool" where
  "am_is_empty m \<longleftrightarrow> am_len m = 0"

text \<open>The manifest that holds a list of entries, and the manifests the operations build.\<close>

definition am_of_list :: "access_entry list \<Rightarrow> access_manifest" where
  "am_of_list es = \<lparr>am_entries = map Some es @ replicate (max_access_entries - length es) None,
                    am_len = length es\<rparr>"

definition am_wf :: "access_manifest \<Rightarrow> bool" where
  "am_wf m \<longleftrightarrow> (\<exists>es. length es \<le> max_access_entries \<and> m = am_of_list es)"

lemma somes_append: "somes (xs @ ys) = somes xs @ somes ys"
  by (induction xs rule: somes.induct) simp_all

lemma somes_map_Some [simp]: "somes (map Some xs) = xs"
  by (induction xs) simp_all

lemma am_new_eq: "am_new = am_of_list []"
  by (simp add: am_new_def am_of_list_def)

lemma am_len_of_list [simp]: "am_len (am_of_list es) = length es"
  by (simp add: am_of_list_def)

lemma am_iter_of_list [simp]: "am_iter (am_of_list es) = es"
  by (simp add: am_iter_def am_of_list_def slice_get_def)

lemma am_get_of_list [simp]:
  "am_get (am_of_list es) i = (if i < length es then Some (es ! i) else None)"
  by (simp add: am_get_def am_of_list_def nth_append)

lemma am_push_of_list:
  assumes "length es < max_access_entries"
  shows "am_push (am_of_list es) e = Inr (am_of_list (es @ [e]))"
proof -
  have "replicate (8 - length es) (None :: access_entry option)
      = None # replicate (7 - length es) None"
    using assms by (simp add: max_access_entries_def flip: replicate_Suc Suc_diff_le)
  then show ?thesis
    using assms
    by (simp add: am_push_def am_of_list_def max_access_entries_def saturating_add_usize_def
        usize_limit_def list_update_append)
qed

lemma am_push_full:
  "length es = max_access_entries \<Longrightarrow>
     am_push (am_of_list es) e = Inl \<lparr>ce_actual = 9, ce_maximum = 8\<rparr>"
  by (simp add: am_push_def am_of_list_def max_access_entries_def saturating_add_usize_def
      usize_limit_def)

lemma am_of_list_inj [simp]: "am_of_list es = am_of_list es' \<longleftrightarrow> es = es'"
  by (metis am_iter_of_list)

lemma am_wf_iter: "am_wf m \<Longrightarrow> m = am_of_list (am_iter m)"
  by (auto simp: am_wf_def)

lemma am_wf_length: "am_wf m \<Longrightarrow> length (am_iter m) = am_len m \<and> am_len m \<le> max_access_entries"
  by (auto simp: am_wf_def)

end
