(* ===== verification/Canonical.thy ===== *)
theory Canonical
  imports Ledger_Types
begin

text \<open>
  \<open>crates/sunrise-edge-ledger-core/src/canonical.rs\<close>: the strict decoder of the canonical
  field-framed wire format and the zero-copy view \<open>CanonicalFrame\<close>.

  The first part translates the source, with its byte offsets. The second part states what the
  format is: \<open>encode_frame\<close> writes a type, a version and a list of fields, and
  \<open>fields_ok\<close> says which field lists a frame can carry. \<open>decode_canonical_frame_iff\<close>
  shows that the decoder accepts exactly the encodings of such lists; \<open>cf_field_mk\<close> and
  \<open>cf_require_only_fields_mk\<close> show that the re-scanning accessors compute the lookup in
  the list. The decoders of the nested types rest on these lemmas and on \<open>fields_exact\<close>.
\<close>

section \<open>The decoder\<close>

datatype canonical_error =
    Truncated
  | InvalidMagic
  | NonCanonicalFieldOrder
  | TrailingBytes
  | MissingField u16
  | UnexpectedField u16
  | InvalidFieldLength u16 usize usize
  | InvalidUtf8 u16
  | UnexpectedTypeId u16 u16
  | UnexpectedVersion u16 u16

record canonical_frame =
  cf_type_id :: u16
  cf_version :: u16
  cf_field_count :: u16
  cf_fields_start :: usize
  cf_input :: bytes

definition protocol_magic :: bytes where
  "protocol_magic = ascii ''SNRE''"

definition take_at :: "bytes \<Rightarrow> usize \<Rightarrow> usize \<Rightarrow> canonical_error + bytes \<times> usize" where
  "take_at input start n =
     try_bind (ok_or Truncated (checked_add_usize start n)) (\<lambda>stop.
     try_bind (ok_or Truncated (slice_get input start stop)) (\<lambda>bs.
     Inr (bs, stop)))"

definition read_u16 :: "bytes \<Rightarrow> usize \<Rightarrow> canonical_error + u16 \<times> usize" where
  "read_u16 input off =
     try_bind (take_at input off 2) (\<lambda>(bs, off').
     try_bind (ok_or Truncated (to_array 2 bs)) (\<lambda>arr.
     Inr (from_le arr, off')))"

definition read_u32 :: "bytes \<Rightarrow> usize \<Rightarrow> canonical_error + u32 \<times> usize" where
  "read_u32 input off =
     try_bind (take_at input off 4) (\<lambda>(bs, off').
     try_bind (ok_or Truncated (to_array 4 bs)) (\<lambda>arr.
     Inr (from_le arr, off')))"

text \<open>The header and the bytes of one field, as the accessors' loops read them.\<close>

definition read_entry :: "bytes \<Rightarrow> usize \<Rightarrow> canonical_error + u16 \<times> bytes \<times> usize" where
  "read_entry input off =
     try_bind (read_u16 input off) (\<lambda>(fid, off1).
     try_bind (read_u32 input off1) (\<lambda>(flen, off2).
     try_bind (ok_or Truncated (usize_try_from_u32 flen)) (\<lambda>n.
     try_bind (take_at input off2 n) (\<lambda>(bs, off3).
     Inr (fid, bs, off3)))))"

text \<open>The validation loop of \<open>decode_canonical_frame\<close>, with the fields still to read.\<close>

fun scan_fields :: "bytes \<Rightarrow> nat \<Rightarrow> usize \<Rightarrow> u16 option \<Rightarrow> canonical_error + usize" where
  "scan_fields input 0 off previous = Inr off"
| "scan_fields input (Suc n) off previous =
     try_bind (read_u16 input off) (\<lambda>(fid, off1).
     if (case previous of None \<Rightarrow> False | Some previous_id \<Rightarrow> fid \<le> previous_id)
     then Inl NonCanonicalFieldOrder
     else
       try_bind (read_u32 input off1) (\<lambda>(flen, off2).
       try_bind (ok_or Truncated (usize_try_from_u32 flen)) (\<lambda>n'.
       try_bind (take_at input off2 n') (\<lambda>(_, off3).
       scan_fields input n off3 (Some fid)))))"

definition decode_canonical_frame :: "bytes \<Rightarrow> canonical_error + canonical_frame" where
  "decode_canonical_frame input =
     try_bind (take_at input 0 (length protocol_magic)) (\<lambda>(magic, off0).
     if magic \<noteq> protocol_magic then Inl InvalidMagic
     else
       try_bind (read_u16 input off0) (\<lambda>(type_id, off1).
       try_bind (read_u16 input off1) (\<lambda>(version, off2).
       try_bind (read_u16 input off2) (\<lambda>(field_count, fields_start).
       try_bind (scan_fields input (unat field_count) fields_start None) (\<lambda>off.
       if off \<noteq> length input then Inl TrailingBytes
       else Inr \<lparr>cf_type_id = type_id, cf_version = version, cf_field_count = field_count,
                  cf_fields_start = fields_start, cf_input = input\<rparr>)))))"

section \<open>The view of a frame\<close>

abbreviation frame_type_id :: "canonical_frame \<Rightarrow> u16" where
  "frame_type_id f \<equiv> cf_type_id f"

abbreviation frame_version :: "canonical_frame \<Rightarrow> u16" where
  "frame_version f \<equiv> cf_version f"

definition cf_field_count_usize :: "canonical_frame \<Rightarrow> usize" where
  "cf_field_count_usize f = unat (cf_field_count f)"

definition cf_require_type :: "canonical_frame \<Rightarrow> u16 \<Rightarrow> canonical_error + unit" where
  "cf_require_type f expected =
     (if cf_type_id f \<noteq> expected then Inl (UnexpectedTypeId expected (cf_type_id f)) else Inr ())"

definition cf_require_version :: "canonical_frame \<Rightarrow> u16 \<Rightarrow> canonical_error + unit" where
  "cf_require_version f expected =
     (if cf_version f \<noteq> expected then Inl (UnexpectedVersion expected (cf_version f)) else Inr ())"

fun field_loop :: "bytes \<Rightarrow> u16 \<Rightarrow> nat \<Rightarrow> usize \<Rightarrow> bytes option" where
  "field_loop input field_id 0 off = None"
| "field_loop input field_id (Suc n) off =
     (case read_entry input off of
        Inl _ \<Rightarrow> None
      | Inr (fid, bs, off') \<Rightarrow>
          if fid = field_id then Some bs else field_loop input field_id n off')"

definition cf_field :: "canonical_frame \<Rightarrow> u16 \<Rightarrow> bytes option" where
  "cf_field f field_id =
     field_loop (cf_input f) field_id (unat (cf_field_count f)) (cf_fields_start f)"

definition cf_required_field :: "canonical_frame \<Rightarrow> u16 \<Rightarrow> canonical_error + bytes" where
  "cf_required_field f field_id = ok_or (MissingField field_id) (cf_field f field_id)"

fun only_fields_loop :: "bytes \<Rightarrow> u16 list \<Rightarrow> nat \<Rightarrow> usize \<Rightarrow> canonical_error + unit" where
  "only_fields_loop input allowed 0 off = Inr ()"
| "only_fields_loop input allowed (Suc n) off =
     try_bind (read_entry input off) (\<lambda>(fid, bs, off').
     if fid \<notin> set allowed then Inl (UnexpectedField fid)
     else only_fields_loop input allowed n off')"

definition cf_require_only_fields ::
    "canonical_frame \<Rightarrow> u16 list \<Rightarrow> canonical_error + unit" where
  "cf_require_only_fields f allowed =
     only_fields_loop (cf_input f) allowed (unat (cf_field_count f)) (cf_fields_start f)"

definition cf_required_u16 :: "canonical_frame \<Rightarrow> u16 \<Rightarrow> canonical_error + u16" where
  "cf_required_u16 f field_id =
     try_bind (cf_required_field f field_id) (\<lambda>bs.
     try_bind (ok_or (InvalidFieldLength field_id 2 (length bs)) (to_array 2 bs)) (\<lambda>arr.
     Inr (from_le arr)))"

definition cf_required_u32 :: "canonical_frame \<Rightarrow> u16 \<Rightarrow> canonical_error + u32" where
  "cf_required_u32 f field_id =
     try_bind (cf_required_field f field_id) (\<lambda>bs.
     try_bind (ok_or (InvalidFieldLength field_id 4 (length bs)) (to_array 4 bs)) (\<lambda>arr.
     Inr (from_le arr)))"

definition cf_required_u64 :: "canonical_frame \<Rightarrow> u16 \<Rightarrow> canonical_error + u64" where
  "cf_required_u64 f field_id =
     try_bind (cf_required_field f field_id) (\<lambda>bs.
     try_bind (ok_or (InvalidFieldLength field_id 8 (length bs)) (to_array 8 bs)) (\<lambda>arr.
     Inr (from_le arr)))"

definition cf_required_array :: "nat \<Rightarrow> canonical_frame \<Rightarrow> u16 \<Rightarrow> canonical_error + bytes" where
  "cf_required_array n f field_id =
     try_bind (cf_required_field f field_id) (\<lambda>bs.
     ok_or (InvalidFieldLength field_id n (length bs)) (to_array n bs))"

definition cf_required_str :: "canonical_frame \<Rightarrow> u16 \<Rightarrow> canonical_error + bytes" where
  "cf_required_str f field_id =
     try_bind (cf_required_field f field_id) (\<lambda>bs.
     if from_utf8_ok bs then Inr bs else Inl (InvalidUtf8 field_id))"

section \<open>The format\<close>

definition encode_field :: "u16 \<times> bytes \<Rightarrow> bytes" where
  "encode_field f = to_le 2 (fst f) @ to_le 4 (of_nat (length (snd f)) :: u32) @ snd f"

definition encode_fields :: "(u16 \<times> bytes) list \<Rightarrow> bytes" where
  "encode_fields fs = concat (map encode_field fs)"

definition encode_frame :: "u16 \<Rightarrow> u16 \<Rightarrow> (u16 \<times> bytes) list \<Rightarrow> bytes" where
  "encode_frame t v fs =
     protocol_magic @ to_le 2 t @ to_le 2 v @ to_le 2 (of_nat (length fs) :: u16) @ encode_fields fs"

definition fields_ok :: "(u16 \<times> bytes) list \<Rightarrow> bool" where
  "fields_ok fs \<longleftrightarrow> sorted_wrt (<) (map fst fs) \<and> length fs < 2 ^ 16
     \<and> 10 + length (encode_fields fs) < usize_limit"

definition mk_frame :: "u16 \<Rightarrow> u16 \<Rightarrow> (u16 \<times> bytes) list \<Rightarrow> canonical_frame" where
  "mk_frame t v fs =
     \<lparr>cf_type_id = t, cf_version = v, cf_field_count = of_nat (length fs),
      cf_fields_start = 10, cf_input = encode_frame t v fs\<rparr>"

lemma length_protocol_magic [simp]: "length protocol_magic = 4"
  by (simp add: protocol_magic_def)

lemma encode_fields_simps [simp]:
  "encode_fields [] = []"
  "encode_fields (f # fs) = encode_field f @ encode_fields fs"
  by (simp_all add: encode_fields_def)

lemma length_encode_field [simp, codec_lens]: "length (encode_field f) = 6 + length (snd f)"
  by (simp add: encode_field_def)

lemma length_encode_frame [codec_lens]:
  "length (encode_frame t v fs) = 10 + length (encode_fields fs)"
  by (simp add: encode_frame_def)

subsection \<open>Reading at an offset\<close>

definition sits_at :: "bytes \<Rightarrow> usize \<Rightarrow> bytes \<Rightarrow> bool" where
  "sits_at input off bs \<longleftrightarrow>
     off + length bs \<le> length input \<and> take (length bs) (drop off input) = bs"

lemma sits_at_append:
  "sits_at input off (xs @ ys) \<longleftrightarrow> sits_at input off xs \<and> sits_at input (off + length xs) ys"
  by (auto simp: sits_at_def take_add append_eq_append_conv_if add.commute)

lemma sits_at_Nil: "sits_at input off [] \<longleftrightarrow> off \<le> length input"
  by (simp add: sits_at_def)

lemma sits_at_unique:
  "sits_at input off xs \<Longrightarrow> sits_at input off ys \<Longrightarrow> length xs = length ys \<Longrightarrow> xs = ys"
  by (simp add: sits_at_def)

lemma sits_at_all: "sits_at input 0 bs \<and> length bs = length input \<longleftrightarrow> bs = input"
  by (auto simp: sits_at_def)

lemma take_at_iff:
  "take_at input off n = Inr (bs, off') \<longleftrightarrow>
     sits_at input off bs \<and> length bs = n \<and> off' = off + n \<and> off' < usize_limit"
  by (auto simp: take_at_def result_simps slice_get_Some sits_at_def)

lemma read_u16_iff:
  "read_u16 input off = Inr (w, off') \<longleftrightarrow>
     sits_at input off (to_le 2 w) \<and> off' = off + 2 \<and> off' < usize_limit"
  by (auto simp: read_u16_def result_simps take_at_iff)

lemma read_u32_iff:
  "read_u32 input off = Inr (w, off') \<longleftrightarrow>
     sits_at input off (to_le 4 w) \<and> off' = off + 4 \<and> off' < usize_limit"
  by (auto simp: read_u32_def result_simps take_at_iff)

lemma u32_length: "length xs < usize_limit \<Longrightarrow> unat (of_nat (length xs) :: u32) = length xs"
  by (simp add: unat_of_nat take_bit_nat_eq_self usize_limit_def)

lemma read_entry_iff:
  "read_entry input off = Inr (fid, bs, off') \<longleftrightarrow>
     sits_at input off (encode_field (fid, bs)) \<and> off' = off + 6 + length bs \<and> off' < usize_limit"
proof
  assume "read_entry input off = Inr (fid, bs, off')"
  then show "sits_at input off (encode_field (fid, bs)) \<and> off' = off + 6 + length bs
      \<and> off' < usize_limit"
    by (auto simp: read_entry_def result_simps read_u16_iff read_u32_iff take_at_iff
        encode_field_def sits_at_append)
next
  assume a: "sits_at input off (encode_field (fid, bs)) \<and> off' = off + 6 + length bs
      \<and> off' < usize_limit"
  let ?n = "of_nat (length bs) :: u32"
  from a have n: "unat ?n = length bs" by (simp add: u32_length)
  from a have "read_u16 input off = Inr (fid, off + 2)"
      "read_u32 input (off + 2) = Inr (?n, off + 6)"
      "take_at input (off + 6) (length bs) = Inr (bs, off')"
    by (auto simp: encode_field_def sits_at_append read_u16_iff read_u32_iff take_at_iff
        add.commute [of off])
  with n show "read_entry input off = Inr (fid, bs, off')"
    by (simp add: read_entry_def)
qed

lemma scan_fields_Suc:
  "scan_fields input (Suc n) off previous = Inr off' \<longleftrightarrow>
     (\<exists>fid bs off3. read_entry input off = Inr (fid, bs, off3)
        \<and> (case previous of None \<Rightarrow> True | Some p \<Rightarrow> p < fid)
        \<and> scan_fields input n off3 (Some fid) = Inr off')"
  by (cases previous) (fastforce simp: read_entry_def result_simps)+

declare scan_fields.simps(2) [simp del]

definition above :: "u16 option \<Rightarrow> u16 list \<Rightarrow> bool" where
  "above previous ids \<longleftrightarrow> (case previous of None \<Rightarrow> True | Some p \<Rightarrow> list_all (\<lambda>i. p < i) ids)"

lemma scan_fields_iff:
  assumes "off < usize_limit" "off \<le> length input"
  shows "scan_fields input n off previous = Inr off' \<longleftrightarrow>
     (\<exists>fs. length fs = n \<and> sits_at input off (encode_fields fs)
        \<and> off' = off + length (encode_fields fs) \<and> off' < usize_limit
        \<and> sorted_wrt (<) (map fst fs) \<and> above previous (map fst fs))"
  using assms
proof (induction n arbitrary: off previous)
  case 0
  then show ?case by (auto simp: sits_at_Nil above_def split: option.split)
next
  case (Suc n)
  show ?case (is "_ \<longleftrightarrow> ?rhs")
  proof
    assume "scan_fields input (Suc n) off previous = Inr off'"
    then obtain fid bs off3 where e: "read_entry input off = Inr (fid, bs, off3)"
        and p: "case previous of None \<Rightarrow> True | Some p \<Rightarrow> p < fid"
        and s: "scan_fields input n off3 (Some fid) = Inr off'"
      by (auto simp: scan_fields_Suc)
    from e have off3: "off3 = off + length (encode_field (fid, bs))" "off3 < usize_limit"
        "off3 \<le> length input" "sits_at input off (encode_field (fid, bs))"
      by (auto simp: read_entry_iff sits_at_def)
    from s Suc.IH [OF off3(2,3), of "Some fid"] obtain fs where
        "length fs = n" "sits_at input off3 (encode_fields fs)"
        "off' = off3 + length (encode_fields fs)" "off' < usize_limit"
        "sorted_wrt (<) (map fst fs)" "list_all (\<lambda>i. fid < i) (map fst fs)"
      by (auto simp: above_def)
    with off3 p show ?rhs
      by (intro exI [of _ "(fid, bs) # fs"])
        (auto simp: sits_at_append above_def list_all_iff split: option.splits)
  next
    assume ?rhs
    then obtain f fs where f: "length fs = n" "sits_at input off (encode_fields (f # fs))"
        "off' = off + length (encode_fields (f # fs))" "off' < usize_limit"
        "sorted_wrt (<) (map fst (f # fs))" "above previous (map fst (f # fs))"
      by (auto simp: length_Suc_conv)
    let ?off3 = "off + 6 + length (snd f)"
    from f have e: "read_entry input off = Inr (fst f, snd f, ?off3)"
      by (simp add: read_entry_iff sits_at_append)
    from f have off3: "?off3 < usize_limit" "?off3 \<le> length input"
      by (auto simp: sits_at_def)
    from f have "scan_fields input n ?off3 (Some (fst f)) = Inr off'"
      unfolding Suc.IH [OF off3]
      by (intro exI [of _ fs]) (auto simp: sits_at_append above_def list_all_iff add.assoc)
    with e f(6) show "scan_fields input (Suc n) off previous = Inr off'"
      by (auto simp: scan_fields_Suc above_def split: option.splits)
  qed
qed

subsection \<open>The decoder accepts the encodings and nothing else\<close>

lemma u16_length: "n < 2 ^ 16 \<Longrightarrow> unat (of_nat n :: u16) = n"
  by (simp add: unat_of_nat take_bit_nat_eq_self)

lemma decode_canonical_frame_mk:
  assumes "fields_ok fs"
  shows "decode_canonical_frame (encode_frame t v fs) = Inr (mk_frame t v fs)"
proof -
  let ?input = "encode_frame t v fs" and ?n = "of_nat (length fs) :: u16"
  have lim: "length ?input < usize_limit" and n: "unat ?n = length fs"
    using assms by (simp_all add: fields_ok_def length_encode_frame u16_length)
  have at: "sits_at ?input 0 ?input" by (simp add: sits_at_def)
  then have "sits_at ?input 0 protocol_magic" "sits_at ?input 4 (to_le 2 t)"
      "sits_at ?input 6 (to_le 2 v)" "sits_at ?input 8 (to_le 2 ?n)"
      "sits_at ?input 10 (encode_fields fs)"
    by (simp_all add: encode_frame_def sits_at_append)
  moreover have "10 < usize_limit" "10 \<le> length ?input"
    by (simp_all add: usize_limit_def length_encode_frame)
  ultimately have
      "take_at ?input 0 (length protocol_magic) = Inr (protocol_magic, 4)"
      "read_u16 ?input 4 = Inr (t, 6)" "read_u16 ?input 6 = Inr (v, 8)"
      "read_u16 ?input 8 = Inr (?n, 10)"
      "scan_fields ?input (unat ?n) 10 None = Inr (length ?input)"
    using assms lim n
    by (auto simp: take_at_iff read_u16_iff scan_fields_iff above_def fields_ok_def
        length_encode_frame)
  then show ?thesis
    by (simp add: decode_canonical_frame_def mk_frame_def)
qed

lemma decode_canonical_frame_sound:
  assumes "decode_canonical_frame input = Inr f"
  shows "\<exists>t v fs. fields_ok fs \<and> input = encode_frame t v fs \<and> f = mk_frame t v fs"
proof -
  from assms obtain off0 t off1 v off2 n start where
      m: "take_at input 0 (length protocol_magic) = Inr (protocol_magic, off0)"
    and t: "read_u16 input off0 = Inr (t, off1)"
    and v: "read_u16 input off1 = Inr (v, off2)"
    and n: "read_u16 input off2 = Inr (n, start)"
    and s: "scan_fields input (unat n) start None = Inr (length input)"
    and f: "f = \<lparr>cf_type_id = t, cf_version = v, cf_field_count = n, cf_fields_start = start,
                cf_input = input\<rparr>"
    by (auto simp: decode_canonical_frame_def result_simps)
  from m t v n have start: "start = 10" "start < usize_limit" "start \<le> length input"
    and hd: "sits_at input 0 (protocol_magic @ to_le 2 t @ to_le 2 v @ to_le 2 n)"
    by (auto simp: take_at_iff read_u16_iff sits_at_append) (auto simp: sits_at_def)
  from s start obtain fs where fs: "length fs = unat n" "sits_at input 10 (encode_fields fs)"
      "length input = 10 + length (encode_fields fs)" "length input < usize_limit"
      "sorted_wrt (<) (map fst fs)"
    by (auto simp: scan_fields_iff)
  from fs(1) have n': "of_nat (length fs) = n" by simp
  have "length fs < 2 ^ 16" using fs(1) unsigned_less [of n] by simp
  then have ok: "fields_ok fs" using fs by (simp add: fields_ok_def)
  have "sits_at input 0 (encode_frame t v fs)"
    using hd fs(2) n' by (simp add: encode_frame_def sits_at_append)
  then have "input = encode_frame t v fs"
    using fs(3) sits_at_all [of input "encode_frame t v fs"] by (simp add: length_encode_frame)
  with ok f start(1) n' show ?thesis
    by (auto simp: mk_frame_def)
qed

lemma decode_canonical_frame_iff:
  "decode_canonical_frame input = Inr f \<longleftrightarrow>
     (\<exists>t v fs. fields_ok fs \<and> input = encode_frame t v fs \<and> f = mk_frame t v fs)"
  using decode_canonical_frame_sound decode_canonical_frame_mk by blast

subsection \<open>The accessors compute the lookup in the field list\<close>

lemma field_loop_fields:
  assumes "sits_at input off (encode_fields fs)" "off + length (encode_fields fs) < usize_limit"
  shows "field_loop input field_id (length fs) off = map_of fs field_id"
  using assms
proof (induction fs arbitrary: off)
  case (Cons f fs)
  then have "read_entry input off = Inr (fst f, snd f, off + 6 + length (snd f))"
    by (simp add: read_entry_iff sits_at_append)
  with Cons show ?case
    by (cases f) (auto simp: sits_at_append add.assoc)
qed simp

lemma only_fields_loop_fields:
  assumes "sits_at input off (encode_fields fs)" "off + length (encode_fields fs) < usize_limit"
  shows "only_fields_loop input allowed (length fs) off =
    (case find (\<lambda>i. i \<notin> set allowed) (map fst fs) of
       None \<Rightarrow> Inr () | Some i \<Rightarrow> Inl (UnexpectedField i))"
  using assms
proof (induction fs arbitrary: off)
  case (Cons f fs)
  then have "read_entry input off = Inr (fst f, snd f, off + 6 + length (snd f))"
    by (simp add: read_entry_iff sits_at_append)
  with Cons show ?case
    by (cases f) (auto simp: sits_at_append add.assoc)
qed simp

lemma mk_frame_simps [simp]:
  "cf_type_id (mk_frame t v fs) = t"
  "cf_version (mk_frame t v fs) = v"
  "cf_input (mk_frame t v fs) = encode_frame t v fs"
  by (simp_all add: mk_frame_def)

lemma mk_frame_count:
  "fields_ok fs \<Longrightarrow> unat (cf_field_count (mk_frame t v fs)) = length fs"
  by (simp add: mk_frame_def fields_ok_def u16_length)

lemma mk_frame_sits:
  "sits_at (encode_frame t v fs) 10 (encode_fields fs)"
  by (simp add: sits_at_def encode_frame_def)

lemma cf_field_mk [simp]:
  "fields_ok fs \<Longrightarrow> cf_field (mk_frame t v fs) field_id = map_of fs field_id"
  using field_loop_fields [OF mk_frame_sits, of fs t v field_id]
  by (simp add: cf_field_def fields_ok_def u16_length mk_frame_def)

lemma cf_require_only_fields_mk:
  "fields_ok fs \<Longrightarrow> cf_require_only_fields (mk_frame t v fs) allowed =
    (case find (\<lambda>i. i \<notin> set allowed) (map fst fs) of
       None \<Rightarrow> Inr () | Some i \<Rightarrow> Inl (UnexpectedField i))"
  using only_fields_loop_fields [OF mk_frame_sits, of fs t v allowed]
  by (simp add: cf_require_only_fields_def fields_ok_def u16_length mk_frame_def)

lemma cf_require_only_fields_Inr [simp]:
  "fields_ok fs \<Longrightarrow> cf_require_only_fields (mk_frame t v fs) allowed = Inr u \<longleftrightarrow>
     fst ` set fs \<subseteq> set allowed"
proof (cases "find (\<lambda>i. i \<notin> set allowed) (map fst fs)")
  case None
  then have "fst ` set fs \<subseteq> set allowed" by (auto simp: find_None_iff)
  with None show "fields_ok fs \<Longrightarrow> ?thesis" by (simp add: cf_require_only_fields_mk)
next
  case (Some i)
  then have "i \<in> set (map fst fs)" "i \<notin> set allowed" by (auto simp: find_Some_iff)
  then have "\<not> fst ` set fs \<subseteq> set allowed" by auto
  with Some show "fields_ok fs \<Longrightarrow> ?thesis" by (simp add: cf_require_only_fields_mk)
qed

lemma cf_require_type_Inr [simp]: "cf_require_type f t = Inr u \<longleftrightarrow> cf_type_id f = t"
  by (simp add: cf_require_type_def)

lemma cf_require_version_Inr [simp]: "cf_require_version f v = Inr u \<longleftrightarrow> cf_version f = v"
  by (simp add: cf_require_version_def)

lemma cf_required_field_Inr [simp]:
  "cf_required_field f i = Inr bs \<longleftrightarrow> cf_field f i = Some bs"
  by (simp add: cf_required_field_def result_simps)

lemma cf_required_u16_Inr [simp]:
  "cf_required_u16 f i = Inr w \<longleftrightarrow> cf_field f i = Some (to_le 2 w)"
  by (auto simp: cf_required_u16_def result_simps)

lemma cf_required_u32_Inr [simp]:
  "cf_required_u32 f i = Inr w \<longleftrightarrow> cf_field f i = Some (to_le 4 w)"
  by (auto simp: cf_required_u32_def result_simps)

lemma cf_required_u64_Inr [simp]:
  "cf_required_u64 f i = Inr w \<longleftrightarrow> cf_field f i = Some (to_le 8 w)"
  by (auto simp: cf_required_u64_def result_simps)

lemma cf_required_array_Inr [simp]:
  "cf_required_array n f i = Inr bs \<longleftrightarrow> cf_field f i = Some bs \<and> length bs = n"
  by (auto simp: cf_required_array_def result_simps)

lemma cf_required_str_Inr [simp]:
  "cf_required_str f i = Inr bs \<longleftrightarrow> cf_field f i = Some bs \<and> from_utf8_ok bs"
  by (auto simp: cf_required_str_def result_simps)

lemmas accessor_defs =
  cf_require_type_def cf_require_version_def cf_require_only_fields_mk cf_required_field_def
  cf_required_u16_def cf_required_u32_def cf_required_u64_def cf_required_array_def

subsection \<open>A frame determines its fields\<close>

lemma to_le_inj [simp]:
  "to_le 2 (a :: u16) = to_le 2 b \<longleftrightarrow> a = b"
  "to_le 4 (c :: u32) = to_le 4 d \<longleftrightarrow> c = d"
  "to_le 8 (e :: u64) = to_le 8 f \<longleftrightarrow> e = f"
  by (metis from_to_le(2), metis from_to_le(3), metis from_to_le(4))

lemma encode_field_inj:
  assumes "encode_field f @ r = encode_field f' @ r'"
    and "length (snd f) < usize_limit" "length (snd f') < usize_limit"
  shows "f = f'" "r = r'"
proof -
  from assms(1) have e: "fst f = fst f'" "snd f @ r = snd f' @ r'"
    and n: "(of_nat (length (snd f)) :: u32) = of_nat (length (snd f'))"
    by (simp_all add: encode_field_def)
  have "length (snd f) = length (snd f')"
    using arg_cong [OF n, of unat] unfolding u32_length [OF assms(2)] u32_length [OF assms(3)] .
  with e show "f = f'" "r = r'" by (simp_all add: prod_eq_iff)
qed

lemma encode_fields_inj:
  assumes "length fs = length fs'" "encode_fields fs = encode_fields fs'"
    and "length (encode_fields fs) < usize_limit"
  shows "fs = fs'"
  using assms
proof (induction fs fs' rule: list_induct2)
  case (Cons f fs f' fs')
  have "length (encode_fields (f' # fs')) < usize_limit" using Cons.prems by simp
  then have "length (snd f) < usize_limit" "length (snd f') < usize_limit"
    using Cons.prems(2) by simp_all
  with Cons.prems(1) encode_field_inj [of f "encode_fields fs" f' "encode_fields fs'"]
  have "f = f'" "encode_fields fs = encode_fields fs'" by simp_all
  with Cons show ?case by simp
qed simp

lemma mk_frame_inj:
  assumes "fields_ok fs" "fields_ok fs'" "mk_frame t v fs = mk_frame t' v' fs'"
  shows "t = t'" "v = v'" "fs = fs'"
proof -
  show e: "t = t'" "v = v'" using assms(3) by (simp_all add: mk_frame_def)
  have "length fs = length fs'"
    using mk_frame_count [OF assms(1)] mk_frame_count [OF assms(2)] assms(3) by metis
  moreover from this have "encode_fields fs = encode_fields fs'"
    using assms(3) e by (simp add: mk_frame_def encode_frame_def)
  ultimately show "fs = fs'"
    using assms(1) by (intro encode_fields_inj) (simp_all add: fields_ok_def)
qed

lemma encode_frame_inj:
  assumes "fields_ok fs" "fields_ok fs'"
  shows "encode_frame t v fs = encode_frame t' v' fs' \<longleftrightarrow> t = t' \<and> v = v' \<and> fs = fs'"
proof
  assume "encode_frame t v fs = encode_frame t' v' fs'"
  then have "mk_frame t v fs = mk_frame t' v' fs'"
    by (metis Inr_inject assms decode_canonical_frame_mk)
  then show "t = t' \<and> v = v' \<and> fs = fs'"
    using mk_frame_inj [OF assms] by blast
qed simp

definition cf_wf :: "canonical_frame \<Rightarrow> bool" where
  "cf_wf f \<longleftrightarrow> (\<exists>fs. fields_ok fs \<and> f = mk_frame (cf_type_id f) (cf_version f) fs)"

interpretation canonical: codec cf_input decode_canonical_frame cf_wf
proof unfold_locales
  fix f assume "cf_wf f"
  then show "decode_canonical_frame (cf_input f) = Inr f"
    unfolding cf_wf_def by (metis decode_canonical_frame_mk mk_frame_simps(3))
next
  fix bs f assume "decode_canonical_frame bs = Inr f"
  then show "cf_wf f \<and> bs = cf_input f"
    unfolding decode_canonical_frame_iff cf_wf_def by (metis mk_frame_simps)
qed

subsection \<open>Schemas\<close>

text \<open>
  A schema reads a frame of a fixed type whose fields are exactly a given list of identifiers.
  \<open>fields_exact\<close> turns what the checks establish into the field list itself.
\<close>

lemma fields_exact:
  assumes ok: "sorted_wrt (<) (map fst fs)" and ks: "sorted_wrt (<) (ks :: u16 list)"
    and sub: "fst ` set fs \<subseteq> set ks" and all: "\<And>k. k \<in> set ks \<Longrightarrow> map_of fs k = Some (g k)"
  shows "fs = map (\<lambda>k. (k, g k)) ks"
proof -
  have "set ks \<subseteq> fst ` set fs" using all by (force dest: map_of_SomeD)
  with sub have "set (map fst fs) = set ks" by auto
  with ok ks have fst: "map fst fs = ks"
    by (intro strict_sorted_equal) simp_all
  have "distinct (map fst fs)"
    using ok strict_sorted_iff by blast
  then have "(fst f, g (fst f)) = f" if "f \<in> set fs" for f
  proof -
    from that \<open>distinct (map fst fs)\<close> have "map_of fs (fst f) = Some (snd f)" by simp
    moreover from that sub have "map_of fs (fst f) = Some (g (fst f))" by (intro all) auto
    ultimately show ?thesis by (simp add: prod_eq_iff)
  qed
  then have "fs = map (\<lambda>f. (fst f, g (fst f))) fs"
    by (simp add: map_idI)
  also have "\<dots> = map (\<lambda>k. (k, g k)) (map fst fs)" by simp
  finally show ?thesis by (simp only: fst)
qed

lemma schema_exact:
  assumes "fields_ok fs" "fst ` set fs \<subseteq> fst ` set gs" "sorted_wrt (<) (map fst gs)"
    and "list_all (\<lambda>(k, b). map_of fs k = Some b) gs"
  shows "fs = gs"
proof -
  have d: "distinct (map fst gs)" using assms(3) strict_sorted_iff by blast
  have "map_of fs k = Some (the (map_of gs k))" if k: "k \<in> set (map fst gs)" for k
  proof -
    from k obtain b where "(k, b) \<in> set gs" by auto
    with d assms(4) show ?thesis by (auto simp: list_all_iff)
  qed
  with assms have "fs = map (\<lambda>k. (k, the (map_of gs k))) (map fst gs)"
    by (intro fields_exact) (simp_all add: fields_ok_def)
  also have "\<dots> = gs"
    using d by (auto simp: o_def intro!: map_idI)
  finally show ?thesis .
qed

lemma fields_ok_short:
  "sorted_wrt (<) (map fst fs) \<Longrightarrow> length fs < 2 ^ 16 \<Longrightarrow>
     length (encode_fields fs) < 2 ^ 31 \<Longrightarrow> fields_ok fs"
  by (simp add: fields_ok_def usize_limit_def)

end
