(* ===== verification/Signature_Frame.thy ===== *)
theory Signature_Frame
  imports Canonical
begin

text \<open>
  \<open>crates/sunrise-edge-ledger-core/src/frame.rs\<close>: the strict decoder of the outer signature
  frame. \<open>frame_codec\<close> shows that it accepts the encodings of well-formed frames and nothing
  else; \<open>sf_wf\<close> collects what the decoder enforces (bounded, valid UTF-8, non-blank texts and
  a known scheme).
\<close>

definition signature_frame_type_id :: u16 where "signature_frame_type_id = 0x2001"
definition signature_frame_version :: u16 where "signature_frame_version = 1"

definition sf_allowed_fields :: "u16 list" where
  "sf_allowed_fields = [1, 2, 3, 4, 5, 6]"

definition max_frame_chain_id_bytes :: usize where "max_frame_chain_id_bytes = 64"
definition max_message_type_bytes :: usize where "max_message_type_bytes = 32"

datatype frame_error =
    FrCanonical canonical_error
  | FrChainId bounded_str_error
  | FrMessageType bounded_str_error
  | FrUnknownSignatureScheme u16
  | FrEmptyChainId
  | FrEmptyMessageType

record signature_frame =
  sf_chain_id :: bounded_str
  sf_protocol_version :: protocol_version
  sf_epoch :: epoch
  sf_message_type :: bounded_str
  sf_signature_scheme_id :: signature_scheme_id
  sf_payload :: bytes

abbreviation frame_try ::
    "canonical_error + 'a \<Rightarrow> ('a \<Rightarrow> frame_error + 'b) \<Rightarrow> frame_error + 'b" where
  "frame_try m f \<equiv> try_bind (map_err FrCanonical m) f"

definition decode_signature_frame :: "bytes \<Rightarrow> frame_error + signature_frame" where
  "decode_signature_frame input =
     frame_try (decode_canonical_frame input) (\<lambda>frame.
     frame_try (cf_require_type frame signature_frame_type_id) (\<lambda>_.
     frame_try (cf_require_version frame signature_frame_version) (\<lambda>_.
     frame_try (cf_require_only_fields frame sf_allowed_fields) (\<lambda>_.
     frame_try (cf_required_field frame 1) (\<lambda>chain_id_bytes.
     try_bind (map_err FrChainId (bs_from_utf8_slice max_frame_chain_id_bytes chain_id_bytes))
       (\<lambda>chain_id.
     if str_trim_is_empty (bs_as_str chain_id) then Inl FrEmptyChainId
     else
       frame_try (cf_required_u32 frame 2) (\<lambda>protocol_version.
       frame_try (cf_required_u64 frame 3) (\<lambda>epoch.
       frame_try (cf_required_field frame 4) (\<lambda>message_type_bytes.
       try_bind (map_err FrMessageType (bs_from_utf8_slice max_message_type_bytes message_type_bytes))
         (\<lambda>message_type.
       if str_trim_is_empty (bs_as_str message_type) then Inl FrEmptyMessageType
       else
         frame_try (cf_required_u16 frame 5) (\<lambda>scheme_id.
         try_bind (ok_or (FrUnknownSignatureScheme scheme_id) (scheme_try_from_u16 scheme_id))
           (\<lambda>signature_scheme_id.
         frame_try (cf_required_field frame 6) (\<lambda>payload.
         Inr \<lparr>sf_chain_id = chain_id, sf_protocol_version = protocol_version, sf_epoch = epoch,
              sf_message_type = message_type, sf_signature_scheme_id = signature_scheme_id,
              sf_payload = payload\<rparr>)))))))))))))"

section \<open>The accepted frames\<close>

definition sf_fields :: "signature_frame \<Rightarrow> (u16 \<times> bytes) list" where
  "sf_fields f =
     [(1, bs_as_str (sf_chain_id f)), (2, to_le 4 (sf_protocol_version f)),
      (3, to_le 8 (sf_epoch f)), (4, bs_as_str (sf_message_type f)),
      (5, to_le 2 (scheme_as_u16 (sf_signature_scheme_id f))), (6, sf_payload f)]"

definition encode_signature_frame :: "signature_frame \<Rightarrow> bytes" where
  "encode_signature_frame f =
     encode_frame signature_frame_type_id signature_frame_version (sf_fields f)"

definition sf_wf :: "signature_frame \<Rightarrow> bool" where
  "sf_wf f \<longleftrightarrow> bs_wf max_frame_chain_id_bytes (sf_chain_id f)
     \<and> \<not> str_trim_is_empty (bs_as_str (sf_chain_id f))
     \<and> bs_wf max_message_type_bytes (sf_message_type f)
     \<and> \<not> str_trim_is_empty (bs_as_str (sf_message_type f))
     \<and> length (encode_signature_frame f) < usize_limit"

lemma sf_fields_ok: "length (encode_signature_frame f) < usize_limit \<longleftrightarrow> fields_ok (sf_fields f)"
  by (simp add: fields_ok_def encode_signature_frame_def length_encode_frame sf_fields_def)

interpretation frame_codec: codec encode_signature_frame decode_signature_frame sf_wf
proof unfold_locales
  fix f assume wf: "sf_wf f"
  then have ok: "fields_ok (sf_fields f)" by (simp add: sf_wf_def sf_fields_ok)
  define frame where
    "frame = mk_frame signature_frame_type_id signature_frame_version (sf_fields f)"
  have "decode_canonical_frame (encode_signature_frame f) = Inr frame"
    using ok by (simp add: encode_signature_frame_def decode_canonical_frame_mk frame_def)
  moreover have "cf_type_id frame = signature_frame_type_id"
      "cf_version frame = signature_frame_version"
    by (simp_all add: frame_def)
  moreover have "cf_require_only_fields frame sf_allowed_fields = Inr ()"
    using ok unfolding frame_def cf_require_only_fields_Inr [OF ok]
    by (simp add: sf_fields_def sf_allowed_fields_def)
  moreover have "cf_field frame k = map_of (sf_fields f) k" for k
    using ok by (simp add: frame_def)
  moreover have
    "bs_from_utf8_slice max_frame_chain_id_bytes (bs_as_str (sf_chain_id f)) = Inr (sf_chain_id f)"
    "bs_from_utf8_slice max_message_type_bytes (bs_as_str (sf_message_type f))
       = Inr (sf_message_type f)"
    using wf by (simp_all add: sf_wf_def bs_from_utf8_slice_iff)
  ultimately show "decode_signature_frame (encode_signature_frame f) = Inr f"
    using wf
    by (simp add: decode_signature_frame_def sf_fields_def cf_require_type_def
        cf_require_version_def cf_required_field_def cf_required_u16_def cf_required_u32_def
        cf_required_u64_def sf_wf_def scheme_id.try_from_as_wire)
next
  fix bs f assume d: "decode_signature_frame bs = Inr f"
  then obtain t v fs where fs: "fields_ok fs" "bs = encode_frame t v fs"
      "t = signature_frame_type_id" "v = signature_frame_version"
      "fst ` set fs \<subseteq> set sf_allowed_fields"
    by (auto simp: decode_signature_frame_def result_simps decode_canonical_frame_iff)
  note d' = d [unfolded fs(2) decode_signature_frame_def]
  have all: "list_all (\<lambda>(k, b). map_of fs k = Some b) (sf_fields f)"
    using d' fs(1)
    by (auto simp: decode_canonical_frame_mk result_simps bs_from_utf8_slice_iff
        scheme_id.try_from_iff sf_fields_def)
  have "fs = sf_fields f"
    by (rule schema_exact [OF fs(1) _ _ all])
      (use fs(5) in \<open>simp_all add: sf_fields_def sf_allowed_fields_def\<close>)
  then have bs: "bs = encode_signature_frame f" and len: "length bs < usize_limit"
    using fs sf_fields_ok by (simp_all add: encode_signature_frame_def)
  have "bs_wf max_frame_chain_id_bytes (sf_chain_id f)"
      "\<not> str_trim_is_empty (bs_as_str (sf_chain_id f))"
      "bs_wf max_message_type_bytes (sf_message_type f)"
      "\<not> str_trim_is_empty (bs_as_str (sf_message_type f))"
    using d' fs(1) by (auto simp: decode_canonical_frame_mk result_simps bs_from_utf8_slice_iff)
  with bs len show "sf_wf f \<and> bs = encode_signature_frame f"
    by (simp add: sf_wf_def)
qed

lemma length_encode_signature_frame:
  "length (encode_signature_frame f)
     = 60 + length (bs_as_str (sf_chain_id f)) + length (bs_as_str (sf_message_type f))
          + length (sf_payload f)"
  by (simp add: encode_signature_frame_def length_encode_frame sf_fields_def)

end
