(* ===== verification/Transaction.thy ===== *)
theory Transaction
  imports Signature_Frame
begin

text \<open>
  \<open>crates/sunrise-edge-ledger-core/src/transaction.rs\<close>: the strict decoder of the inner
  \<open>TransactionSignable\<close> and of every frame it nests.

  Each decoder is translated with its checks in the order of the source; the operator \<open>?\<close> is
  \<open>try_bind\<close>, and \<open>canonical_try\<close> where it converts a canonical error. What the decoders
  accept is the subject of \<open>Transaction_Codec\<close>.
\<close>

definition digest_type_id :: u16 where "digest_type_id = 0x0103"
definition object_id_type_id :: u16 where "object_id_type_id = 0x4001"
definition object_ref_type_id :: u16 where "object_ref_type_id = 0x4004"
definition access_mode_type_id :: u16 where "access_mode_type_id = 0x4006"
definition access_entry_type_id :: u16 where "access_entry_type_id = 0x5001"
definition access_manifest_type_id :: u16 where "access_manifest_type_id = 0x5002"
definition asset_id_type_id :: u16 where "asset_id_type_id = 0x7001"
definition fee_payment_type_id :: u16 where "fee_payment_type_id = 0x7002"
definition transaction_type_id :: u16 where "transaction_type_id = 0x6001"
definition encoding_version :: u16 where "encoding_version = 1"

definition tx_allowed_fields :: "u16 list" where
  "tx_allowed_fields = [1, 2, 3, 4, 5, 6, 7, 8, 9, 10, 11]"

definition max_entrypoint_bytes :: usize where "max_entrypoint_bytes = 64"
definition max_args_bytes :: usize where "max_args_bytes = 40"
definition max_chain_id_bytes :: usize where "max_chain_id_bytes = max_frame_chain_id_bytes"

datatype transaction_error =
    TxCanonical canonical_error
  | TxChainId bounded_str_error
  | TxSender
  | TxEntrypoint bounded_str_error
  | TxEmptyEntrypoint
  | TxArgs capacity_error
  | TxObjectId
  | TxUnknownAccessMode u8
  | TxAccessManifestShape
  | TxDuplicateObjectId object_id
  | TxUnknownHashAlgorithm u16

record transaction_signable =
  tx_chain_id :: bounded_str
  tx_protocol_version :: protocol_version
  tx_epoch :: epoch
  tx_sender :: address
  tx_nonce :: u64
  tx_access_manifest :: access_manifest
  tx_module_ref :: object_ref
  tx_entrypoint :: bounded_str
  tx_args :: bytes
  tx_gas_limit :: u64
  tx_fee_payment :: "fee_payment option"

text \<open>The operator \<open>?\<close> on a canonical error, converted by \<open>From<CanonicalError>\<close>.\<close>

abbreviation canonical_try ::
    "canonical_error + 'a \<Rightarrow> ('a \<Rightarrow> transaction_error + 'b) \<Rightarrow> transaction_error + 'b" where
  "canonical_try m f \<equiv> try_bind (map_err TxCanonical m) f"

definition decode_digest32 :: "bytes \<Rightarrow> transaction_error + digest32" where
  "decode_digest32 input =
     canonical_try (decode_canonical_frame input) (\<lambda>frame.
     canonical_try (cf_require_type frame digest_type_id) (\<lambda>_.
     canonical_try (cf_require_version frame 1) (\<lambda>_.
     canonical_try (cf_require_only_fields frame [1, 2]) (\<lambda>_.
     canonical_try (cf_required_u16 frame 1) (\<lambda>algorithm_id.
     try_bind (ok_or (TxUnknownHashAlgorithm algorithm_id) (hash_try_from_u16 algorithm_id))
       (\<lambda>algorithm.
     canonical_try (cf_required_array 32 frame 2) (\<lambda>bs.
     Inr (d32_new algorithm bs))))))))"

definition decode_object_id :: "bytes \<Rightarrow> transaction_error + object_id" where
  "decode_object_id input =
     canonical_try (decode_canonical_frame input) (\<lambda>frame.
     canonical_try (cf_require_type frame object_id_type_id) (\<lambda>_.
     canonical_try (cf_require_version frame 1) (\<lambda>_.
     canonical_try (cf_require_only_fields frame [1]) (\<lambda>_.
     try_bind (map_err (\<lambda>_. TxObjectId) (cf_required_array 32 frame 1)) (\<lambda>bs.
     Inr (object_id_new bs))))))"

definition decode_object_ref :: "bytes \<Rightarrow> transaction_error + object_ref" where
  "decode_object_ref input =
     canonical_try (decode_canonical_frame input) (\<lambda>frame.
     canonical_try (cf_require_type frame object_ref_type_id) (\<lambda>_.
     canonical_try (cf_require_version frame 1) (\<lambda>_.
     canonical_try (cf_require_only_fields frame [1, 2, 3]) (\<lambda>_.
     canonical_try (cf_required_field frame 1) (\<lambda>id_bytes.
     try_bind (decode_object_id id_bytes) (\<lambda>id.
     canonical_try (cf_required_u64 frame 2) (\<lambda>version.
     canonical_try (cf_required_field frame 3) (\<lambda>digest_bytes.
     try_bind (decode_digest32 digest_bytes) (\<lambda>digest.
     Inr \<lparr>or_id = id, or_version = version, or_digest = digest\<rparr>)))))))))"

definition decode_access_mode :: "bytes \<Rightarrow> transaction_error + access_mode" where
  "decode_access_mode input =
     canonical_try (decode_canonical_frame input) (\<lambda>frame.
     canonical_try (cf_require_type frame access_mode_type_id) (\<lambda>_.
     canonical_try (cf_require_version frame 1) (\<lambda>_.
     canonical_try (cf_require_only_fields frame [1]) (\<lambda>_.
     canonical_try (cf_required_field frame 1) (\<lambda>bs.
     canonical_try (ok_or (InvalidFieldLength 1 1 (length bs)) (to_array 1 bs)) (\<lambda>arr.
     ok_or (TxUnknownAccessMode (hd arr)) (mode_try_from_u8 (hd arr))))))))"

definition decode_access_entry :: "bytes \<Rightarrow> transaction_error + access_entry" where
  "decode_access_entry input =
     canonical_try (decode_canonical_frame input) (\<lambda>frame.
     canonical_try (cf_require_type frame access_entry_type_id) (\<lambda>_.
     canonical_try (cf_require_version frame 1) (\<lambda>_.
     canonical_try (cf_require_only_fields frame [1, 2]) (\<lambda>_.
     canonical_try (cf_required_field frame 1) (\<lambda>ref_bytes.
     try_bind (decode_object_ref ref_bytes) (\<lambda>object_ref.
     canonical_try (cf_required_field frame 2) (\<lambda>mode_bytes.
     try_bind (decode_access_mode mode_bytes) (\<lambda>mode.
     Inr \<lparr>ae_object_ref = object_ref, ae_mode = mode\<rparr>))))))))"

text \<open>
  The loop of \<open>decode_access_manifest\<close> over the declared entries: \<open>remaining\<close> iterations
  are left, the next one has index \<open>index\<close>.
\<close>

fun manifest_loop ::
    "canonical_frame \<Rightarrow> nat \<Rightarrow> usize \<Rightarrow> access_manifest \<Rightarrow> transaction_error + access_manifest"
where
  "manifest_loop frame 0 index manifest = Inr manifest"
| "manifest_loop frame (Suc remaining) index manifest =
     try_bind (ok_or TxAccessManifestShape (checked_add_usize index 2)) (\<lambda>n.
     try_bind (ok_or TxAccessManifestShape (u16_try_from_usize n)) (\<lambda>field_id.
     canonical_try (cf_required_field frame field_id) (\<lambda>entry_bytes.
     try_bind (decode_access_entry entry_bytes) (\<lambda>entry.
     try_bind (map_err (\<lambda>_. TxAccessManifestShape) (am_push manifest entry)) (\<lambda>manifest'.
     manifest_loop frame remaining (Suc index) manifest')))))"

text \<open>The pairwise scan: the left entry at index \<open>i\<close> against the entries after it.\<close>

fun duplicate_scan :: "access_entry list \<Rightarrow> nat \<Rightarrow> access_entry list \<Rightarrow> object_id option" where
  "duplicate_scan entries i [] = None"
| "duplicate_scan entries i (left # rest) =
     (if list_ex (\<lambda>right. or_id (ae_object_ref left) = or_id (ae_object_ref right))
           (drop (saturating_add_usize i 1) entries)
      then Some (or_id (ae_object_ref left))
      else duplicate_scan entries (Suc i) rest)"

definition decode_access_manifest :: "bytes \<Rightarrow> usize \<Rightarrow> transaction_error + access_manifest" where
  "decode_access_manifest input max_entries =
     canonical_try (decode_canonical_frame input) (\<lambda>frame.
     canonical_try (cf_require_type frame access_manifest_type_id) (\<lambda>_.
     canonical_try (cf_require_version frame 1) (\<lambda>_.
     canonical_try (cf_required_u32 frame 1) (\<lambda>declared.
     try_bind (ok_or TxAccessManifestShape (usize_try_from_u32 declared)) (\<lambda>declared_count.
     if declared_count > max_entries then Inl TxAccessManifestShape
     else
       try_bind (ok_or TxAccessManifestShape (checked_add_usize declared_count 1))
         (\<lambda>expected_field_count.
       if cf_field_count_usize frame \<noteq> expected_field_count then Inl TxAccessManifestShape
       else
         try_bind (manifest_loop frame declared_count 0 am_new) (\<lambda>manifest.
         case duplicate_scan (am_iter manifest) 0 (am_iter manifest) of
           Some dup \<Rightarrow> Inl (TxDuplicateObjectId dup)
         | None \<Rightarrow> Inr manifest)))))))"

definition decode_asset_id :: "bytes \<Rightarrow> transaction_error + asset_id" where
  "decode_asset_id input =
     canonical_try (decode_canonical_frame input) (\<lambda>frame.
     canonical_try (cf_require_type frame asset_id_type_id) (\<lambda>_.
     canonical_try (cf_require_version frame 1) (\<lambda>_.
     canonical_try (cf_require_only_fields frame [1]) (\<lambda>_.
     try_bind (map_err (\<lambda>_. TxObjectId) (cf_required_array 32 frame 1)) (\<lambda>bs.
     Inr (asset_id_new bs))))))"

definition decode_fee_payment :: "bytes \<Rightarrow> transaction_error + fee_payment" where
  "decode_fee_payment input =
     canonical_try (decode_canonical_frame input) (\<lambda>frame.
     canonical_try (cf_require_type frame fee_payment_type_id) (\<lambda>_.
     canonical_try (cf_require_version frame 1) (\<lambda>_.
     canonical_try (cf_require_only_fields frame [1, 2, 3]) (\<lambda>_.
     canonical_try (cf_required_field frame 1) (\<lambda>asset_bytes.
     try_bind (decode_asset_id asset_bytes) (\<lambda>asset.
     canonical_try (cf_required_u64 frame 2) (\<lambda>max_fee.
     canonical_try (cf_required_field frame 3) (\<lambda>object_bytes.
     try_bind (decode_object_ref object_bytes) (\<lambda>fee_object.
     Inr \<lparr>fp_asset_id = asset, fp_max_fee = max_fee, fp_fee_object = fee_object\<rparr>)))))))))"

definition decode_transaction_signable :: "bytes \<Rightarrow> transaction_error + transaction_signable" where
  "decode_transaction_signable input =
     canonical_try (decode_canonical_frame input) (\<lambda>frame.
     canonical_try (cf_require_type frame transaction_type_id) (\<lambda>_.
     canonical_try (cf_require_version frame encoding_version) (\<lambda>_.
     canonical_try (cf_require_only_fields frame tx_allowed_fields) (\<lambda>_.
     canonical_try (cf_required_field frame 1) (\<lambda>chain_id_bytes.
     try_bind (map_err TxChainId (bs_from_utf8_slice max_chain_id_bytes chain_id_bytes))
       (\<lambda>chain_id.
     canonical_try (cf_required_u32 frame 2) (\<lambda>protocol_version.
     canonical_try (cf_required_u64 frame 3) (\<lambda>epoch.
     try_bind (map_err (\<lambda>_. TxSender) (cf_required_array 32 frame 4)) (\<lambda>sender_bytes.
     canonical_try (cf_required_u64 frame 5) (\<lambda>nonce.
     canonical_try (cf_required_field frame 6) (\<lambda>manifest_bytes.
     try_bind (decode_access_manifest manifest_bytes max_access_entries) (\<lambda>access_manifest.
     canonical_try (cf_required_field frame 7) (\<lambda>module_bytes.
     try_bind (decode_object_ref module_bytes) (\<lambda>module_ref.
     canonical_try (cf_required_field frame 8) (\<lambda>entrypoint_bytes.
     try_bind (map_err TxEntrypoint (bs_from_utf8_slice max_entrypoint_bytes entrypoint_bytes))
       (\<lambda>entrypoint.
     if bs_is_empty entrypoint then Inl TxEmptyEntrypoint
     else
       canonical_try (cf_required_field frame 9) (\<lambda>args_bytes.
       if length args_bytes > max_args_bytes
       then Inl (TxArgs \<lparr>ce_actual = length args_bytes, ce_maximum = max_args_bytes\<rparr>)
       else
         canonical_try (cf_required_u64 frame 10) (\<lambda>gas_limit.
         try_bind
           (case cf_field frame 11 of
              Some bs \<Rightarrow> try_bind (decode_fee_payment bs) (\<lambda>fp. Inr (Some fp))
            | None \<Rightarrow> Inr None) (\<lambda>fee_payment.
         Inr \<lparr>tx_chain_id = chain_id, tx_protocol_version = protocol_version, tx_epoch = epoch,
              tx_sender = address_new sender_bytes, tx_nonce = nonce,
              tx_access_manifest = access_manifest, tx_module_ref = module_ref,
              tx_entrypoint = entrypoint, tx_args = args_bytes, tx_gas_limit = gas_limit,
              tx_fee_payment = fee_payment\<rparr>)))))))))))))))))))"

end
