(* ===== verification/Policy.thy ===== *)
theory Policy
  imports Transaction
begin

text \<open>
  \<open>crates/sunrise-edge-ledger-core/src/policy.rs\<close>: the exact-match clear-signing policy and the
  one devnet transfer it recognizes. A \<open>&'static str\<close> is its bytes.

  \<open>policy_matches\<close> is the declarative form of the allowlist; \<open>policy_recognize_iff\<close> shows
  that \<open>recognize\<close> returns an amount on the transactions that match with that amount, and on no
  others. \<open>policy_args\<close> is the one argument encoding of an amount.
\<close>

datatype policy_error =
    PolChainId
  | PolProtocolVersion
  | PolEpoch
  | PolModuleId
  | PolModuleVersion
  | PolModuleDigestAlgorithm
  | PolModuleDigest
  | PolEntrypoint
  | PolAccessShape
  | PolFeeRequired
  | PolFeeObjectMismatch
  | PolFeeAsset
  | PolArgumentsEncoding
  | PolArgumentsTypeId u16
  | PolArgumentsVersion u16
  | PolArgumentsShape
  | PolZeroAmount

record clear_signing_policy =
  pol_chain_id :: bytes
  pol_protocol_version :: protocol_version
  pol_epoch :: epoch
  pol_module_id :: bytes
  pol_module_version :: u64
  pol_code_digest_algorithm :: hash_algorithm_id
  pol_code_digest_bytes :: bytes
  pol_entrypoint :: bytes
  pol_args_type_id :: u16
  pol_args_version :: u16
  pol_args_field_id :: u16
  pol_args_label :: bytes
  pol_fee_asset_id :: bytes

abbreviation policy_args_label :: "clear_signing_policy \<Rightarrow> bytes" where
  "policy_args_label p \<equiv> pol_args_label p"

definition policy_recognize ::
    "clear_signing_policy \<Rightarrow> transaction_signable \<Rightarrow> policy_error + u64" where
  "policy_recognize p tx =
     (let module_ref = tx_module_ref tx; manifest = tx_access_manifest tx in
      if bs_as_str (tx_chain_id tx) \<noteq> pol_chain_id p then Inl PolChainId
      else if tx_protocol_version tx \<noteq> pol_protocol_version p then Inl PolProtocolVersion
      else if tx_epoch tx \<noteq> pol_epoch p then Inl PolEpoch
      else if or_id module_ref \<noteq> object_id_new (pol_module_id p) then Inl PolModuleId
      else if or_version module_ref \<noteq> pol_module_version p then Inl PolModuleVersion
      else if d32_algorithm (or_digest module_ref) \<noteq> pol_code_digest_algorithm p
        then Inl PolModuleDigestAlgorithm
      else if d32_bytes (or_digest module_ref) \<noteq> pol_code_digest_bytes p then Inl PolModuleDigest
      else if bs_as_str (tx_entrypoint tx) \<noteq> pol_entrypoint p then Inl PolEntrypoint
      else if am_length manifest \<noteq> 3 \<or> list_ex (\<lambda>entry. ae_mode entry \<noteq> WriteMode) (am_iter manifest)
        then Inl PolAccessShape
      else
        try_bind (ok_or PolFeeRequired (tx_fee_payment tx)) (\<lambda>fee_payment.
        try_bind (ok_or PolAccessShape (am_get manifest 0)) (\<lambda>source_entry.
        if fp_fee_object fee_payment \<noteq> ae_object_ref source_entry then Inl PolFeeObjectMismatch
        else if fp_asset_id fee_payment \<noteq> asset_id_new (pol_fee_asset_id p) then Inl PolFeeAsset
        else
          try_bind (map_err (\<lambda>_. PolArgumentsEncoding) (decode_canonical_frame (tx_args tx)))
            (\<lambda>frame.
          if frame_type_id frame \<noteq> pol_args_type_id p then Inl (PolArgumentsTypeId (frame_type_id frame))
          else if frame_version frame \<noteq> pol_args_version p
            then Inl (PolArgumentsVersion (frame_version frame))
          else
            try_bind (map_err (\<lambda>_. PolArgumentsShape)
                (cf_require_only_fields frame [pol_args_field_id p])) (\<lambda>_.
            try_bind (map_err (\<lambda>_. PolArgumentsShape)
                (cf_required_u64 frame (pol_args_field_id p))) (\<lambda>amount.
            if amount = 0 then Inl PolZeroAmount else Inr amount))))))"

definition devnet_asset_transfer_policy :: clear_signing_policy where
  "devnet_asset_transfer_policy =
     \<lparr>pol_chain_id = ascii ''sunrise-local-devnet'',
      pol_protocol_version = 3,
      pol_epoch = 0,
      pol_module_id =
        [0x0D, 0x5D, 0xD1, 0x0A, 0xEC, 0x2C, 0x31, 0x5B, 0x1D, 0xC5, 0x64, 0xC6, 0x94, 0x43, 0x9E,
         0x46, 0xBA, 0xC4, 0xB6, 0x14, 0x26, 0xD2, 0x2E, 0x0D, 0x7D, 0xDB, 0x76, 0x4C, 0x49, 0x19,
         0x7F, 0xE7],
      pol_module_version = 3,
      pol_code_digest_algorithm = Sha2_256,
      pol_code_digest_bytes =
        [0x01, 0x53, 0x41, 0x28, 0xF1, 0x2E, 0xB4, 0xCF, 0x46, 0x9B, 0xFA, 0x29, 0x67, 0x7B, 0xBC,
         0xED, 0x13, 0x44, 0x87, 0x9D, 0xE2, 0x87, 0x03, 0x15, 0x84, 0x7C, 0xBB, 0x7F, 0xAE, 0xC2,
         0x16, 0x19],
      pol_entrypoint = ascii ''transfer'',
      pol_args_type_id = 0xF002,
      pol_args_version = 1,
      pol_args_field_id = 1,
      pol_args_label = ascii ''amount'',
      pol_fee_asset_id =
        [0xCC, 0xAD, 0x27, 0xF6, 0x87, 0x33, 0x8B, 0x99, 0x95, 0x31, 0x83, 0x72, 0x86, 0x47, 0xBC,
         0x11, 0x77, 0x38, 0x8E, 0xB4, 0x5A, 0x37, 0xAF, 0xD9, 0x81, 0x2C, 0x0D, 0x28, 0x6B, 0x43,
         0x3E, 0xA8]\<rparr>"

section \<open>What the policy recognizes\<close>

definition policy_args :: "clear_signing_policy \<Rightarrow> u64 \<Rightarrow> bytes" where
  "policy_args p amount =
     encode_frame (pol_args_type_id p) (pol_args_version p)
       [(pol_args_field_id p, to_le 8 amount)]"

definition policy_module_ref :: "clear_signing_policy \<Rightarrow> object_ref" where
  "policy_module_ref p =
     \<lparr>or_id = ObjectId (pol_module_id p), or_version = pol_module_version p,
      or_digest = \<lparr>dg_algorithm = pol_code_digest_algorithm p,
                   dg_bytes = pol_code_digest_bytes p\<rparr>\<rparr>"

definition policy_matches :: "clear_signing_policy \<Rightarrow> transaction_signable \<Rightarrow> u64 \<Rightarrow> bool" where
  "policy_matches p tx amount \<longleftrightarrow>
     bs_as_str (tx_chain_id tx) = pol_chain_id p
     \<and> tx_protocol_version tx = pol_protocol_version p
     \<and> tx_epoch tx = pol_epoch p
     \<and> tx_module_ref tx = policy_module_ref p
     \<and> bs_as_str (tx_entrypoint tx) = pol_entrypoint p
     \<and> am_len (tx_access_manifest tx) = 3
     \<and> list_all (\<lambda>e. ae_mode e = WriteMode) (am_iter (tx_access_manifest tx))
     \<and> (\<exists>fee source. tx_fee_payment tx = Some fee
          \<and> am_get (tx_access_manifest tx) 0 = Some source
          \<and> fp_fee_object fee = ae_object_ref source
          \<and> fp_asset_id fee = AssetId (pol_fee_asset_id p))
     \<and> tx_args tx = policy_args p amount
     \<and> amount \<noteq> 0"

lemma policy_args_fields_ok: "fields_ok [(k, to_le 8 (amount :: u64))]"
  by (rule fields_ok_short) simp_all

lemma policy_args_decode_iff:
  "(\<exists>frame. decode_canonical_frame args = Inr frame \<and> cf_type_id frame = pol_args_type_id p
      \<and> cf_version frame = pol_args_version p
      \<and> cf_require_only_fields frame [pol_args_field_id p] = Inr ()
      \<and> cf_required_u64 frame (pol_args_field_id p) = Inr amount)
   \<longleftrightarrow> args = policy_args p amount"
proof
  assume "args = policy_args p amount"
  then show "\<exists>frame. decode_canonical_frame args = Inr frame \<and> cf_type_id frame = pol_args_type_id p
      \<and> cf_version frame = pol_args_version p
      \<and> cf_require_only_fields frame [pol_args_field_id p] = Inr ()
      \<and> cf_required_u64 frame (pol_args_field_id p) = Inr amount"
    by (simp add: policy_args_def decode_canonical_frame_mk policy_args_fields_ok)
next
  assume "\<exists>frame. decode_canonical_frame args = Inr frame \<and> cf_type_id frame = pol_args_type_id p
      \<and> cf_version frame = pol_args_version p
      \<and> cf_require_only_fields frame [pol_args_field_id p] = Inr ()
      \<and> cf_required_u64 frame (pol_args_field_id p) = Inr amount"
  then obtain t v fs where fs: "fields_ok fs" "args = encode_frame t v fs"
      "t = pol_args_type_id p" "v = pol_args_version p"
      "fst ` set fs \<subseteq> {pol_args_field_id p}"
      "map_of fs (pol_args_field_id p) = Some (to_le 8 amount)"
    by (auto simp: decode_canonical_frame_iff)
  then have "fs = [(pol_args_field_id p, to_le 8 amount)]" by (intro schema_exact) simp_all
  with fs show "args = policy_args p amount" by (simp add: policy_args_def)
qed

lemma policy_recognize_iff: "policy_recognize p tx = Inr amount \<longleftrightarrow> policy_matches p tx amount"
proof -
  have "policy_recognize p tx = Inr amount \<longleftrightarrow>
     bs_as_str (tx_chain_id tx) = pol_chain_id p
     \<and> tx_protocol_version tx = pol_protocol_version p
     \<and> tx_epoch tx = pol_epoch p
     \<and> tx_module_ref tx = policy_module_ref p
     \<and> bs_as_str (tx_entrypoint tx) = pol_entrypoint p
     \<and> am_len (tx_access_manifest tx) = 3
     \<and> list_all (\<lambda>e. ae_mode e = WriteMode) (am_iter (tx_access_manifest tx))
     \<and> (\<exists>fee source. tx_fee_payment tx = Some fee
          \<and> am_get (tx_access_manifest tx) 0 = Some source
          \<and> fp_fee_object fee = ae_object_ref source
          \<and> fp_asset_id fee = AssetId (pol_fee_asset_id p))
     \<and> (\<exists>frame. decode_canonical_frame (tx_args tx) = Inr frame
          \<and> cf_type_id frame = pol_args_type_id p \<and> cf_version frame = pol_args_version p
          \<and> cf_require_only_fields frame [pol_args_field_id p] = Inr ()
          \<and> cf_required_u64 frame (pol_args_field_id p) = Inr amount)
     \<and> amount \<noteq> 0"
    unfolding policy_recognize_def Let_def
    by (cases "tx_module_ref tx"; cases "or_digest (tx_module_ref tx)")
      (auto simp: result_simps policy_module_ref_def list_ex_iff list_all_iff)
  then show ?thesis
    unfolding policy_args_decode_iff policy_matches_def .
qed

end
