(* ===== verification/Transaction_Codec.thy ===== *)
theory Transaction_Codec
  imports Transaction
begin

text \<open>
  What the decoders of \<open>Transaction\<close> accept. For each type the \<open>encode_\<dots>\<close> definition
  writes the one frame that carries a value (the encoders are those of
  \<open>tests/conformance.rs\<close>), and the decoder is an instance of the \<open>codec\<close> contract: it
  returns a value on that frame and on no other input. The access manifest and the
  \<open>TransactionSignable\<close> come last, on top of the leaf types.
\<close>

section \<open>Encoders\<close>

definition encode_digest32 :: "digest32 \<Rightarrow> bytes" where
  "encode_digest32 d =
     encode_frame digest_type_id 1 [(1, to_le 2 (hash_as_u16 (dg_algorithm d))), (2, dg_bytes d)]"

definition encode_object_id :: "object_id \<Rightarrow> bytes" where
  "encode_object_id i = encode_frame object_id_type_id 1 [(1, oid_bytes i)]"

definition encode_object_ref :: "object_ref \<Rightarrow> bytes" where
  "encode_object_ref r =
     encode_frame object_ref_type_id 1
       [(1, encode_object_id (or_id r)), (2, to_le 8 (or_version r)),
        (3, encode_digest32 (or_digest r))]"

definition encode_access_mode :: "access_mode \<Rightarrow> bytes" where
  "encode_access_mode m = encode_frame access_mode_type_id 1 [(1, [mode_as_u8 m])]"

definition encode_access_entry :: "access_entry \<Rightarrow> bytes" where
  "encode_access_entry e =
     encode_frame access_entry_type_id 1
       [(1, encode_object_ref (ae_object_ref e)), (2, encode_access_mode (ae_mode e))]"

definition manifest_fields :: "access_entry list \<Rightarrow> (u16 \<times> bytes) list" where
  "manifest_fields es =
     (1, to_le 4 (of_nat (length es) :: u32))
       # map (\<lambda>(i, e). (of_nat (i + 2), encode_access_entry e)) (enumerate 0 es)"

definition encode_access_manifest :: "access_manifest \<Rightarrow> bytes" where
  "encode_access_manifest m = encode_frame access_manifest_type_id 1 (manifest_fields (am_iter m))"

definition encode_asset_id :: "asset_id \<Rightarrow> bytes" where
  "encode_asset_id a = encode_frame asset_id_type_id 1 [(1, asset_bytes a)]"

definition encode_fee_payment :: "fee_payment \<Rightarrow> bytes" where
  "encode_fee_payment f =
     encode_frame fee_payment_type_id 1
       [(1, encode_asset_id (fp_asset_id f)), (2, to_le 8 (fp_max_fee f)),
        (3, encode_object_ref (fp_fee_object f))]"

definition tx_fields :: "transaction_signable \<Rightarrow> (u16 \<times> bytes) list" where
  "tx_fields tx =
     [(1, bs_as_str (tx_chain_id tx)), (2, to_le 4 (tx_protocol_version tx)),
      (3, to_le 8 (tx_epoch tx)), (4, addr_bytes (tx_sender tx)), (5, to_le 8 (tx_nonce tx)),
      (6, encode_access_manifest (tx_access_manifest tx)),
      (7, encode_object_ref (tx_module_ref tx)), (8, bs_as_str (tx_entrypoint tx)),
      (9, tx_args tx), (10, to_le 8 (tx_gas_limit tx))]
     @ (case tx_fee_payment tx of None \<Rightarrow> [] | Some f \<Rightarrow> [(11, encode_fee_payment f)])"

definition encode_transaction_signable :: "transaction_signable \<Rightarrow> bytes" where
  "encode_transaction_signable tx = encode_frame transaction_type_id encoding_version (tx_fields tx)"

section \<open>The nested types\<close>

text \<open>
  For each type: the length of its frame, the frame is well formed, the decoder reads it back
  (the checks evaluate on it), and conversely an accepted input is that frame
  (\<open>schema_exact\<close> recovers the field list from the checks).
\<close>

lemmas decode_rules = result_simps decode_canonical_frame_iff

lemmas encode_rules = decode_canonical_frame_mk accessor_defs

lemma length_encode_digest32 [codec_lens]:
  "digest_wf d \<Longrightarrow> length (encode_digest32 d) = 56"
  by (simp add: encode_digest32_def codec_lens digest_wf_def)

interpretation digest_codec: codec encode_digest32 decode_digest32 digest_wf
proof unfold_locales
  fix d assume wf: "digest_wf d"
  let ?fs = "[(1 :: u16, to_le 2 (hash_as_u16 (dg_algorithm d))), (2, dg_bytes d)]"
  have "fields_ok ?fs" using wf by (intro fields_ok_short) (simp_all add: digest_wf_def)
  with wf show "decode_digest32 (encode_digest32 d) = Inr d"
    by (simp add: decode_digest32_def encode_digest32_def encode_rules digest_wf_def
        hash_id.try_from_as_wire)
next
  fix bs d assume "decode_digest32 bs = Inr d"
  then obtain t v fs where "fields_ok fs" "bs = encode_frame t v fs" "t = digest_type_id" "v = 1"
      "fst ` set fs \<subseteq> {1, 2}" "map_of fs 1 = Some (to_le 2 (hash_as_u16 (dg_algorithm d)))"
      "map_of fs 2 = Some (dg_bytes d)" "digest_wf d"
    by (auto simp: decode_digest32_def decode_rules digest_wf_def hash_id.try_from_iff)
  moreover from this have "fs = [(1, to_le 2 (hash_as_u16 (dg_algorithm d))), (2, dg_bytes d)]"
    by (intro schema_exact) simp_all
  ultimately show "digest_wf d \<and> bs = encode_digest32 d"
    by (simp add: encode_digest32_def)
qed

lemma length_encode_object_id [codec_lens]: "oid_wf i \<Longrightarrow> length (encode_object_id i) = 48"
  by (simp add: encode_object_id_def codec_lens oid_wf_def)

interpretation object_id_codec: codec encode_object_id decode_object_id oid_wf
proof unfold_locales
  fix i assume wf: "oid_wf i"
  have "fields_ok [(1 :: u16, oid_bytes i)]"
    using wf by (intro fields_ok_short) (simp_all add: oid_wf_def)
  with wf show "decode_object_id (encode_object_id i) = Inr i"
    by (simp add: decode_object_id_def encode_object_id_def encode_rules oid_wf_def)
next
  fix bs i assume "decode_object_id bs = Inr i"
  then obtain t v fs where "fields_ok fs" "bs = encode_frame t v fs" "t = object_id_type_id" "v = 1"
      "fst ` set fs \<subseteq> {1}" "map_of fs 1 = Some (oid_bytes i)" "oid_wf i"
    by (auto simp: decode_object_id_def decode_rules oid_wf_def)
  moreover from this have "fs = [(1, oid_bytes i)]" by (intro schema_exact) simp_all
  ultimately show "oid_wf i \<and> bs = encode_object_id i"
    by (simp add: encode_object_id_def)
qed

lemma length_encode_asset_id [codec_lens]: "asset_wf a \<Longrightarrow> length (encode_asset_id a) = 48"
  by (simp add: encode_asset_id_def codec_lens asset_wf_def)

interpretation asset_id_codec: codec encode_asset_id decode_asset_id asset_wf
proof unfold_locales
  fix a assume wf: "asset_wf a"
  have "fields_ok [(1 :: u16, asset_bytes a)]"
    using wf by (intro fields_ok_short) (simp_all add: asset_wf_def)
  with wf show "decode_asset_id (encode_asset_id a) = Inr a"
    by (simp add: decode_asset_id_def encode_asset_id_def encode_rules asset_wf_def)
next
  fix bs a assume "decode_asset_id bs = Inr a"
  then obtain t v fs where "fields_ok fs" "bs = encode_frame t v fs" "t = asset_id_type_id" "v = 1"
      "fst ` set fs \<subseteq> {1}" "map_of fs 1 = Some (asset_bytes a)" "asset_wf a"
    by (auto simp: decode_asset_id_def decode_rules asset_wf_def)
  moreover from this have "fs = [(1, asset_bytes a)]" by (intro schema_exact) simp_all
  ultimately show "asset_wf a \<and> bs = encode_asset_id a"
    by (simp add: encode_asset_id_def)
qed

lemma length_encode_access_mode [codec_lens]: "length (encode_access_mode m) = 17"
  by (simp add: encode_access_mode_def codec_lens)

interpretation access_mode_codec: codec encode_access_mode decode_access_mode "\<lambda>_. True"
proof unfold_locales
  fix m
  have "fields_ok [(1 :: u16, [mode_as_u8 m])]" by (intro fields_ok_short) simp_all
  then show "decode_access_mode (encode_access_mode m) = Inr m"
    by (simp add: decode_access_mode_def encode_access_mode_def encode_rules
        mode_id.try_from_as_wire)
next
  fix bs m assume "decode_access_mode bs = Inr m"
  then obtain t v fs where "fields_ok fs" "bs = encode_frame t v fs" "t = access_mode_type_id"
      "v = 1" "fst ` set fs \<subseteq> {1}" "map_of fs 1 = Some [mode_as_u8 m]"
    by (auto simp: decode_access_mode_def decode_rules mode_id.try_from_iff length_Suc_conv)
  moreover from this have "fs = [(1, [mode_as_u8 m])]" by (intro schema_exact) simp_all
  ultimately show "True \<and> bs = encode_access_mode m"
    by (simp add: encode_access_mode_def)
qed

lemma length_encode_object_ref [codec_lens]: "ref_wf r \<Longrightarrow> length (encode_object_ref r) = 140"
  by (simp add: encode_object_ref_def codec_lens ref_wf_def)

interpretation object_ref_codec: codec encode_object_ref decode_object_ref ref_wf
proof unfold_locales
  fix r assume wf: "ref_wf r"
  let ?fs = "[(1 :: u16, encode_object_id (or_id r)), (2, to_le 8 (or_version r)),
    (3, encode_digest32 (or_digest r))]"
  have "fields_ok ?fs" using wf by (intro fields_ok_short) (simp_all add: ref_wf_def codec_lens)
  with wf show "decode_object_ref (encode_object_ref r) = Inr r"
    by (simp add: decode_object_ref_def encode_object_ref_def encode_rules ref_wf_def
        object_id_codec.decode_encode digest_codec.decode_encode)
next
  fix bs r assume "decode_object_ref bs = Inr r"
  then obtain t v fs where "fields_ok fs" "bs = encode_frame t v fs" "t = object_ref_type_id"
      "v = 1" "fst ` set fs \<subseteq> {1, 2, 3}" "map_of fs 1 = Some (encode_object_id (or_id r))"
      "map_of fs 2 = Some (to_le 8 (or_version r))"
      "map_of fs 3 = Some (encode_digest32 (or_digest r))" "ref_wf r"
    by (auto simp: decode_object_ref_def decode_rules ref_wf_def object_id_codec.decode_iff
        digest_codec.decode_iff)
  moreover from this have "fs = [(1, encode_object_id (or_id r)), (2, to_le 8 (or_version r)),
      (3, encode_digest32 (or_digest r))]"
    by (intro schema_exact) simp_all
  ultimately show "ref_wf r \<and> bs = encode_object_ref r"
    by (simp add: encode_object_ref_def)
qed

definition entry_wf :: "access_entry \<Rightarrow> bool" where
  "entry_wf e \<longleftrightarrow> ref_wf (ae_object_ref e)"

lemma length_encode_access_entry [codec_lens]:
  "entry_wf e \<Longrightarrow> length (encode_access_entry e) = 179"
  by (simp add: encode_access_entry_def codec_lens entry_wf_def)

interpretation access_entry_codec: codec encode_access_entry decode_access_entry entry_wf
proof unfold_locales
  fix e assume wf: "entry_wf e"
  let ?fs = "[(1 :: u16, encode_object_ref (ae_object_ref e)), (2, encode_access_mode (ae_mode e))]"
  have "fields_ok ?fs" using wf by (intro fields_ok_short) (simp_all add: entry_wf_def codec_lens)
  with wf show "decode_access_entry (encode_access_entry e) = Inr e"
    by (simp add: decode_access_entry_def encode_access_entry_def encode_rules entry_wf_def
        object_ref_codec.decode_encode access_mode_codec.decode_encode)
next
  fix bs e assume "decode_access_entry bs = Inr e"
  then obtain t v fs where "fields_ok fs" "bs = encode_frame t v fs" "t = access_entry_type_id"
      "v = 1" "fst ` set fs \<subseteq> {1, 2}" "map_of fs 1 = Some (encode_object_ref (ae_object_ref e))"
      "map_of fs 2 = Some (encode_access_mode (ae_mode e))" "entry_wf e"
    by (auto simp: decode_access_entry_def decode_rules entry_wf_def object_ref_codec.decode_iff
        access_mode_codec.decode_iff)
  moreover from this have "fs = [(1, encode_object_ref (ae_object_ref e)),
      (2, encode_access_mode (ae_mode e))]"
    by (intro schema_exact) simp_all
  ultimately show "entry_wf e \<and> bs = encode_access_entry e"
    by (simp add: encode_access_entry_def)
qed

lemma length_encode_fee_payment [codec_lens]:
  "fee_wf f \<Longrightarrow> length (encode_fee_payment f) = 224"
  by (simp add: encode_fee_payment_def codec_lens fee_wf_def)

interpretation fee_codec: codec encode_fee_payment decode_fee_payment fee_wf
proof unfold_locales
  fix f assume wf: "fee_wf f"
  let ?fs = "[(1 :: u16, encode_asset_id (fp_asset_id f)), (2, to_le 8 (fp_max_fee f)),
    (3, encode_object_ref (fp_fee_object f))]"
  have "fields_ok ?fs" using wf by (intro fields_ok_short) (simp_all add: fee_wf_def codec_lens)
  with wf show "decode_fee_payment (encode_fee_payment f) = Inr f"
    by (simp add: decode_fee_payment_def encode_fee_payment_def encode_rules fee_wf_def
        asset_id_codec.decode_encode object_ref_codec.decode_encode)
next
  fix bs f assume "decode_fee_payment bs = Inr f"
  then obtain t v fs where "fields_ok fs" "bs = encode_frame t v fs" "t = fee_payment_type_id"
      "v = 1" "fst ` set fs \<subseteq> {1, 2, 3}" "map_of fs 1 = Some (encode_asset_id (fp_asset_id f))"
      "map_of fs 2 = Some (to_le 8 (fp_max_fee f))"
      "map_of fs 3 = Some (encode_object_ref (fp_fee_object f))" "fee_wf f"
    by (auto simp: decode_fee_payment_def decode_rules fee_wf_def asset_id_codec.decode_iff
        object_ref_codec.decode_iff)
  moreover from this have "fs = [(1, encode_asset_id (fp_asset_id f)), (2, to_le 8 (fp_max_fee f)),
      (3, encode_object_ref (fp_fee_object f))]"
    by (intro schema_exact) simp_all
  ultimately show "fee_wf f \<and> bs = encode_fee_payment f"
    by (simp add: encode_fee_payment_def)
qed

section \<open>The access manifest\<close>

definition entry_id :: "access_entry \<Rightarrow> object_id" where
  "entry_id e = or_id (ae_object_ref e)"

definition manifest_wf :: "access_manifest \<Rightarrow> bool" where
  "manifest_wf m \<longleftrightarrow> am_wf m \<and> list_all entry_wf (am_iter m) \<and> distinct (map entry_id (am_iter m))"

subsection \<open>The pairwise scan finds the first duplicate\<close>

lemma duplicate_scan_suffix:
  assumes "entries = ds @ ls" "length entries < usize_limit - 1"
  shows "duplicate_scan entries (length ds) ls = None \<longleftrightarrow> distinct (map entry_id ls)"
  using assms
proof (induction ls arbitrary: ds)
  case (Cons l ls)
  have "saturating_add_usize (length ds) 1 = Suc (length ds)"
    using Cons.prems by (simp add: saturating_add_usize_def)
  moreover have "duplicate_scan entries (length (ds @ [l])) ls = None \<longleftrightarrow> distinct (map entry_id ls)"
    using Cons.prems by (intro Cons.IH) simp_all
  moreover have "list_ex (\<lambda>right. or_id (ae_object_ref l) = or_id (ae_object_ref right)) ls
      \<longleftrightarrow> entry_id l \<in> entry_id ` set ls"
    by (auto simp: entry_id_def list_ex_iff)
  ultimately show ?case
    using Cons.prems(1) by simp
qed simp

lemma duplicate_scan_None:
  "length es \<le> max_access_entries \<Longrightarrow>
     duplicate_scan es 0 es = None \<longleftrightarrow> distinct (map entry_id es)"
  using duplicate_scan_suffix [of es "[]" es]
  by (simp add: max_access_entries_def usize_limit_def)

lemma duplicate_scan_first:
  assumes "entries = ds @ xs @ e # ys" "length entries < usize_limit - 1"
    and "distinct (map entry_id xs)" "entry_id ` set xs \<inter> entry_id ` set (e # ys) = {}"
    and "entry_id e \<in> entry_id ` set ys"
  shows "duplicate_scan entries (length ds) (xs @ e # ys) = Some (entry_id e)"
  using assms
proof (induction xs arbitrary: ds)
  case Nil
  then have "saturating_add_usize (length ds) 1 = Suc (length ds)"
    by (simp add: saturating_add_usize_def)
  with Nil show ?case by (auto simp: entry_id_def list_ex_iff)
next
  case (Cons x xs)
  have "saturating_add_usize (length ds) 1 = Suc (length ds)"
    using Cons.prems by (simp add: saturating_add_usize_def)
  moreover have "duplicate_scan entries (length (ds @ [x])) (xs @ e # ys) = Some (entry_id e)"
    using Cons.prems by (intro Cons.IH) auto
  moreover have "\<not> list_ex (\<lambda>right. or_id (ae_object_ref x) = or_id (ae_object_ref right)) (xs @ e # ys)"
    using Cons.prems(3,4) by (force simp: entry_id_def list_ex_iff)
  ultimately show ?case using Cons.prems(1) by simp
qed

subsection \<open>The loop over the entries\<close>

definition entry_field_id :: "nat \<Rightarrow> u16" where
  "entry_field_id i = of_nat (i + 2)"

lemma ex_list_Suc:
  "(\<exists>xs. length xs = Suc n \<and> P xs) \<longleftrightarrow> (\<exists>x xs. length xs = n \<and> P (x # xs))"
  by (auto simp: length_Suc_conv)

lemma manifest_loop_iff:
  assumes "length es + n \<le> max_access_entries"
  shows "manifest_loop frame n (length es) (am_of_list es) = Inr m \<longleftrightarrow>
     (\<exists>es'. length es' = n \<and> m = am_of_list (es @ es') \<and> list_all entry_wf es'
       \<and> (\<forall>i<n. cf_field frame (entry_field_id (length es + i))
              = Some (encode_access_entry (es' ! i))))"
  using assms
proof (induction n arbitrary: es)
  case (Suc n)
  have ids: "checked_add_usize (length es) 2 = Some (length es + 2)"
      "u16_try_from_usize (Suc (Suc (length es))) = Some (entry_field_id (length es))"
    using Suc.prems
    by (simp_all add: max_access_entries_def usize_limit_def u16_try_from_usize_def
        entry_field_id_def)
  have push: "am_push (am_of_list es) e = Inr (am_of_list (es @ [e]))" for e
    using Suc.prems by (intro am_push_of_list) simp
  have IH: "manifest_loop frame n (Suc (length es)) (am_of_list (es @ [e])) = Inr m \<longleftrightarrow>
     (\<exists>es'. length es' = n \<and> m = am_of_list (es @ e # es') \<and> list_all entry_wf es'
       \<and> (\<forall>i<n. cf_field frame (entry_field_id (Suc (length es) + i))
              = Some (encode_access_entry (es' ! i))))" for e
    using Suc.IH [of "es @ [e]"] Suc.prems by simp
  have "manifest_loop frame (Suc n) (length es) (am_of_list es) = Inr m \<longleftrightarrow>
      (\<exists>e. entry_wf e \<and> cf_field frame (entry_field_id (length es)) = Some (encode_access_entry e)
        \<and> manifest_loop frame n (Suc (length es)) (am_of_list (es @ [e])) = Inr m)"
    by (auto simp: ids push result_simps access_entry_codec.decode_iff)
  also have "\<dots> \<longleftrightarrow> (\<exists>e es'. length es' = n \<and> m = am_of_list (es @ e # es')
       \<and> list_all entry_wf (e # es') \<and> (\<forall>i<Suc n. cf_field frame (entry_field_id (length es + i))
              = Some (encode_access_entry ((e # es') ! i))))"
    unfolding IH All_less_Suc2 by simp blast
  finally show ?case by (simp only: ex_list_Suc)
qed auto

subsection \<open>The fields of a manifest\<close>

lemma unat_entry_field_id: "i < 2 ^ 15 \<Longrightarrow> unat (entry_field_id i) = i + 2"
  unfolding entry_field_id_def by (rule u16_length) simp

lemma entry_field_id_less:
  "j < 2 ^ 15 \<Longrightarrow> i < j \<Longrightarrow> entry_field_id i < entry_field_id j"
  by (simp add: word_less_nat_alt unat_entry_field_id)

lemma one_less_entry_field_id: "i < 2 ^ 15 \<Longrightarrow> 1 < entry_field_id i"
  by (simp add: word_less_nat_alt unat_entry_field_id)

lemma manifest_fields_eq:
  "manifest_fields es = (1, to_le 4 (of_nat (length es) :: u32))
     # map (\<lambda>i. (entry_field_id i, encode_access_entry (es ! i))) [0..<length es]"
  unfolding manifest_fields_def entry_field_id_def
  by (auto intro!: nth_equalityI simp: nth_enumerate_eq simp del: of_nat_add)

lemma map_fst_manifest_fields:
  "map fst (manifest_fields es) = 1 # map entry_field_id [0..<length es]"
  by (simp add: manifest_fields_eq o_def)

lemma manifest_fields_sorted:
  assumes "length es < 2 ^ 15"
  shows "sorted_wrt (<) (map fst (manifest_fields es))"
proof -
  have "sorted_wrt (\<lambda>i j. entry_field_id i < entry_field_id j) [0..<length es]"
    by (rule sorted_wrt_mono_rel [OF _ sorted_wrt_upt])
      (use assms in \<open>auto intro: entry_field_id_less\<close>)
  then show ?thesis
    using assms by (auto simp: map_fst_manifest_fields sorted_wrt_map intro: one_less_entry_field_id)
qed

lemma map_of_manifest_fields:
  assumes "i < length es" "length es < 2 ^ 15"
  shows "map_of (manifest_fields es) (entry_field_id i) = Some (encode_access_entry (es ! i))"
proof (rule map_of_is_SomeI)
  show "distinct (map fst (manifest_fields es))"
    using manifest_fields_sorted [OF assms(2)] strict_sorted_iff by blast
  show "(entry_field_id i, encode_access_entry (es ! i)) \<in> set (manifest_fields es)"
    using assms(1) by (simp add: manifest_fields_eq)
qed

lemma length_encode_fields_const:
  "(\<And>f. f \<in> set fs \<Longrightarrow> length (snd f) = k) \<Longrightarrow>
     length (encode_fields fs) = (6 + k) * length fs"
  by (induction fs) simp_all

lemma length_encode_manifest_fields:
  assumes "list_all entry_wf es"
  shows "length (encode_fields (manifest_fields es)) = 10 + 185 * length es"
proof -
  let ?fs = "map (\<lambda>i. (entry_field_id i, encode_access_entry (es ! i))) [0..<length es]"
  have "length (snd f) = 179" if "f \<in> set ?fs" for f
    using that assms by (auto simp: list_all_length codec_lens)
  then have "length (encode_fields ?fs) = (6 + 179) * length ?fs"
    by (rule length_encode_fields_const)
  then show ?thesis by (simp add: manifest_fields_eq)
qed

lemma length_encode_access_manifest [codec_lens]:
  "manifest_wf m \<Longrightarrow> length (encode_access_manifest m) = 20 + 185 * am_len m"
  using length_encode_manifest_fields [of "am_iter m"] am_wf_length [of m]
  by (simp add: manifest_wf_def encode_access_manifest_def length_encode_frame)

lemma manifest_fields_ok:
  assumes "list_all entry_wf es" "length es \<le> max_access_entries"
  shows "fields_ok (manifest_fields es)"
proof (rule fields_ok_short)
  show "sorted_wrt (<) (map fst (manifest_fields es))"
    using assms by (intro manifest_fields_sorted) (simp add: max_access_entries_def)
  show "length (manifest_fields es) < 2 ^ 16"
    using assms by (simp add: manifest_fields_eq max_access_entries_def)
  show "length (encode_fields (manifest_fields es)) < 2 ^ 31"
    using assms by (simp add: length_encode_manifest_fields max_access_entries_def)
qed

text \<open>
  The manifest schema has no allow-list check: that the declared count fixes the number of fields
  and that every expected identifier is present leaves no room for another one.
\<close>

lemma manifest_fields_exact:
  assumes ok: "fields_ok fs" and len: "length fs = Suc (length es)" and n: "length es < 2 ^ 15"
    and count: "map_of fs 1 = Some (to_le 4 (of_nat (length es) :: u32))"
    and entries: "\<And>i. i < length es \<Longrightarrow>
        map_of fs (entry_field_id i) = Some (encode_access_entry (es ! i))"
  shows "fs = manifest_fields es"
proof (rule schema_exact [OF ok])
  let ?gs = "manifest_fields es"
  note sorted = manifest_fields_sorted [OF n]
  show "sorted_wrt (<) (map fst ?gs)" by (rule sorted)
  show all: "list_all (\<lambda>(k, b). map_of fs k = Some b) ?gs"
    using count entries by (auto simp: manifest_fields_eq list_all_iff)
  have "fst ` set ?gs \<subseteq> fst ` set fs"
    using all by (force simp: list_all_iff dest: map_of_SomeD)
  moreover have "card (fst ` set ?gs) = Suc (length es)"
  proof -
    have "distinct (map fst ?gs)" using sorted strict_sorted_iff by blast
    then have "card (set (map fst ?gs)) = length (map fst ?gs)" by (rule distinct_card)
    then show ?thesis by (simp only: set_map) (simp add: manifest_fields_eq)
  qed
  moreover have "card (fst ` set fs) \<le> Suc (length es)"
    using len card_length [of "map fst fs"] by simp
  ultimately show "fst ` set fs \<subseteq> fst ` set ?gs"
    by (metis List.finite_set card_seteq finite_imageI order_refl)
qed

subsection \<open>The manifest codec\<close>

lemma decode_manifest_entries:
  assumes "length es \<le> max_access_entries" "list_all entry_wf es"
  shows "decode_access_manifest (encode_access_manifest (am_of_list es)) max_access_entries
    = (case duplicate_scan es 0 es of
         Some dup \<Rightarrow> Inl (TxDuplicateObjectId dup) | None \<Rightarrow> Inr (am_of_list es))"
proof -
  from assms have small: "length es < 2 ^ 15" by (simp add: max_access_entries_def)
  have ok: "fields_ok (manifest_fields es)" using assms by (intro manifest_fields_ok)
  let ?f = "mk_frame access_manifest_type_id 1 (manifest_fields es)"
  have dec: "decode_canonical_frame (encode_access_manifest (am_of_list es)) = Inr ?f"
    using ok by (simp add: encode_access_manifest_def decode_canonical_frame_mk)
  have count: "cf_required_u32 ?f 1 = Inr (of_nat (length es))"
    using ok by (simp add: manifest_fields_eq)
  have declared: "unat (of_nat (length es) :: u32) = length es"
    using small by (intro u32_length) (simp add: usize_limit_def)
  have fc: "cf_field_count_usize ?f = Suc (length es)"
    using mk_frame_count [OF ok] by (simp add: cf_field_count_usize_def manifest_fields_eq)
  have loop: "manifest_loop ?f (length es) 0 am_new = Inr (am_of_list es)"
    using manifest_loop_iff [of "[]" "length es" ?f "am_of_list es"] assms ok
      map_of_manifest_fields [OF _ small]
    by (auto simp: am_new_eq)
  have add: "checked_add_usize (length es) (Suc 0) = Some (Suc (length es))"
    using small by (simp add: usize_limit_def)
  show ?thesis
    using assms(1) by (simp add: decode_access_manifest_def dec count declared fc loop add
        cf_require_type_def cf_require_version_def)
qed

interpretation manifest_codec:
  codec encode_access_manifest "\<lambda>bs. decode_access_manifest bs max_access_entries" manifest_wf
proof unfold_locales
  fix m assume wf: "manifest_wf m"
  then have m: "m = am_of_list (am_iter m)" and es: "length (am_iter m) \<le> max_access_entries"
      "list_all entry_wf (am_iter m)" "distinct (map entry_id (am_iter m))"
    using am_wf_iter am_wf_length by (auto simp: manifest_wf_def)
  from es have "duplicate_scan (am_iter m) 0 (am_iter m) = None" using duplicate_scan_None by blast
  with decode_manifest_entries [OF es(1,2)]
  show "decode_access_manifest (encode_access_manifest m) max_access_entries = Inr m"
    by (simp flip: m)
next
  fix bs m assume d: "decode_access_manifest bs max_access_entries = Inr m"
  then obtain f where f1: "decode_canonical_frame bs = Inr f"
    by (auto simp: decode_access_manifest_def result_simps)
  with d obtain declared :: u32 where f:
      "cf_type_id f = access_manifest_type_id" "cf_version f = 1"
    and count_f: "cf_field f 1 = Some (to_le 4 declared)"
    and max: "unat declared \<le> max_access_entries"
    and fc_f: "cf_field_count_usize f = Suc (unat declared)"
    and loop_f: "manifest_loop f (unat declared) 0 am_new = Inr m"
    and dup: "duplicate_scan (am_iter m) 0 (am_iter m) = None"
    by (auto simp: decode_access_manifest_def result_simps not_less split: option.splits)
  from f1 obtain t v fs where fs: "fields_ok fs" and bs: "bs = encode_frame t v fs"
    and f_eq: "f = mk_frame t v fs"
    by (auto simp: decode_canonical_frame_iff)
  from f count_f fc_f loop_f fs have tv: "t = access_manifest_type_id" "v = 1"
    and count: "map_of fs 1 = Some (to_le 4 declared)"
    and fc: "cf_field_count_usize (mk_frame t v fs) = Suc (unat declared)"
    and loop: "manifest_loop (mk_frame t v fs) (unat declared) 0 am_new = Inr m"
    by (simp_all add: f_eq)
  from loop manifest_loop_iff [of "[]" "unat declared" "mk_frame t v fs" m] max
  obtain es where es: "length es = unat declared" "m = am_of_list es" "list_all entry_wf es"
      "\<And>i. i < unat declared \<Longrightarrow>
         map_of fs (entry_field_id i) = Some (encode_access_entry (es ! i))"
    using fs by (auto simp: am_new_eq)
  have "fs = manifest_fields es"
  proof (rule manifest_fields_exact [OF fs])
    show "length fs = Suc (length es)"
      using fc mk_frame_count [OF fs, of t v] es(1) by (simp add: cf_field_count_usize_def)
    show "length es < 2 ^ 15" using es(1) max by (simp add: max_access_entries_def)
    show "map_of fs 1 = Some (to_le 4 (of_nat (length es) :: u32))" using count es(1) by simp
    show "map_of fs (entry_field_id i) = Some (encode_access_entry (es ! i))"
      if "i < length es" for i using that es by simp
  qed
  with bs tv es max dup duplicate_scan_None [of es]
  show "manifest_wf m \<and> bs = encode_access_manifest m"
    by (auto simp: manifest_wf_def am_wf_def encode_access_manifest_def)
qed

section \<open>The transaction codec\<close>

definition tx_wf :: "transaction_signable \<Rightarrow> bool" where
  "tx_wf tx \<longleftrightarrow> bs_wf max_chain_id_bytes (tx_chain_id tx) \<and> addr_wf (tx_sender tx)
     \<and> manifest_wf (tx_access_manifest tx) \<and> ref_wf (tx_module_ref tx)
     \<and> bs_wf max_entrypoint_bytes (tx_entrypoint tx) \<and> bs_as_str (tx_entrypoint tx) \<noteq> []
     \<and> length (tx_args tx) \<le> max_args_bytes
     \<and> (case tx_fee_payment tx of None \<Rightarrow> True | Some f \<Rightarrow> fee_wf f)"

lemma tx_fields_sorted: "sorted_wrt (<) (map fst (tx_fields tx))"
  by (simp add: tx_fields_def split: option.split)

lemma tx_fields_length:
  assumes "tx_wf tx"
  shows "length (encode_transaction_signable tx) \<le> 2168"
proof -
  have "length (bs_as_str (tx_chain_id tx)) \<le> 64" "length (bs_as_str (tx_entrypoint tx)) \<le> 64"
    using assms bs_wf_length
    by (auto simp: tx_wf_def max_chain_id_bytes_def max_frame_chain_id_bytes_def max_entrypoint_bytes_def)
  moreover have "length (encode_access_manifest (tx_access_manifest tx)) \<le> 1500"
    using assms am_wf_length [of "tx_access_manifest tx"]
    by (auto simp: tx_wf_def codec_lens manifest_wf_def max_access_entries_def)
  ultimately show ?thesis
    using assms
    by (auto simp: encode_transaction_signable_def tx_fields_def codec_lens tx_wf_def addr_wf_def
        max_args_bytes_def split: option.splits)
qed

lemma tx_fields_ok:
  assumes "tx_wf tx"
  shows "fields_ok (tx_fields tx)"
proof (rule fields_ok_short)
  show "length (tx_fields tx) < 2 ^ 16" by (simp add: tx_fields_def split: option.split)
  show "length (encode_fields (tx_fields tx)) < 2 ^ 31"
    using tx_fields_length [OF assms]
    by (simp add: encode_transaction_signable_def length_encode_frame)
qed (rule tx_fields_sorted)

interpretation tx_codec: codec encode_transaction_signable decode_transaction_signable tx_wf
proof unfold_locales
  fix tx assume wf: "tx_wf tx"
  note ok = tx_fields_ok [OF wf]
  define frame where "frame = mk_frame transaction_type_id encoding_version (tx_fields tx)"
  have dec: "decode_canonical_frame (encode_transaction_signable tx) = Inr frame"
    using ok by (simp add: encode_transaction_signable_def decode_canonical_frame_mk frame_def)
  have hd: "cf_type_id frame = transaction_type_id" "cf_version frame = encoding_version"
    by (simp_all add: frame_def)
  have only: "cf_require_only_fields frame tx_allowed_fields = Inr ()"
    using ok unfolding frame_def cf_require_only_fields_Inr [OF ok]
    by (auto simp: tx_fields_def tx_allowed_fields_def split: option.splits)
  have fields: "cf_field frame k = map_of (tx_fields tx) k" for k
    using ok by (simp add: frame_def)
  have bs: "bs_from_utf8_slice max_chain_id_bytes (bs_as_str (tx_chain_id tx)) = Inr (tx_chain_id tx)"
      "bs_from_utf8_slice max_entrypoint_bytes (bs_as_str (tx_entrypoint tx)) = Inr (tx_entrypoint tx)"
      "\<not> bs_is_empty (tx_entrypoint tx)"
    using wf bs_is_empty_iff by (auto simp: tx_wf_def bs_from_utf8_slice_iff)
  have nested:
      "decode_access_manifest (encode_access_manifest (tx_access_manifest tx)) max_access_entries
         = Inr (tx_access_manifest tx)"
      "decode_object_ref (encode_object_ref (tx_module_ref tx)) = Inr (tx_module_ref tx)"
      "\<And>f. tx_fee_payment tx = Some f \<Longrightarrow> decode_fee_payment (encode_fee_payment f) = Inr f"
      "Address (addr_bytes (tx_sender tx)) = tx_sender tx" "length (addr_bytes (tx_sender tx)) = 32"
    using wf manifest_codec.decode_encode object_ref_codec.decode_encode fee_codec.decode_encode
    by (auto simp: tx_wf_def addr_wf_def)
  show "decode_transaction_signable (encode_transaction_signable tx) = Inr tx"
    using wf nested(3)
    by (cases "tx_fee_payment tx")
      (simp_all add: decode_transaction_signable_def dec hd only fields bs nested tx_fields_def
        cf_require_type_def cf_require_version_def cf_required_field_def cf_required_u32_def
        cf_required_u64_def cf_required_array_def tx_wf_def)
next
  fix bs tx assume d: "decode_transaction_signable bs = Inr tx"
  then obtain t v fs where fs: "fields_ok fs" "bs = encode_frame t v fs" "t = transaction_type_id"
      "v = encoding_version" "fst ` set fs \<subseteq> set tx_allowed_fields"
    by (auto simp: decode_transaction_signable_def decode_rules)
  note d' = d [unfolded fs(2) decode_transaction_signable_def]
  have "tx_wf tx \<and> list_all (\<lambda>(k, b). map_of fs k = Some b) (tx_fields tx)
      \<and> (tx_fee_payment tx = None \<longrightarrow> map_of fs 11 = None)"
    using d' fs(1)
    by (auto simp: decode_canonical_frame_mk result_simps bs_from_utf8_slice_iff bs_is_empty_iff
        manifest_codec.decode_iff object_ref_codec.decode_iff fee_codec.decode_iff
        tx_wf_def tx_fields_def addr_wf_def not_less split: option.splits)
  then have wf: "tx_wf tx" and all: "list_all (\<lambda>(k, b). map_of fs k = Some b) (tx_fields tx)"
    and none: "tx_fee_payment tx = None \<Longrightarrow> map_of fs 11 = None" by blast+
  have "fst ` set fs \<subseteq> fst ` set (tx_fields tx)"
    using fs(5) none
    by (cases "tx_fee_payment tx")
      (auto simp: tx_allowed_fields_def tx_fields_def map_of_eq_None_iff)
  with fs(1) all have "fs = tx_fields tx"
    by (intro schema_exact tx_fields_sorted)
  with wf fs show "tx_wf tx \<and> bs = encode_transaction_signable tx"
    by (simp add: encode_transaction_signable_def)
qed

end
