(* ===== verification/Review.thy ===== *)
theory Review
  imports Policy Transaction_Codec
begin

text \<open>
  \<open>crates/sunrise-edge-ledger-core/src/review.rs\<close>: the clear-signing review and
  \<open>build_review\<close>. \<open>review_frame\<close> rebuilds the signed frame from a review and the policy that
  recognized it; \<open>build_review_determines_frame\<close> shows that it is the frame the review was built
  from, so that a review leaves no signed byte undetermined.
\<close>

definition transaction_v1_message_type :: bytes where
  "transaction_v1_message_type = ascii ''transaction-v1''"

datatype review_error =
    UnsupportedMessageType
  | UnsupportedSignatureScheme
  | SignedContextMismatch
  | RvPolicy policy_error

record access_line =
  al_mode :: access_mode
  al_object_id :: object_id
  al_version :: u64
  al_digest :: digest32

record fee_line =
  fl_asset_id :: asset_id
  fl_max_fee :: u64
  fl_fee_object_id :: object_id
  fl_fee_object_version :: u64
  fl_fee_object_digest :: digest32

record clear_signing_review =
  rv_chain_id :: bounded_str
  rv_protocol_version :: protocol_version
  rv_epoch :: epoch
  rv_message_type :: bounded_str
  rv_scheme :: signature_scheme_id
  rv_sender :: address
  rv_nonce :: u64
  rv_module_id :: object_id
  rv_module_version :: u64
  rv_module_digest :: digest32
  rv_entrypoint :: bounded_str
  rv_amount :: u64
  rv_amount_label :: bytes
  rv_gas_limit :: u64
  rv_access_entries :: access_manifest
  rv_fee :: "fee_line option"

definition rv_access_lines :: "clear_signing_review \<Rightarrow> access_line list" where
  "rv_access_lines r =
     map (\<lambda>entry. \<lparr>al_mode = ae_mode entry, al_object_id = or_id (ae_object_ref entry),
                    al_version = or_version (ae_object_ref entry),
                    al_digest = or_digest (ae_object_ref entry)\<rparr>)
       (am_iter (rv_access_entries r))"

definition fee_line_of :: "fee_payment \<Rightarrow> fee_line" where
  "fee_line_of f =
     \<lparr>fl_asset_id = fp_asset_id f, fl_max_fee = fp_max_fee f,
      fl_fee_object_id = or_id (fp_fee_object f),
      fl_fee_object_version = or_version (fp_fee_object f),
      fl_fee_object_digest = or_digest (fp_fee_object f)\<rparr>"

text \<open>The operator \<open>?\<close> on a policy error, converted by \<open>From<PolicyError>\<close>.\<close>

abbreviation policy_try ::
    "policy_error + 'a \<Rightarrow> ('a \<Rightarrow> review_error + 'b) \<Rightarrow> review_error + 'b" where
  "policy_try m f \<equiv> try_bind (map_err RvPolicy m) f"

definition build_review ::
    "signature_frame \<Rightarrow> transaction_signable \<Rightarrow> clear_signing_policy
       \<Rightarrow> review_error + clear_signing_review" where
  "build_review frame tx policy =
     (if bs_as_str (sf_message_type frame) \<noteq> transaction_v1_message_type
      then Inl UnsupportedMessageType
      else if sf_signature_scheme_id frame \<noteq> Ed25519 then Inl UnsupportedSignatureScheme
      else if bs_as_str (tx_chain_id tx) \<noteq> bs_as_str (sf_chain_id frame)
          \<or> tx_protocol_version tx \<noteq> sf_protocol_version frame
          \<or> tx_epoch tx \<noteq> sf_epoch frame
      then Inl SignedContextMismatch
      else
        policy_try (policy_recognize policy tx) (\<lambda>amount.
        Inr \<lparr>rv_chain_id = sf_chain_id frame, rv_protocol_version = sf_protocol_version frame,
             rv_epoch = sf_epoch frame, rv_message_type = sf_message_type frame,
             rv_scheme = sf_signature_scheme_id frame, rv_sender = tx_sender tx,
             rv_nonce = tx_nonce tx, rv_module_id = or_id (tx_module_ref tx),
             rv_module_version = or_version (tx_module_ref tx),
             rv_module_digest = or_digest (tx_module_ref tx), rv_entrypoint = tx_entrypoint tx,
             rv_amount = amount, rv_amount_label = policy_args_label policy,
             rv_gas_limit = tx_gas_limit tx, rv_access_entries = tx_access_manifest tx,
             rv_fee = map_option fee_line_of (tx_fee_payment tx)\<rparr>))"

section \<open>A review determines the signed frame\<close>

definition fee_payment_of_line :: "fee_line \<Rightarrow> fee_payment" where
  "fee_payment_of_line l =
     \<lparr>fp_asset_id = fl_asset_id l, fp_max_fee = fl_max_fee l,
      fp_fee_object = \<lparr>or_id = fl_fee_object_id l, or_version = fl_fee_object_version l,
                       or_digest = fl_fee_object_digest l\<rparr>\<rparr>"

definition review_transaction ::
    "clear_signing_policy \<Rightarrow> clear_signing_review \<Rightarrow> transaction_signable" where
  "review_transaction p r =
     \<lparr>tx_chain_id = rv_chain_id r,
      tx_protocol_version = rv_protocol_version r, tx_epoch = rv_epoch r,
      tx_sender = rv_sender r, tx_nonce = rv_nonce r, tx_access_manifest = rv_access_entries r,
      tx_module_ref = \<lparr>or_id = rv_module_id r, or_version = rv_module_version r,
                       or_digest = rv_module_digest r\<rparr>,
      tx_entrypoint = rv_entrypoint r, tx_args = policy_args p (rv_amount r),
      tx_gas_limit = rv_gas_limit r, tx_fee_payment = map_option fee_payment_of_line (rv_fee r)\<rparr>"

definition review_frame :: "clear_signing_policy \<Rightarrow> clear_signing_review \<Rightarrow> bytes" where
  "review_frame p r =
     encode_signature_frame
       \<lparr>sf_chain_id = rv_chain_id r, sf_protocol_version = rv_protocol_version r,
        sf_epoch = rv_epoch r, sf_message_type = rv_message_type r,
        sf_signature_scheme_id = rv_scheme r,
        sf_payload = encode_transaction_signable (review_transaction p r)\<rparr>"

lemma fee_payment_of_line_of [simp]: "fee_payment_of_line (fee_line_of f) = f"
  by (cases f; cases "fp_fee_object f") (simp add: fee_payment_of_line_def fee_line_of_def)

lemma build_review_iff:
  "build_review frame tx p = Inr r \<longleftrightarrow>
     bs_as_str (sf_message_type frame) = transaction_v1_message_type
     \<and> sf_signature_scheme_id frame = Ed25519
     \<and> bs_as_str (tx_chain_id tx) = bs_as_str (sf_chain_id frame)
     \<and> tx_protocol_version tx = sf_protocol_version frame \<and> tx_epoch tx = sf_epoch frame
     \<and> policy_matches p tx (rv_amount r)
     \<and> r = \<lparr>rv_chain_id = sf_chain_id frame, rv_protocol_version = sf_protocol_version frame,
             rv_epoch = sf_epoch frame, rv_message_type = sf_message_type frame,
             rv_scheme = sf_signature_scheme_id frame, rv_sender = tx_sender tx,
             rv_nonce = tx_nonce tx, rv_module_id = or_id (tx_module_ref tx),
             rv_module_version = or_version (tx_module_ref tx),
             rv_module_digest = or_digest (tx_module_ref tx), rv_entrypoint = tx_entrypoint tx,
             rv_amount = rv_amount r, rv_amount_label = pol_args_label p,
             rv_gas_limit = tx_gas_limit tx, rv_access_entries = tx_access_manifest tx,
             rv_fee = map_option fee_line_of (tx_fee_payment tx)\<rparr>"
  by (auto simp: build_review_def result_simps policy_recognize_iff)

lemma review_transaction_of:
  assumes "build_review frame tx p = Inr r" "sf_wf frame" "tx_wf tx"
  shows "review_transaction p r = tx"
proof -
  from assms(1) have m: "policy_matches p tx (rv_amount r)"
      "bs_as_str (tx_chain_id tx) = bs_as_str (sf_chain_id frame)"
      "tx_protocol_version tx = sf_protocol_version frame" "tx_epoch tx = sf_epoch frame"
    and r: "rv_chain_id r = sf_chain_id frame" "rv_protocol_version r = sf_protocol_version frame"
      "rv_epoch r = sf_epoch frame" "rv_sender r = tx_sender tx" "rv_nonce r = tx_nonce tx"
      "rv_module_id r = or_id (tx_module_ref tx)"
      "rv_module_version r = or_version (tx_module_ref tx)"
      "rv_module_digest r = or_digest (tx_module_ref tx)" "rv_entrypoint r = tx_entrypoint tx"
      "rv_gas_limit r = tx_gas_limit tx" "rv_access_entries r = tx_access_manifest tx"
      "rv_fee r = map_option fee_line_of (tx_fee_payment tx)"
    unfolding build_review_iff by (metis clear_signing_review.select_convs)+
  have "tx_chain_id tx = sf_chain_id frame"
    using assms(2,3) m(2) bstr.encode_inj
    by (auto simp: tx_wf_def sf_wf_def max_chain_id_bytes_def)
  moreover have "tx_args tx = policy_args p (rv_amount r)" using m(1) by (simp add: policy_matches_def)
  ultimately show ?thesis
    using m r by (simp add: review_transaction_def option.map_comp o_def option.map_ident)
qed

theorem build_review_determines_frame:
  assumes frame: "decode_signature_frame bs = Inr frame"
    and tx: "decode_transaction_signable (sf_payload frame) = Inr tx"
    and r: "build_review frame tx p = Inr r"
  shows "bs = review_frame p r"
proof -
  from frame have f: "sf_wf frame" "bs = encode_signature_frame frame"
    by (auto simp: frame_codec.decode_iff)
  from tx have t: "tx_wf tx" "sf_payload frame = encode_transaction_signable tx"
    by (auto simp: tx_codec.decode_iff)
  have "rv_chain_id r = sf_chain_id frame" "rv_protocol_version r = sf_protocol_version frame"
      "rv_epoch r = sf_epoch frame" "rv_message_type r = sf_message_type frame"
      "rv_scheme r = sf_signature_scheme_id frame"
    using r unfolding build_review_iff by (metis clear_signing_review.select_convs)+
  with f t review_transaction_of [OF r f(1) t(1)] show ?thesis
    by (cases frame) (simp add: review_frame_def)
qed

section \<open>Which frames have a review\<close>

definition review_signature_frame ::
    "clear_signing_policy \<Rightarrow> clear_signing_review \<Rightarrow> signature_frame" where
  "review_signature_frame p r =
     \<lparr>sf_chain_id = rv_chain_id r, sf_protocol_version = rv_protocol_version r,
      sf_epoch = rv_epoch r, sf_message_type = rv_message_type r,
      sf_signature_scheme_id = rv_scheme r,
      sf_payload = encode_transaction_signable (review_transaction p r)\<rparr>"

definition review_ok :: "clear_signing_policy \<Rightarrow> clear_signing_review \<Rightarrow> bool" where
  "review_ok p r \<longleftrightarrow>
     sf_wf (review_signature_frame p r) \<and> tx_wf (review_transaction p r)
     \<and> policy_matches p (review_transaction p r) (rv_amount r)
     \<and> bs_as_str (rv_message_type r) = transaction_v1_message_type
     \<and> rv_scheme r = Ed25519 \<and> rv_amount_label r = pol_args_label p"

lemma review_frame_alt: "review_frame p r = encode_signature_frame (review_signature_frame p r)"
  by (simp add: review_frame_def review_signature_frame_def)

lemma fee_line_of_payment [simp]: "fee_line_of (fee_payment_of_line l) = l"
  by (cases l) (simp add: fee_payment_of_line_def fee_line_of_def)

lemma build_review_of_review:
  assumes "review_ok p r"
  shows "build_review (review_signature_frame p r) (review_transaction p r) p = Inr r"
  using assms
  by (cases r) (auto simp: build_review_iff review_ok_def review_signature_frame_def
      review_transaction_def option.map_comp o_def option.map_ident)

lemma build_review_exact:
  "(\<exists>frame tx. decode_signature_frame bs = Inr frame
      \<and> decode_transaction_signable (sf_payload frame) = Inr tx \<and> build_review frame tx p = Inr r)
   \<longleftrightarrow> review_ok p r \<and> bs = review_frame p r"
proof
  assume "review_ok p r \<and> bs = review_frame p r"
  moreover from this have "sf_wf (review_signature_frame p r)" "tx_wf (review_transaction p r)"
    by (simp_all add: review_ok_def)
  moreover have "sf_payload (review_signature_frame p r)
         = encode_transaction_signable (review_transaction p r)"
    by (simp add: review_signature_frame_def)
  ultimately show "\<exists>frame tx. decode_signature_frame bs = Inr frame
      \<and> decode_transaction_signable (sf_payload frame) = Inr tx \<and> build_review frame tx p = Inr r"
    using build_review_of_review frame_codec.decode_encode tx_codec.decode_encode
    by (metis review_frame_alt)
next
  assume "\<exists>frame tx. decode_signature_frame bs = Inr frame
      \<and> decode_transaction_signable (sf_payload frame) = Inr tx \<and> build_review frame tx p = Inr r"
  then obtain frame tx where d: "decode_signature_frame bs = Inr frame"
      "decode_transaction_signable (sf_payload frame) = Inr tx" and r: "build_review frame tx p = Inr r"
    by blast
  have wf: "sf_wf frame" "bs = encode_signature_frame frame" "tx_wf tx"
      "sf_payload frame = encode_transaction_signable tx"
    using d by (auto simp: frame_codec.decode_iff tx_codec.decode_iff)
  have tx: "review_transaction p r = tx" using review_transaction_of [OF r wf(1,3)] .
  have bs: "bs = review_frame p r" using build_review_determines_frame [OF d r] .
  from r have e: "rv_chain_id r = sf_chain_id frame" "rv_protocol_version r = sf_protocol_version frame"
      "rv_epoch r = sf_epoch frame" "rv_message_type r = sf_message_type frame"
      "rv_scheme r = sf_signature_scheme_id frame" "rv_amount_label r = pol_args_label p"
    and m: "policy_matches p tx (rv_amount r)"
      "bs_as_str (sf_message_type frame) = transaction_v1_message_type"
      "sf_signature_scheme_id frame = Ed25519"
    unfolding build_review_iff by (metis clear_signing_review.select_convs)+
  have "review_signature_frame p r = frame"
    using e wf(4) by (simp add: review_signature_frame_def tx)
  with wf m e show "review_ok p r \<and> bs = review_frame p r" by (simp add: review_ok_def tx bs)
qed

end
