(* ===== verification/Review_UI.thy ===== *)
theory Review_UI
  imports Review "HOL-Library.Monad_Syntax"
begin

text \<open>
  \<open>crates/sunrise-edge-ledger-app/src/review_ui.rs\<close>: the formatting of a review as 32 named
  lines. An array index out of range panics; \<open>read_at\<close> and \<open>write_at\<close> are \<open>None\<close> there, so
  that \<open>Some\<close> of a result says that the code did not panic.

  \<open>fact_of\<close> is the buffer that holds a text. The formatting lemmas show that each constructor
  returns the buffer of the intended text: the decimal digits of a number, the \<open>Display\<close> form of an
  identifier or digest, the string itself.
\<close>

section \<open>Buffers\<close>

definition max_fact_len :: usize where "max_fact_len = 96"

definition hex_chars :: bytes where "hex_chars = ascii ''0123456789abcdef''"

datatype review_format_error =
    NonAscii
  | ValueTooLong
  | WrongAccessCount
  | MissingFee
  | InvalidInternalText

record bounded_fact_str =
  bf_buf :: bytes
  bf_len :: usize

definition bf_empty :: bounded_fact_str where
  "bf_empty = \<lparr>bf_buf = replicate max_fact_len 0, bf_len = 0\<rparr>"

definition read_at :: "'a list \<Rightarrow> usize \<Rightarrow> 'a option" where
  "read_at xs i = (if i < length xs then Some (xs ! i) else None)"

definition write_at :: "'a list \<Rightarrow> usize \<Rightarrow> 'a \<Rightarrow> 'a list option" where
  "write_at xs i v = (if i < length xs then Some (xs[i := v]) else None)"

text \<open>\<open>while i < n { buf[i] = src[i]; i += 1 }\<close>\<close>

function copy_loop :: "nat \<Rightarrow> nat \<Rightarrow> bytes \<Rightarrow> bytes \<Rightarrow> bytes option" where
  "copy_loop i n src buf =
     (if i < n then do { b \<leftarrow> read_at src i; buf' \<leftarrow> write_at buf i b; copy_loop (i + 1) n src buf' }
      else Some buf)"
  by pat_completeness auto
termination by (relation "measure (\<lambda>(i, n, _, _). n - i)") auto

definition bf_try_from_str :: "bytes \<Rightarrow> (review_format_error + bounded_fact_str) option" where
  "bf_try_from_str s =
     (if \<not> str_is_ascii s then Some (Inl NonAscii)
      else if length s > max_fact_len then Some (Inl ValueTooLong)
      else do {
        buf \<leftarrow> copy_loop 0 (length s) s (bf_buf bf_empty);
        Some (Inr \<lparr>bf_buf = buf, bf_len = length s\<rparr>) })"

text \<open>The two loops of \<open>from_u64\<close>: the digits, lowest first, and their copy in reverse.\<close>

function digit_loop :: "u64 \<Rightarrow> bytes \<Rightarrow> nat \<Rightarrow> (bytes \<times> nat) option" where
  "digit_loop num temp digits =
     (if num > 0 then do {
        temp' \<leftarrow> write_at temp digits (48 + ucast (num mod 10));
        digit_loop (num div 10) temp' (digits + 1) }
      else Some (temp, digits))"
  by pat_completeness auto
termination
  by (relation "measure (\<lambda>(num, _, _). unat num)")
    (auto simp: word_less_nat_alt unat_div)

function reverse_digits :: "nat \<Rightarrow> nat \<Rightarrow> bytes \<Rightarrow> bytes \<Rightarrow> bytes option" where
  "reverse_digits i digits temp buf =
     (if i < digits then do {
        b \<leftarrow> read_at temp (digits - 1 - i);
        buf' \<leftarrow> write_at buf i b;
        reverse_digits (i + 1) digits temp buf' }
      else Some buf)"
  by pat_completeness auto
termination by (relation "measure (\<lambda>(i, digits, _, _). digits - i)") auto

definition bf_from_u64 :: "u64 \<Rightarrow> bounded_fact_str option" where
  "bf_from_u64 val =
     (if val = 0 then do {
        buf \<leftarrow> write_at (bf_buf bf_empty) 0 48;
        Some \<lparr>bf_buf = buf, bf_len = 1\<rparr> }
      else do {
        (temp, digits) \<leftarrow> digit_loop val (replicate 20 0) 0;
        buf \<leftarrow> reverse_digits 0 digits temp (bf_buf bf_empty);
        Some \<lparr>bf_buf = buf, bf_len = digits\<rparr> })"

text \<open>The two characters of a byte, written at \<open>pos\<close>.\<close>

definition write_hex :: "bytes \<Rightarrow> usize \<Rightarrow> u8 \<Rightarrow> bytes option" where
  "write_hex buf pos b = do {
     hi \<leftarrow> read_at hex_chars (unat (drop_bit 4 b));
     buf' \<leftarrow> write_at buf pos hi;
     lo \<leftarrow> read_at hex_chars (unat (b AND 0x0F));
     write_at buf' (pos + 1) lo }"

function hex_loop :: "nat \<Rightarrow> bytes \<Rightarrow> bytes \<Rightarrow> bytes option" where
  "hex_loop i bs buf =
     (if i < length bs then do { buf' \<leftarrow> write_hex buf (i * 2) (bs ! i); hex_loop (i + 1) bs buf' }
      else Some buf)"
  by pat_completeness auto
termination by (relation "measure (\<lambda>(i, bs, _). length bs - i)") auto

definition bf_try_from_hex :: "bytes \<Rightarrow> (review_format_error + bounded_fact_str) option" where
  "bf_try_from_hex bs =
     (case checked_mul_usize (length bs) 2 of
        None \<Rightarrow> Some (Inl ValueTooLong)
      | Some encoded_len \<Rightarrow>
          if encoded_len > max_fact_len then Some (Inl ValueTooLong)
          else do {
            buf \<leftarrow> hex_loop 0 bs (bf_buf bf_empty);
            Some (Inr \<lparr>bf_buf = buf, bf_len = encoded_len\<rparr>) })"

function digest_loop :: "nat \<Rightarrow> bytes \<Rightarrow> usize \<Rightarrow> bytes \<Rightarrow> (usize \<times> bytes) option" where
  "digest_loop j digest_bytes len buf =
     (if j < length digest_bytes then do {
        buf' \<leftarrow> write_hex buf len (digest_bytes ! j);
        digest_loop (j + 1) digest_bytes (len + 2) buf' }
      else Some (len, buf))"
  by pat_completeness auto
termination by (relation "measure (\<lambda>(j, bs, _, _). length bs - j)") auto

definition bf_try_from_digest :: "digest32 \<Rightarrow> (review_format_error + bounded_fact_str) option" where
  "bf_try_from_digest digest =
     (let prefix = hash_label (d32_algorithm digest) in
      case Option.bind (checked_mul_usize (length (d32_bytes digest)) 2)
             (\<lambda>hex_len. Option.bind (checked_add_usize (length prefix) 1)
             (\<lambda>len. checked_add_usize len hex_len)) of
        None \<Rightarrow> Some (Inl ValueTooLong)
      | Some required_len \<Rightarrow>
          if required_len > max_fact_len then Some (Inl ValueTooLong)
          else do {
            buf1 \<leftarrow> copy_loop 0 (length prefix) prefix (bf_buf bf_empty);
            buf2 \<leftarrow> write_at buf1 (length prefix) 58;
            (len, buf3) \<leftarrow> digest_loop 0 (d32_bytes digest) (length prefix + 1) buf2;
            Some (Inr \<lparr>bf_buf = buf3, bf_len = len\<rparr>) })"

definition bf_as_str :: "bounded_fact_str \<Rightarrow> (review_format_error + bytes) option" where
  "bf_as_str f = do {
     s \<leftarrow> slice_get (bf_buf f) 0 (bf_len f);
     Some (if from_utf8_ok s then Inr s else Inl InvalidInternalText) }"

declare copy_loop.simps [simp del] digit_loop.simps [simp del] reverse_digits.simps [simp del]
  hex_loop.simps [simp del] digest_loop.simps [simp del]

section \<open>Formatting texts\<close>

definition pad :: "bytes \<Rightarrow> bytes" where
  "pad s = s @ replicate (max_fact_len - length s) 0"

definition fact_of :: "bytes \<Rightarrow> bounded_fact_str" where
  "fact_of s = \<lparr>bf_buf = pad s, bf_len = length s\<rparr>"

lemma pad_empty: "bf_buf bf_empty = pad []"
  by (simp add: bf_empty_def pad_def)

lemma write_at_pad:
  assumes "length s < max_fact_len"
  shows "write_at (pad s) (length s) b = Some (pad (s @ [b]))"
proof -
  obtain k where k: "max_fact_len - length s = Suc k" "max_fact_len - Suc (length s) = k"
    using assms by (metis Suc_diff_Suc)
  then show ?thesis using assms by (simp add: write_at_def pad_def list_update_append)
qed

lemma copy_loop_pad:
  assumes "i \<le> length src" "length src \<le> max_fact_len"
  shows "copy_loop i (length src) src (pad (take i src)) = Some (pad src)"
  using assms
proof (induction "length src - i" arbitrary: i)
  case 0
  then show ?case by (subst copy_loop.simps) simp
next
  case (Suc n)
  then have i: "i < length src" by simp
  with Suc.prems write_at_pad [of "take i src" "src ! i"]
  have "write_at (pad (take i src)) i (src ! i) = Some (pad (take (i + 1) src))"
    by (simp add: take_Suc_conv_app_nth min_def)
  moreover have "copy_loop (i + 1) (length src) src (pad (take (i + 1) src)) = Some (pad src)"
    using Suc i by (intro Suc.hyps) simp_all
  ultimately show ?case using i by (subst copy_loop.simps) (simp add: read_at_def)
qed

lemma try_from_str_eq:
  "bf_try_from_str s = Some (if \<not> str_is_ascii s then Inl NonAscii
     else if length s > max_fact_len then Inl ValueTooLong else Inr (fact_of s))"
  using copy_loop_pad [of 0 s] by (simp add: bf_try_from_str_def pad_empty fact_of_def)

text \<open>Decimal digits.\<close>

lemma digit_byte: "48 + ucast ((num :: u64) mod 10) = (of_nat (48 + unat num mod 10) :: u8)"
proof -
  have "ucast (num mod 10) = (of_nat (unat (num mod 10)) :: u8)" by simp
  then show ?thesis by (simp add: unat_mod)
qed

lemma digit_loop_pad:
  assumes "length ds + length (low_digits (unat num)) \<le> 20"
  shows "digit_loop num (ds @ replicate (20 - length ds) 0) (length ds)
    = (let ds' = ds @ low_digits (unat num) in
       Some (ds' @ replicate (20 - length ds') 0, length ds'))"
  using assms
proof (induction "unat num" arbitrary: num ds rule: less_induct)
  case less
  show ?case
  proof (cases "num = 0")
    case False
    let ?d = "of_nat (48 + unat num mod 10) :: u8"
    from False have pos: "unat num > 0" by (simp add: unat_gt_0)
    then have low: "low_digits (unat num) = ?d # low_digits (unat num div 10)"
      by (subst low_digits.simps) simp
    obtain k where k: "20 - length ds = Suc k" "20 - length (ds @ [?d]) = k"
      using less.prems by (cases "20 - length ds") (auto simp: low)
    have w: "write_at (ds @ replicate (20 - length ds) 0) (length ds) (48 + ucast (num mod 10))
        = Some ((ds @ [?d]) @ replicate (20 - length (ds @ [?d])) 0)"
      unfolding digit_byte k by (simp add: write_at_def list_update_append)
    have d: "unat (num div 10) = unat num div 10" by (simp add: unat_div)
    have "digit_loop (num div 10) ((ds @ [?d]) @ replicate (20 - length (ds @ [?d])) 0)
        (length (ds @ [?d])) = (let ds' = (ds @ [?d]) @ low_digits (unat (num div 10)) in
       Some (ds' @ replicate (20 - length ds') 0, length ds'))"
      using pos less.prems by (intro less.hyps) (simp_all add: d low)
    with False w show ?thesis
      by (subst digit_loop.simps) (simp add: word_gt_0 d low Let_def)
  qed (subst digit_loop.simps, simp add: low_digits.simps)
qed

lemma reverse_digits_pad:
  assumes "i \<le> d" "d \<le> length temp" "d \<le> max_fact_len"
  shows "reverse_digits i d temp (pad (take i (rev (take d temp)))) = Some (pad (rev (take d temp)))"
  using assms
proof (induction "d - i" arbitrary: i)
  case 0
  then show ?case by (subst reverse_digits.simps) simp
next
  case (Suc n)
  let ?r = "rev (take d temp)"
  from Suc have i: "i < d" by simp
  then have r: "?r ! i = temp ! (d - 1 - i)" using Suc.prems by (simp add: rev_nth)
  have len: "length (take i ?r) = i" using i Suc.prems by simp
  have "write_at (pad (take i ?r)) i (?r ! i) = Some (pad (take (i + 1) ?r))"
    using i Suc.prems write_at_pad [of "take i ?r" "?r ! i", unfolded len]
    by (simp add: take_Suc_conv_app_nth)
  moreover have "reverse_digits (i + 1) d temp (pad (take (i + 1) ?r)) = Some (pad ?r)"
    using Suc i by (intro Suc.hyps) simp_all
  moreover have "read_at temp (d - 1 - i) = Some (?r ! i)"
    using i Suc.prems unfolding r by (simp add: read_at_def)
  ultimately show ?case using i by (subst reverse_digits.simps) simp
qed

lemma from_u64_eq: "bf_from_u64 v = Some (fact_of (decimal (unat v)))"
proof (cases "v = 0")
  case True
  then show ?thesis using write_at_pad [of "[]" 48]
    by (simp add: bf_from_u64_def pad_empty fact_of_def decimal_def max_fact_len_def)
next
  case False
  let ?ds = "low_digits (unat v)"
  have l: "length ?ds \<le> 20" using low_digits_length [OF u64_less] .
  have "digit_loop v (replicate 20 0) 0 = Some (?ds @ replicate (20 - length ?ds) 0, length ?ds)"
    using digit_loop_pad [of "[]" v] l by (simp add: Let_def)
  moreover have "reverse_digits 0 (length ?ds) (?ds @ replicate (20 - length ?ds) 0) (pad [])
      = Some (pad (rev ?ds))"
    using reverse_digits_pad [of 0 "length ?ds" "?ds @ replicate (20 - length ?ds) 0"] l
    by (simp add: max_fact_len_def)
  ultimately show ?thesis
    using False by (simp add: bf_from_u64_def pad_empty fact_of_def decimal_def unat_eq_zero)
qed

text \<open>Hexadecimal.\<close>

lemma hex_chars_nth: "n < 16 \<Longrightarrow> read_at hex_chars n = Some (hex_digit n)"
proof -
  have "\<forall>n \<in> set [0..<16]. read_at hex_chars n = Some (hex_digit n)"
    by (simp add: upt_rec read_at_def hex_chars_def hex_digit_def ascii_def)
  then show "n < 16 \<Longrightarrow> read_at hex_chars n = Some (hex_digit n)" by simp
qed

lemma write_hex_pad:
  assumes "length s + 2 \<le> max_fact_len"
  shows "write_hex (pad s) (length s) b = Some (pad (s @ fmt_02x b))"
proof -
  have "b AND 0x0F = take_bit 4 b" by (simp add: take_bit_eq_mask mask_eq_exp_minus_1)
  then have "unat (drop_bit 4 b) = unat b div 16" "unat (b AND 0x0F) = unat b mod 16"
    by (simp_all add: unat_drop_bit_eq drop_bit_eq_div unsigned_take_bit_eq take_bit_eq_mod
        unat_div unat_mod)
  moreover have "unat b div 16 < 16" "unat b mod 16 < 16" by (simp_all add: less_mult_imp_div_less)
  ultimately show ?thesis
    using assms write_at_pad [of s] write_at_pad [of "s @ [hex_digit (unat b div 16)]"]
    by (simp add: write_hex_def hex_chars_nth fmt_02x_def)
qed

lemma display_bytes_Nil [simp]: "display_bytes [] = []"
  by (simp add: display_bytes_def)

lemma display_bytes_snoc: "i < length bs \<Longrightarrow>
    display_bytes (take (Suc i) bs) = display_bytes (take i bs) @ fmt_02x (bs ! i)"
  by (simp add: display_bytes_def take_Suc_conv_app_nth)

lemma hex_loop_pad:
  assumes "i \<le> length bs" "2 * length bs \<le> max_fact_len"
  shows "hex_loop i bs (pad (display_bytes (take i bs))) = Some (pad (display_bytes bs))"
  using assms
proof (induction "length bs - i" arbitrary: i)
  case 0
  then show ?case by (subst hex_loop.simps) simp
next
  case (Suc n)
  then have i: "i < length bs" by simp
  have "write_hex (pad (display_bytes (take i bs))) (i * 2) (bs ! i)
      = Some (pad (display_bytes (take (i + 1) bs)))"
    using write_hex_pad [of "display_bytes (take i bs)" "bs ! i"] i Suc.prems
    by (simp add: display_bytes_snoc mult.commute)
  moreover have "hex_loop (i + 1) bs (pad (display_bytes (take (i + 1) bs)))
      = Some (pad (display_bytes bs))"
    using Suc i by (intro Suc.hyps) simp_all
  ultimately show ?case using i by (subst hex_loop.simps) simp
qed

lemma try_from_hex_eq:
  "bf_try_from_hex bs = Some (if 2 * length bs > max_fact_len then Inl ValueTooLong
     else Inr (fact_of (display_bytes bs)))"
  using hex_loop_pad [of 0 bs]
  by (auto simp: bf_try_from_hex_def checked_mul_usize_def usize_limit_def max_fact_len_def
      pad_empty fact_of_def mult.commute)

lemma digest_loop_pad:
  assumes "j \<le> length bs" "length s + 2 * length bs \<le> max_fact_len"
  shows "digest_loop j bs (length s + 2 * j) (pad (s @ display_bytes (take j bs)))
    = Some (length s + 2 * length bs, pad (s @ display_bytes bs))"
  using assms
proof (induction "length bs - j" arbitrary: j)
  case 0
  then show ?case by (subst digest_loop.simps) simp
next
  case (Suc n)
  then have j: "j < length bs" by simp
  have "write_hex (pad (s @ display_bytes (take j bs))) (length s + 2 * j) (bs ! j)
      = Some (pad (s @ display_bytes (take (j + 1) bs)))"
    using write_hex_pad [of "s @ display_bytes (take j bs)" "bs ! j"] j Suc.prems
    by (simp add: display_bytes_snoc)
  moreover have "digest_loop (j + 1) bs (length s + 2 * (j + 1))
      (pad (s @ display_bytes (take (j + 1) bs)))
      = Some (length s + 2 * length bs, pad (s @ display_bytes bs))"
    using Suc j by (intro Suc.hyps) simp_all
  ultimately show ?case using j by (subst digest_loop.simps) simp
qed

lemma hash_label_length: "length (hash_label a) \<le> 10"
  by (cases a) (simp_all add: hash_label_def)

lemma try_from_digest_eq:
  assumes "digest_wf d"
  shows "bf_try_from_digest d = Some (Inr (fact_of (display_digest d)))"
proof -
  let ?p = "hash_label (dg_algorithm d)"
  have l: "length (dg_bytes d) = 32" using assms by (simp add: digest_wf_def)
  have p: "length ?p \<le> 10" by (rule hash_label_length)
  have copy: "copy_loop 0 (length ?p) ?p (pad []) = Some (pad ?p)"
    using copy_loop_pad [of 0 ?p] p by (simp add: max_fact_len_def)
  have colon: "write_at (pad ?p) (length ?p) 58 = Some (pad (?p @ [58]))"
    using write_at_pad [of ?p 58] p by (simp add: max_fact_len_def)
  have loop: "digest_loop 0 (dg_bytes d) (length ?p + 1) (pad (?p @ [58]))
      = Some (length ?p + 1 + 64, pad (?p @ [58] @ display_bytes (dg_bytes d)))"
    using digest_loop_pad [of 0 "dg_bytes d" "?p @ [58]"] p l
    by (simp add: max_fact_len_def)
  have c: "ascii '':'' = [58]" by (simp add: ascii_def)
  show ?thesis
    using p l by (simp add: bf_try_from_digest_def Let_def checked_mul_usize_def
        checked_add_usize_def usize_limit_def max_fact_len_def pad_empty copy colon loop [simplified]
        fact_of_def display_digest_def display_hash_def c)
qed

lemma as_str_fact_of:
  "length s \<le> max_fact_len \<Longrightarrow> str_is_ascii s \<Longrightarrow> bf_as_str (fact_of s) = Some (Inr s)"
  by (simp add: bf_as_str_def fact_of_def pad_def slice_get_def from_utf8_ok_ascii)

lemma fact_of_inj: "length s \<le> max_fact_len \<Longrightarrow> length t \<le> max_fact_len \<Longrightarrow> fact_of s = fact_of t \<Longrightarrow> s = t"
  by (auto simp: fact_of_def pad_def)

end
