(* ===== verification/Review_Facts.thy ===== *)
theory Review_Facts
  imports Review_UI
begin

text \<open>
  \<open>format_review_facts\<close> of \<open>review_ui.rs\<close>: the 32 lines of a review. \<open>review_lines\<close>
  states the lines as names and texts; \<open>format_review_ok\<close> shows that the code builds exactly these
  for every review the policy can produce, and \<open>review_lines_inj\<close> that the texts determine the
  review.
\<close>

record review_fact =
  rf_name :: bytes
  rf_value :: bounded_fact_str

text \<open>
  The elements of the array are evaluated in order; the first error is returned. An element is a name
  and the outcome of its constructor.
\<close>

type_synonym fact_outcome = "bytes \<times> (review_format_error + bounded_fact_str) option"

fun sequence_facts :: "fact_outcome list \<Rightarrow> (review_format_error + review_fact list) option" where
  "sequence_facts [] = Some (Inr [])"
| "sequence_facts ((name, v) # rest) =
     (case v of
        None \<Rightarrow> None
      | Some (Inl e) \<Rightarrow> Some (Inl e)
      | Some (Inr value) \<Rightarrow>
          (case sequence_facts rest of
             None \<Rightarrow> None
           | Some (Inl e) \<Rightarrow> Some (Inl e)
           | Some (Inr facts) \<Rightarrow> Some (Inr (\<lparr>rf_name = name, rf_value = value\<rparr> # facts))))"

definition fact_str :: "bytes \<Rightarrow> bytes \<Rightarrow> fact_outcome" where
  "fact_str name s = (name, bf_try_from_str s)"

definition fact_u64 :: "bytes \<Rightarrow> u64 \<Rightarrow> fact_outcome" where
  "fact_u64 name v = (name, map_option Inr (bf_from_u64 v))"

definition fact_hex :: "bytes \<Rightarrow> bytes \<Rightarrow> fact_outcome" where
  "fact_hex name bs = (name, bf_try_from_hex bs)"

definition fact_digest :: "bytes \<Rightarrow> digest32 \<Rightarrow> fact_outcome" where
  "fact_digest name d = (name, bf_try_from_digest d)"

definition format_review_facts ::
    "clear_signing_review \<Rightarrow> (review_format_error + review_fact list) option" where
  "format_review_facts r =
     (if am_length (rv_access_entries r) \<noteq> 3 then Some (Inl WrongAccessCount)
      else
        case rv_access_lines r of
          [access_0, access_1, access_2] \<Rightarrow>
            (case rv_fee r of
               None \<Rightarrow> Some (Inl MissingFee)
             | Some fee \<Rightarrow> sequence_facts [
            fact_str (ascii ''chain_id'') (bs_as_str (rv_chain_id r)),
            fact_u64 (ascii ''protocol_version'') (ucast (rv_protocol_version r)),
            fact_u64 (ascii ''epoch'') (rv_epoch r),
            fact_str (ascii ''message_type'') (bs_as_str (rv_message_type r)),
            fact_str (ascii ''scheme'') (scheme_label (rv_scheme r)),
            fact_hex (ascii ''sender'') (address_as_bytes (rv_sender r)),
            fact_u64 (ascii ''nonce'') (rv_nonce r),
            fact_hex (ascii ''module_id'') (object_id_as_bytes (rv_module_id r)),
            fact_u64 (ascii ''module_version'') (rv_module_version r),
            fact_digest (ascii ''module_digest'') (rv_module_digest r),
            fact_str (ascii ''entrypoint'') (bs_as_str (rv_entrypoint r)),
            fact_u64 (rv_amount_label r) (rv_amount r),
            fact_u64 (ascii ''gas_limit'') (rv_gas_limit r),
            fact_u64 (ascii ''manifest_count'') (of_nat (am_length (rv_access_entries r))),
            fact_str (ascii ''access[0].mode'') (mode_label (al_mode access_0)),
            fact_hex (ascii ''access[0].object_id'') (object_id_as_bytes (al_object_id access_0)),
            fact_u64 (ascii ''access[0].version'') (al_version access_0),
            fact_digest (ascii ''access[0].digest'') (al_digest access_0),
            fact_str (ascii ''access[1].mode'') (mode_label (al_mode access_1)),
            fact_hex (ascii ''access[1].object_id'') (object_id_as_bytes (al_object_id access_1)),
            fact_u64 (ascii ''access[1].version'') (al_version access_1),
            fact_digest (ascii ''access[1].digest'') (al_digest access_1),
            fact_str (ascii ''access[2].mode'') (mode_label (al_mode access_2)),
            fact_hex (ascii ''access[2].object_id'') (object_id_as_bytes (al_object_id access_2)),
            fact_u64 (ascii ''access[2].version'') (al_version access_2),
            fact_digest (ascii ''access[2].digest'') (al_digest access_2),
            fact_str (ascii ''fee_payment'') (ascii ''present''),
            fact_hex (ascii ''fee_asset'') (asset_id_as_bytes (fl_asset_id fee)),
            fact_u64 (ascii ''fee_max'') (fl_max_fee fee),
            fact_hex (ascii ''fee_object_id'') (object_id_as_bytes (fl_fee_object_id fee)),
            fact_u64 (ascii ''fee_object_version'') (fl_fee_object_version fee),
            fact_digest (ascii ''fee_object_digest'') (fl_fee_object_digest fee)])
        | _ \<Rightarrow> Some (Inl WrongAccessCount))"

section \<open>The lines of a review\<close>

definition numbered :: "nat \<Rightarrow> string \<Rightarrow> bytes" where
  "numbered i field = ascii ''access['' @ decimal i @ ascii '']'' @ ascii field"

definition access_line_texts :: "nat \<Rightarrow> access_line \<Rightarrow> (bytes \<times> bytes) list" where
  "access_line_texts i a =
     [(numbered i ''.mode'', mode_label (al_mode a)),
      (numbered i ''.object_id'', display_object_id (al_object_id a)),
      (numbered i ''.version'', decimal (unat (al_version a))),
      (numbered i ''.digest'', display_digest (al_digest a))]"

definition fee_line_texts :: "fee_line \<Rightarrow> (bytes \<times> bytes) list" where
  "fee_line_texts fee =
     [(ascii ''fee_payment'', ascii ''present''),
      (ascii ''fee_asset'', display_asset_id (fl_asset_id fee)),
      (ascii ''fee_max'', decimal (unat (fl_max_fee fee))),
      (ascii ''fee_object_id'', display_object_id (fl_fee_object_id fee)),
      (ascii ''fee_object_version'', decimal (unat (fl_fee_object_version fee))),
      (ascii ''fee_object_digest'', display_digest (fl_fee_object_digest fee))]"

definition header_line_texts :: "clear_signing_review \<Rightarrow> (bytes \<times> bytes) list" where
  "header_line_texts r =
     [(ascii ''chain_id'', bs_as_str (rv_chain_id r)),
      (ascii ''protocol_version'', decimal (unat (rv_protocol_version r))),
      (ascii ''epoch'', decimal (unat (rv_epoch r))),
      (ascii ''message_type'', bs_as_str (rv_message_type r)),
      (ascii ''scheme'', scheme_label (rv_scheme r)),
      (ascii ''sender'', display_address (rv_sender r)),
      (ascii ''nonce'', decimal (unat (rv_nonce r))),
      (ascii ''module_id'', display_object_id (rv_module_id r)),
      (ascii ''module_version'', decimal (unat (rv_module_version r))),
      (ascii ''module_digest'', display_digest (rv_module_digest r)),
      (ascii ''entrypoint'', bs_as_str (rv_entrypoint r)),
      (rv_amount_label r, decimal (unat (rv_amount r))),
      (ascii ''gas_limit'', decimal (unat (rv_gas_limit r))),
      (ascii ''manifest_count'', decimal (length (rv_access_lines r)))]"

definition review_lines :: "clear_signing_review \<Rightarrow> (bytes \<times> bytes) list" where
  "review_lines r =
     header_line_texts r
     @ concat (map (\<lambda>(i, a). access_line_texts i a) (List.enumerate 0 (rv_access_lines r)))
     @ (case rv_fee r of None \<Rightarrow> [] | Some fee \<Rightarrow> fee_line_texts fee)"

definition line_fact :: "bytes \<times> bytes \<Rightarrow> review_fact" where
  "line_fact l = \<lparr>rf_name = fst l, rf_value = fact_of (snd l)\<rparr>"

lemma sequence_facts_ok:
  "list_all2 (\<lambda>f l. f = (fst l, Some (Inr (fact_of (snd l))))) fs ls \<Longrightarrow>
     sequence_facts fs = Some (Inr (map line_fact ls))"
  by (induction fs ls rule: list_all2_induct) (auto simp: line_fact_def)

text \<open>What a policy must fix for its reviews to be displayable.\<close>

definition policy_ascii :: "clear_signing_policy \<Rightarrow> bool" where
  "policy_ascii p \<longleftrightarrow> str_is_ascii (pol_chain_id p) \<and> str_is_ascii (pol_entrypoint p)"

lemma fact_outcomes:
  "str_is_ascii s \<Longrightarrow> length s \<le> max_fact_len \<Longrightarrow> fact_str name s = (name, Some (Inr (fact_of s)))"
  "fact_u64 name v = (name, Some (Inr (fact_of (decimal (unat v)))))"
  "2 * length bs \<le> max_fact_len \<Longrightarrow>
     fact_hex name bs = (name, Some (Inr (fact_of (display_bytes bs))))"
  "digest_wf d \<Longrightarrow> fact_digest name d = (name, Some (Inr (fact_of (display_digest d))))"
  by (simp_all add: fact_str_def try_from_str_eq fact_u64_def from_u64_eq fact_hex_def
      try_from_hex_eq fact_digest_def try_from_digest_eq)

section \<open>The formatting does not fail\<close>

text \<open>The parts of a review the policy can produce.\<close>

lemma review_ok_parts:
  assumes "review_ok p r"
  obtains e0 e1 e2 fee where
    "rv_access_entries r = am_of_list [e0, e1, e2]" "rv_fee r = Some fee"
    "entry_wf e0" "entry_wf e1" "entry_wf e2" "fee_wf (fee_payment_of_line fee)"
    "addr_wf (rv_sender r)" "oid_wf (rv_module_id r)" "digest_wf (rv_module_digest r)"
    "bs_as_str (rv_chain_id r) = pol_chain_id p" "bs_as_str (rv_entrypoint r) = pol_entrypoint p"
    "length (bs_as_str (rv_chain_id r)) \<le> 64" "length (bs_as_str (rv_entrypoint r)) \<le> 64"
    "bs_as_str (rv_message_type r) = transaction_v1_message_type" "rv_scheme r = Ed25519"
proof -
  let ?tx = "review_transaction p r"
  from assms have wf: "tx_wf ?tx" "policy_matches p ?tx (rv_amount r)"
      "bs_as_str (rv_message_type r) = transaction_v1_message_type" "rv_scheme r = Ed25519"
    by (simp_all add: review_ok_def)
  from wf(2) have m: "am_len (rv_access_entries r) = 3" "rv_fee r \<noteq> None"
      "bs_as_str (rv_chain_id r) = pol_chain_id p" "bs_as_str (rv_entrypoint r) = pol_entrypoint p"
    by (auto simp: policy_matches_def review_transaction_def)
  from wf(1) have w: "manifest_wf (rv_access_entries r)" "addr_wf (rv_sender r)"
      "oid_wf (rv_module_id r)" "digest_wf (rv_module_digest r)"
      "bs_wf max_chain_id_bytes (rv_chain_id r)" "bs_wf max_entrypoint_bytes (rv_entrypoint r)"
      "case rv_fee r of None \<Rightarrow> True | Some l \<Rightarrow> fee_wf (fee_payment_of_line l)"
    by (auto simp: tx_wf_def review_transaction_def ref_wf_def split: option.splits)
  from w(1) have a: "am_wf (rv_access_entries r)" "list_all entry_wf (am_iter (rv_access_entries r))"
    by (auto simp: manifest_wf_def)
  then have "length (am_iter (rv_access_entries r)) = 3" using am_wf_length m(1) by simp
  then obtain e0 e1 e2 where e: "am_iter (rv_access_entries r) = [e0, e1, e2]"
    by (auto simp: numeral_3_eq_3 length_Suc_conv)
  with a have "rv_access_entries r = am_of_list [e0, e1, e2]" using am_wf_iter by metis
  moreover from m(2) obtain fee where "rv_fee r = Some fee" by auto
  ultimately show thesis
    using that [of e0 e1 e2 fee] a(2) e w m wf bs_wf_length [OF w(5)] bs_wf_length [OF w(6)]
    by (simp add: max_chain_id_bytes_def max_frame_chain_id_bytes_def max_entrypoint_bytes_def)
qed

lemma label_ascii:
  "str_is_ascii (mode_label m)" "length (mode_label m) \<le> 96"
  "str_is_ascii (scheme_label s)" "length (scheme_label s) \<le> 96"
  "str_is_ascii (hash_label h)"
  "str_is_ascii (ascii ''present'')" "str_is_ascii transaction_v1_message_type"
  by (cases m; cases s; cases h; simp add: mode_label_def scheme_label_def hash_label_def
      transaction_v1_message_type_def str_is_ascii_def ascii_def)+

lemma numbered_names:
  "numbered 0 f = ascii (''access[0]'' @ f)" "numbered (Suc 0) f = ascii (''access[1]'' @ f)"
  "numbered (Suc (Suc 0)) f = ascii (''access[2]'' @ f)"
  by (simp_all add: numbered_def ascii_def decimal_def low_digits.simps)

lemma fact_line_match:
  "f = (n, Some (Inr (fact_of t))) \<Longrightarrow> (\<lambda>f l. f = (fst l, Some (Inr (fact_of (snd l))))) f (n, t)"
  by simp

lemma format_review_ok:
  assumes ok: "review_ok p r" and p: "policy_ascii p"
  shows "format_review_facts r = Some (Inr (map line_fact (review_lines r)))"
proof -
  obtain e0 e1 e2 fee where parts:
    "rv_access_entries r = am_of_list [e0, e1, e2]" "rv_fee r = Some fee"
    "entry_wf e0" "entry_wf e1" "entry_wf e2" "fee_wf (fee_payment_of_line fee)"
    "addr_wf (rv_sender r)" "oid_wf (rv_module_id r)" "digest_wf (rv_module_digest r)"
    "bs_as_str (rv_chain_id r) = pol_chain_id p" "bs_as_str (rv_entrypoint r) = pol_entrypoint p"
    "length (bs_as_str (rv_chain_id r)) \<le> 64" "length (bs_as_str (rv_entrypoint r)) \<le> 64"
    "bs_as_str (rv_message_type r) = transaction_v1_message_type" "rv_scheme r = Ed25519"
    using review_ok_parts [OF ok] .
  note wf = parts(3-9) [unfolded entry_wf_def ref_wf_def fee_wf_def fee_payment_of_line_def
      oid_wf_def asset_wf_def addr_wf_def, simplified]
  have three: "unat (3 :: u64) = 3" "decimal 3 = decimal (Suc (Suc (Suc 0)))"
    by simp (simp add: numeral_3_eq_3)
  have u: "unat (ucast (rv_protocol_version r) :: u64) = unat (rv_protocol_version r)"
    using unsigned_less [of "rv_protocol_version r", where 'a = nat]
    by (simp add: unsigned_ucast_eq take_bit_nat_eq_self)
  let ?line = "\<lambda>e. \<lparr>al_mode = ae_mode e, al_object_id = or_id (ae_object_ref e),
      al_version = or_version (ae_object_ref e), al_digest = or_digest (ae_object_ref e)\<rparr>"
  have lines: "rv_access_lines r = [?line e0, ?line e1, ?line e2]"
    by (simp add: rv_access_lines_def parts)
  have ascii: "str_is_ascii (pol_chain_id p)" "str_is_ascii (pol_entrypoint p)"
    using p by (simp_all add: policy_ascii_def)
  have len: "length (pol_chain_id p) \<le> 96" "length (pol_entrypoint p) \<le> 96"
      "length transaction_v1_message_type \<le> 96"
    using parts(10-13) by (simp_all add: transaction_v1_message_type_def)
  show ?thesis
    unfolding format_review_facts_def review_lines_def lines parts(1,2)
    by (simp add: sequence_facts_ok fact_outcomes header_line_texts_def access_line_texts_def
        fee_line_texts_def parts lines wf u three len ascii label_ascii numbered_names
        max_fact_len_def display_object_id_def display_asset_id_def display_address_def
        line_fact_def)
qed

section \<open>The lines determine the review\<close>

lemma hash_label_inj: "hash_label h = hash_label h' \<longleftrightarrow> h = h'"
  by (cases h; cases h') (simp_all add: hash_label_def ascii_def)

lemma display_digest_inj:
  "display_digest d = display_digest d' \<longleftrightarrow> d = d'" if "digest_wf d" "digest_wf d'"
proof
  assume eq: "display_digest d = display_digest d'"
  have "length (hash_label (dg_algorithm d)) = length (hash_label (dg_algorithm d'))"
    using arg_cong [OF eq, of length] that by (simp add: display_digest_def display_hash_def digest_wf_def)
  with eq have "hash_label (dg_algorithm d) = hash_label (dg_algorithm d')" "dg_bytes d = dg_bytes d'"
    by (simp_all add: display_digest_def display_hash_def)
  then show "d = d'" by (simp add: hash_label_inj)
qed simp

lemma mode_label_inj: "mode_label m = mode_label m' \<longleftrightarrow> m = m'"
  by (cases m; cases m') (simp_all add: mode_label_def ascii_def)

lemma access_line_texts_inj:
  assumes "map snd (access_line_texts i a) = map snd (access_line_texts i b)"
    "digest_wf (al_digest a)" "digest_wf (al_digest b)"
  shows "a = b"
  using assms
  by (cases a; cases b)
    (auto simp: access_line_texts_def mode_label_inj display_object_id_def display_digest_inj
      object_id.expand word_unat_eq_iff)

lemma fee_line_texts_inj:
  assumes "map snd (fee_line_texts a) = map snd (fee_line_texts b)"
    "digest_wf (fl_fee_object_digest a)" "digest_wf (fl_fee_object_digest b)"
  shows "a = b"
  using assms
  by (cases a; cases b)
    (auto simp: fee_line_texts_def display_object_id_def display_asset_id_def display_digest_inj
      object_id.expand asset_id.expand word_unat_eq_iff)

lemma access_line_inj:
  fixes e f :: access_entry
  shows "\<lparr>al_mode = ae_mode e, al_object_id = or_id (ae_object_ref e), al_version = or_version (ae_object_ref e),
     al_digest = or_digest (ae_object_ref e)\<rparr>
   = \<lparr>al_mode = ae_mode f, al_object_id = or_id (ae_object_ref f),
      al_version = or_version (ae_object_ref f), al_digest = or_digest (ae_object_ref f)\<rparr>
   \<longleftrightarrow> e = f"
  by (cases e; cases f; cases "ae_object_ref e"; cases "ae_object_ref f") auto

lemma review_ok_texts:
  assumes "review_ok p r"
  shows "bs_wf max_frame_chain_id_bytes (rv_chain_id r)" "bs_wf max_message_type_bytes (rv_message_type r)"
    "bs_wf max_entrypoint_bytes (rv_entrypoint r)" "rv_amount_label r = pol_args_label p"
  using assms by (simp_all add: review_ok_def sf_wf_def tx_wf_def review_signature_frame_def
      review_transaction_def)

lemma review_lines_inj:
  assumes ok: "review_ok p r" "review_ok p r'"
    and eq: "map snd (review_lines r) = map snd (review_lines r')"
  shows "r = r'"
proof -
  from ok(1) obtain e0 e1 e2 fee where a:
    "rv_access_entries r = am_of_list [e0, e1, e2]" "rv_fee r = Some fee"
    "entry_wf e0" "entry_wf e1" "entry_wf e2" "fee_wf (fee_payment_of_line fee)"
    "digest_wf (rv_module_digest r)" "bs_as_str (rv_message_type r) = transaction_v1_message_type"
    "rv_scheme r = Ed25519"
    by (rule review_ok_parts)
  from ok(2) obtain f0 f1 f2 fee' where b:
    "rv_access_entries r' = am_of_list [f0, f1, f2]" "rv_fee r' = Some fee'"
    "entry_wf f0" "entry_wf f1" "entry_wf f2" "fee_wf (fee_payment_of_line fee')"
    "digest_wf (rv_module_digest r')" "bs_as_str (rv_message_type r') = transaction_v1_message_type"
    "rv_scheme r' = Ed25519"
    by (rule review_ok_parts)
  let ?line = "\<lambda>e. \<lparr>al_mode = ae_mode e, al_object_id = or_id (ae_object_ref e),
      al_version = or_version (ae_object_ref e), al_digest = or_digest (ae_object_ref e)\<rparr>"
  have l: "rv_access_lines r = [?line e0, ?line e1, ?line e2]"
      "rv_access_lines r' = [?line f0, ?line f1, ?line f2]"
    by (simp_all add: rv_access_lines_def a(1) b(1))
  have header: "length (header_line_texts r) = length (header_line_texts r')"
    by (simp add: header_line_texts_def)
  have four: "length (access_line_texts i x) = 4" for i x by (simp add: access_line_texts_def)
  from eq have h: "map snd (header_line_texts r) = map snd (header_line_texts r')"
    and t: "map snd (access_line_texts 0 (?line e0)) = map snd (access_line_texts 0 (?line f0))"
      "map snd (access_line_texts (Suc 0) (?line e1)) = map snd (access_line_texts (Suc 0) (?line f1))"
      "map snd (access_line_texts (Suc (Suc 0)) (?line e2))
         = map snd (access_line_texts (Suc (Suc 0)) (?line f2))"
      "map snd (fee_line_texts fee) = map snd (fee_line_texts fee')"
    unfolding review_lines_def l a(2) b(2) by (simp_all add: header four)
  have "e0 = f0" "e1 = f1" "e2 = f2"
    using t(1-3) [THEN access_line_texts_inj] a(3-5) b(3-5) access_line_inj
    by (simp_all add: entry_wf_def ref_wf_def)
  moreover have "fee = fee'"
    using fee_line_texts_inj [OF t(4)] a(6) b(6)
    by (simp add: fee_wf_def ref_wf_def fee_payment_of_line_def)
  moreover have "rv_chain_id r = rv_chain_id r'" "rv_message_type r = rv_message_type r'"
      "rv_entrypoint r = rv_entrypoint r'"
    using h a(8) b(8) bstr.encode_inj review_ok_texts [OF ok(1)] review_ok_texts [OF ok(2)]
    by (auto simp: header_line_texts_def)
  moreover have "rv_module_digest r = rv_module_digest r'"
    using h a(7) b(7) by (simp add: header_line_texts_def display_digest_inj)
  moreover have "rv_sender r = rv_sender r'" "rv_module_id r = rv_module_id r'"
    using h by (simp_all add: header_line_texts_def display_address_def display_object_id_def
        address.expand object_id.expand)
  ultimately show ?thesis
    using h a b review_ok_texts(4) [OF ok(1)] review_ok_texts(4) [OF ok(2)]
    by (cases r; cases r') (simp add: header_line_texts_def word_unat_eq_iff)
qed

end
