(* ===== verification/Devnet_Transfer.thy ===== *)
theory Devnet_Transfer
  imports Review_Facts
begin

text \<open>
  Every transfer of the devnet policy: \<open>devnet_transfer\<close> is what the policy leaves to the sender,
  \<open>devnet_frame\<close> the frame that carries it, field by field, and \<open>devnet_lines\<close> the 32 lines
  of its review. \<open>devnet_review_ok_iff\<close> shows that these are all reviews the policy can produce.
\<close>

section \<open>The texts the policy fixes\<close>

definition bounded_text :: "nat \<Rightarrow> string \<Rightarrow> bounded_str" where
  "bounded_text n s =
     \<lparr>bs_bytes = \<lparr>bb_buf = ascii s @ replicate (n - length s) 0, bb_len = length s\<rparr>\<rparr>"

lemma bounded_text_as_str:
  "str_is_ascii (ascii s) \<Longrightarrow> length s \<le> n \<Longrightarrow> bs_as_str (bounded_text n s) = ascii s"
  by (simp add: bounded_text_def bs_as_str_def bb_as_bytes_def slice_get_def from_utf8_ok_ascii)

lemma devnet_strings [simp]:
  "bs_as_str (bounded_text 64 ''sunrise-local-devnet'') = ascii ''sunrise-local-devnet''"
  "bs_as_str (bounded_text 32 ''transaction-v1'') = ascii ''transaction-v1''"
  "bs_as_str (bounded_text 64 ''transfer'') = ascii ''transfer''"
  by (rule bounded_text_as_str; simp add: str_is_ascii_def ascii_def)+

lemmas devnet_args =
  devnet_asset_transfer_policy_def [THEN arg_cong [where f = pol_args_type_id], simplified]
  devnet_asset_transfer_policy_def [THEN arg_cong [where f = pol_args_version], simplified]
  devnet_asset_transfer_policy_def [THEN arg_cong [where f = pol_args_field_id], simplified]
  devnet_asset_transfer_policy_def [THEN arg_cong [where f = pol_fee_asset_id], simplified]

lemmas devnet_encoders = encode_transaction_signable_def tx_fields_def encode_access_manifest_def
  manifest_fields_def encode_access_entry_def encode_access_mode_def encode_fee_payment_def
  encode_asset_id_def policy_args_def mode_as_u8_def access_mode_type_id_def
  access_entry_type_id_def access_manifest_type_id_def fee_payment_type_id_def asset_id_type_id_def
  transaction_type_id_def encoding_version_def

lemma bounded_text_wf:
  "str_is_ascii (ascii s) \<Longrightarrow> length s \<le> n \<Longrightarrow> bs_wf n (bounded_text n s)"
  by (simp add: bounded_text_def bs_wf_def bb_wf_def bb_as_bytes_def slice_get_def
      from_utf8_ok_ascii)

lemma devnet_strings_wf [simp]:
  "bs_wf 64 (bounded_text 64 ''sunrise-local-devnet'')"
  "bs_wf 32 (bounded_text 32 ''transaction-v1'')"
  "bs_wf 64 (bounded_text 64 ''transfer'')"
  by (rule bounded_text_wf; simp add: str_is_ascii_def ascii_def)+

lemma devnet_strings_full [simp]:
  "\<not> str_trim_is_empty (ascii ''sunrise-local-devnet'')"
  "\<not> str_trim_is_empty (ascii ''transaction-v1'')"
  by (simp_all add: str_trim_is_empty_iff str_chars_ascii str_is_ascii_def ascii_def
      char_is_whitespace_def)

section \<open>What the policy leaves open\<close>

record devnet_transfer =
  dt_sender :: address
  dt_nonce :: u64
  dt_amount :: u64
  dt_gas_limit :: u64
  dt_source :: object_ref
  dt_second :: object_ref
  dt_third :: object_ref
  dt_max_fee :: u64

text \<open>The objects differ, and something is transferred.\<close>

definition devnet_transfer_wf :: "devnet_transfer \<Rightarrow> bool" where
  "devnet_transfer_wf t \<longleftrightarrow> addr_wf (dt_sender t) \<and> dt_amount t \<noteq> 0
     \<and> ref_wf (dt_source t) \<and> ref_wf (dt_second t) \<and> ref_wf (dt_third t)
     \<and> distinct [or_id (dt_source t), or_id (dt_second t), or_id (dt_third t)]"

section \<open>The frame\<close>

definition write_entry :: "object_ref \<Rightarrow> bytes" where
  "write_entry r =
     encode_frame 0x5001 1 [(1, encode_object_ref r), (2, encode_frame 0x4006 1 [(1, [2])])]"

definition devnet_payload :: "devnet_transfer \<Rightarrow> bytes" where
  "devnet_payload t =
     encode_frame 0x6001 1
       [(1, ascii ''sunrise-local-devnet''), (2, to_le 4 (3 :: u32)), (3, to_le 8 (0 :: u64)),
        (4, addr_bytes (dt_sender t)), (5, to_le 8 (dt_nonce t)),
        (6, encode_frame 0x5002 1
          [(1, to_le 4 (3 :: u32)), (2, write_entry (dt_source t)), (3, write_entry (dt_second t)),
           (4, write_entry (dt_third t))]),
        (7, encode_object_ref (policy_module_ref devnet_asset_transfer_policy)),
        (8, ascii ''transfer''),
        (9, encode_frame 0xF002 1 [(1, to_le 8 (dt_amount t))]),
        (10, to_le 8 (dt_gas_limit t)),
        (11, encode_frame 0x7002 1
          [(1, encode_frame 0x7001 1 [(1, pol_fee_asset_id devnet_asset_transfer_policy)]),
           (2, to_le 8 (dt_max_fee t)), (3, encode_object_ref (dt_source t))])]"

definition devnet_frame :: "devnet_transfer \<Rightarrow> bytes" where
  "devnet_frame t =
     encode_frame 0x2001 1
       [(1, ascii ''sunrise-local-devnet''), (2, to_le 4 (3 :: u32)), (3, to_le 8 (0 :: u64)),
        (4, ascii ''transaction-v1''), (5, to_le 2 (1 :: u16)), (6, devnet_payload t)]"

section \<open>The lines\<close>

definition object_lines :: "string \<Rightarrow> object_ref \<Rightarrow> (bytes \<times> bytes) list" where
  "object_lines name r =
     [(ascii (name @ ''.mode''), ascii ''write''),
      (ascii (name @ ''.object_id''), display_object_id (or_id r)),
      (ascii (name @ ''.version''), decimal (unat (or_version r))),
      (ascii (name @ ''.digest''), display_digest (or_digest r))]"

definition devnet_lines :: "devnet_transfer \<Rightarrow> (bytes \<times> bytes) list" where
  "devnet_lines t =
     [(ascii ''chain_id'', ascii ''sunrise-local-devnet''),
      (ascii ''protocol_version'', ascii ''3''),
      (ascii ''epoch'', ascii ''0''),
      (ascii ''message_type'', ascii ''transaction-v1''),
      (ascii ''scheme'', ascii ''ed25519''),
      (ascii ''sender'', display_address (dt_sender t)),
      (ascii ''nonce'', decimal (unat (dt_nonce t))),
      (ascii ''module_id'', ascii ''0d5dd10aec2c315b1dc564c694439e46bac4b61426d22e0d7ddb764c49197fe7''),
      (ascii ''module_version'', ascii ''3''),
      (ascii ''module_digest'',
        ascii ''sha2-256:01534128f12eb4cf469bfa29677bbced1344879de2870315847cbb7faec21619''),
      (ascii ''entrypoint'', ascii ''transfer''),
      (ascii ''amount'', decimal (unat (dt_amount t))),
      (ascii ''gas_limit'', decimal (unat (dt_gas_limit t))),
      (ascii ''manifest_count'', ascii ''3'')]
     @ object_lines ''access[0]'' (dt_source t)
     @ object_lines ''access[1]'' (dt_second t)
     @ object_lines ''access[2]'' (dt_third t)
     @ [(ascii ''fee_payment'', ascii ''present''),
        (ascii ''fee_asset'', ascii ''ccad27f687338b99953183728647bc1177388eb45a37afd9812c0d286b433ea8''),
        (ascii ''fee_max'', decimal (unat (dt_max_fee t))),
        (ascii ''fee_object_id'', display_object_id (or_id (dt_source t))),
        (ascii ''fee_object_version'', decimal (unat (or_version (dt_source t)))),
        (ascii ''fee_object_digest'', display_digest (or_digest (dt_source t)))]"

section \<open>The review\<close>

definition entry_of :: "object_ref \<Rightarrow> access_entry" where
  "entry_of r = \<lparr>ae_object_ref = r, ae_mode = WriteMode\<rparr>"

definition devnet_review :: "devnet_transfer \<Rightarrow> clear_signing_review" where
  "devnet_review t =
     \<lparr>rv_chain_id = bounded_text 64 ''sunrise-local-devnet'',
      rv_protocol_version = 3, rv_epoch = 0,
      rv_message_type = bounded_text 32 ''transaction-v1'',
      rv_scheme = Ed25519, rv_sender = dt_sender t, rv_nonce = dt_nonce t,
      rv_module_id = or_id (policy_module_ref devnet_asset_transfer_policy),
      rv_module_version = or_version (policy_module_ref devnet_asset_transfer_policy),
      rv_module_digest = or_digest (policy_module_ref devnet_asset_transfer_policy),
      rv_entrypoint = bounded_text 64 ''transfer'',
      rv_amount = dt_amount t, rv_amount_label = ascii ''amount'', rv_gas_limit = dt_gas_limit t,
      rv_access_entries =
        am_of_list [entry_of (dt_source t), entry_of (dt_second t), entry_of (dt_third t)],
      rv_fee = Some (fee_line_of
        \<lparr>fp_asset_id = AssetId (pol_fee_asset_id devnet_asset_transfer_policy),
         fp_max_fee = dt_max_fee t, fp_fee_object = dt_source t\<rparr>)\<rparr>"

lemma devnet_transaction:
  "review_transaction devnet_asset_transfer_policy (devnet_review t) =
     \<lparr>tx_chain_id = bounded_text 64 ''sunrise-local-devnet'',
      tx_protocol_version = 3, tx_epoch = 0, tx_sender = dt_sender t, tx_nonce = dt_nonce t,
      tx_access_manifest =
        am_of_list [entry_of (dt_source t), entry_of (dt_second t), entry_of (dt_third t)],
      tx_module_ref = policy_module_ref devnet_asset_transfer_policy,
      tx_entrypoint = bounded_text 64 ''transfer'',
      tx_args = policy_args devnet_asset_transfer_policy (dt_amount t),
      tx_gas_limit = dt_gas_limit t,
      tx_fee_payment = Some \<lparr>fp_asset_id = AssetId (pol_fee_asset_id devnet_asset_transfer_policy),
        fp_max_fee = dt_max_fee t, fp_fee_object = dt_source t\<rparr>\<rparr>"
  by (simp add: review_transaction_def devnet_review_def)

lemma devnet_payload_encodes:
  "encode_transaction_signable (review_transaction devnet_asset_transfer_policy (devnet_review t))
     = devnet_payload t"
  by (simp add: devnet_transaction devnet_encoders devnet_payload_def write_entry_def entry_of_def
      devnet_args)

lemma devnet_frame_encodes:
  "review_frame devnet_asset_transfer_policy (devnet_review t) = devnet_frame t"
  by (simp add: review_frame_def encode_signature_frame_def sf_fields_def devnet_payload_encodes
      devnet_frame_def signature_frame_type_id_def signature_frame_version_def)
    (simp add: devnet_review_def scheme_as_u16_def)

lemma object_lines_texts:
  "access_line_texts i \<lparr>al_mode = WriteMode, al_object_id = or_id r, al_version = or_version r,
     al_digest = or_digest r\<rparr> = object_lines name r"
  if "\<And>f. numbered i f = ascii (name @ f)"
  by (simp add: access_line_texts_def object_lines_def that mode_label_def)

lemma devnet_texts:
  "display_object_id (or_id (policy_module_ref devnet_asset_transfer_policy))
     = ascii ''0d5dd10aec2c315b1dc564c694439e46bac4b61426d22e0d7ddb764c49197fe7''"
  "display_digest (or_digest (policy_module_ref devnet_asset_transfer_policy))
     = ascii ''sha2-256:01534128f12eb4cf469bfa29677bbced1344879de2870315847cbb7faec21619''"
  "display_asset_id (AssetId (pol_fee_asset_id devnet_asset_transfer_policy))
     = ascii ''ccad27f687338b99953183728647bc1177388eb45a37afd9812c0d286b433ea8''"
  "or_version (policy_module_ref devnet_asset_transfer_policy) = 3"
  "scheme_label Ed25519 = ascii ''ed25519''"
  "decimal 3 = ascii ''3''" "decimal 0 = ascii ''0''"
  by (simp_all add: policy_module_ref_def devnet_asset_transfer_policy_def display_object_id_def
      display_asset_id_def display_digest_def display_hash_def hash_label_def display_bytes_def
      fmt_02x_def hex_digit_def ascii_def scheme_label_def decimal_def low_digits.simps)

lemma devnet_review_lines: "review_lines (devnet_review t) = devnet_lines t"
proof -
  have access: "rv_access_lines (devnet_review t) = map (\<lambda>r.
      \<lparr>al_mode = WriteMode, al_object_id = or_id r, al_version = or_version r,
       al_digest = or_digest r\<rparr>) [dt_source t, dt_second t, dt_third t]"
    by (simp add: rv_access_lines_def devnet_review_def entry_of_def)
  have "header_line_texts (devnet_review t) = take 14 (devnet_lines t)"
    unfolding header_line_texts_def access
    by (simp add: devnet_review_def devnet_texts devnet_lines_def flip: numeral_3_eq_3)
  moreover have "fee_line_texts (the (rv_fee (devnet_review t))) = drop 26 (devnet_lines t)"
    by (simp add: devnet_review_def fee_line_texts_def fee_line_of_def devnet_texts
        devnet_lines_def object_lines_def)
  moreover have "concat (map (\<lambda>(i, a). access_line_texts i a)
      (List.enumerate 0 (rv_access_lines (devnet_review t)))) = take 12 (drop 14 (devnet_lines t))"
    unfolding access
    by (simp add: object_lines_texts [OF numbered_names(1)] object_lines_texts [OF numbered_names(2)]
        object_lines_texts [OF numbered_names(3)] devnet_lines_def object_lines_def)
  moreover have "rv_fee (devnet_review t) = Some (the (rv_fee (devnet_review t)))"
    by (simp add: devnet_review_def)
  moreover have "xs = take 14 xs @ take 12 (drop 14 xs) @ drop 26 xs" for xs :: "(bytes \<times> bytes) list"
    using append_take_drop_id [of 14 xs] append_take_drop_id [of 12 "drop 14 xs"] by simp
  ultimately show ?thesis
    unfolding review_lines_def by (metis option.case(2))
qed

section \<open>These are the reviews of the devnet policy\<close>

lemmas devnet_policy = devnet_asset_transfer_policy_def [THEN arg_cong [where f = pol_chain_id]]
  devnet_asset_transfer_policy_def [THEN arg_cong [where f = pol_protocol_version]]
  devnet_asset_transfer_policy_def [THEN arg_cong [where f = pol_epoch]]
  devnet_asset_transfer_policy_def [THEN arg_cong [where f = pol_entrypoint]]
  devnet_asset_transfer_policy_def [THEN arg_cong [where f = pol_args_label]]

lemma devnet_tx_wf:
  assumes wf: "devnet_transfer_wf t"
  shows "tx_wf (review_transaction devnet_asset_transfer_policy (devnet_review t))"
proof -
  have "length (policy_args devnet_asset_transfer_policy (dt_amount t)) = 24"
    by (simp add: policy_args_def codec_lens)
  moreover have
    "manifest_wf (am_of_list [entry_of (dt_source t), entry_of (dt_second t), entry_of (dt_third t)])"
    using wf by (auto simp: devnet_transfer_wf_def manifest_wf_def am_wf_def max_access_entries_def
        entry_id_def entry_of_def entry_wf_def)
  moreover have "ref_wf (policy_module_ref devnet_asset_transfer_policy)"
      "asset_wf (AssetId (pol_fee_asset_id devnet_asset_transfer_policy))"
    by (simp_all add: ref_wf_def oid_wf_def digest_wf_def asset_wf_def policy_module_ref_def
        devnet_asset_transfer_policy_def)
  ultimately show ?thesis
    using wf unfolding devnet_transaction
    by (simp add: tx_wf_def devnet_transfer_wf_def max_chain_id_bytes_def
        max_frame_chain_id_bytes_def max_entrypoint_bytes_def max_args_bytes_def fee_wf_def ascii_def)
qed

lemma devnet_review_ok:
  assumes wf: "devnet_transfer_wf t"
  shows "review_ok devnet_asset_transfer_policy (devnet_review t)"
proof -
  have "sf_wf (review_signature_frame devnet_asset_transfer_policy (devnet_review t))"
    using tx_fields_length [OF devnet_tx_wf [OF wf]]
    by (simp add: sf_wf_def length_encode_signature_frame review_signature_frame_def
        devnet_review_def [THEN arg_cong [where f = rv_chain_id]]
        devnet_review_def [THEN arg_cong [where f = rv_message_type]]
        max_frame_chain_id_bytes_def max_message_type_bytes_def usize_limit_def)
  moreover have "policy_matches devnet_asset_transfer_policy
      (review_transaction devnet_asset_transfer_policy (devnet_review t)) (dt_amount t)"
    using wf unfolding devnet_transaction
    by (simp add: policy_matches_def devnet_transfer_wf_def entry_of_def devnet_policy)
  ultimately show ?thesis
    using devnet_tx_wf [OF wf]
    by (simp add: review_ok_def)
      (simp add: devnet_review_def transaction_v1_message_type_def devnet_policy)
qed

text \<open>The part of a review that the policy leaves open.\<close>

lemma devnet_review_parts:
  assumes "review_ok devnet_asset_transfer_policy r"
  obtains r0 r1 r2 fee where
    "rv_access_entries r = am_of_list [entry_of r0, entry_of r1, entry_of r2]"
    "rv_fee r = Some fee"
    "fee_payment_of_line fee = \<lparr>fp_asset_id = AssetId (pol_fee_asset_id devnet_asset_transfer_policy),
       fp_max_fee = fl_max_fee fee, fp_fee_object = r0\<rparr>"
    "ref_wf r0" "ref_wf r1" "ref_wf r2" "distinct [or_id r0, or_id r1, or_id r2]"
proof -
  obtain e0 e1 e2 fee where a: "rv_access_entries r = am_of_list [e0, e1, e2]" "rv_fee r = Some fee"
      "entry_wf e0" "entry_wf e1" "entry_wf e2"
    using review_ok_parts [OF assms] by metis
  from assms have m: "ae_mode e0 = WriteMode" "ae_mode e1 = WriteMode" "ae_mode e2 = WriteMode"
      "fp_fee_object (fee_payment_of_line fee) = ae_object_ref e0"
      "fp_asset_id (fee_payment_of_line fee) = AssetId (pol_fee_asset_id devnet_asset_transfer_policy)"
    and d: "distinct (map entry_id [e0, e1, e2])"
    by (auto simp: review_ok_def policy_matches_def review_transaction_def a(1,2) tx_wf_def
        manifest_wf_def)
  have e: "e0 = entry_of (ae_object_ref e0)" "e1 = entry_of (ae_object_ref e1)"
      "e2 = entry_of (ae_object_ref e2)"
    using m(1-3) by (simp_all add: entry_of_def)
  show thesis
  proof (rule that [of "ae_object_ref e0" "ae_object_ref e1" "ae_object_ref e2" fee])
    show "fee_payment_of_line fee = \<lparr>fp_asset_id = AssetId (pol_fee_asset_id devnet_asset_transfer_policy),
       fp_max_fee = fl_max_fee fee, fp_fee_object = ae_object_ref e0\<rparr>"
      using m(4,5) by (simp add: fee_payment_of_line_def)
  qed (use a e d in \<open>simp_all add: entry_wf_def entry_id_def\<close>)
qed

lemma devnet_review_ok_iff:
  "review_ok devnet_asset_transfer_policy r \<longleftrightarrow> (\<exists>t. devnet_transfer_wf t \<and> r = devnet_review t)"
proof
  assume ok: "review_ok devnet_asset_transfer_policy r"
  obtain r0 r1 r2 fee where a:
    "rv_access_entries r = am_of_list [entry_of r0, entry_of r1, entry_of r2]"
    "rv_fee r = Some fee"
    "fee_payment_of_line fee = \<lparr>fp_asset_id = AssetId (pol_fee_asset_id devnet_asset_transfer_policy),
       fp_max_fee = fl_max_fee fee, fp_fee_object = r0\<rparr>"
    "ref_wf r0" "ref_wf r1" "ref_wf r2" "distinct [or_id r0, or_id r1, or_id r2]"
    using devnet_review_parts [OF ok] .
  define t where "t = \<lparr>dt_sender = rv_sender r, dt_nonce = rv_nonce r, dt_amount = rv_amount r,
    dt_gas_limit = rv_gas_limit r, dt_source = r0, dt_second = r1, dt_third = r2,
    dt_max_fee = fl_max_fee fee\<rparr>"
  from ok have m: "rv_protocol_version r = 3" "rv_epoch r = 0" "rv_amount r \<noteq> 0"
      "\<lparr>or_id = rv_module_id r, or_version = rv_module_version r, or_digest = rv_module_digest r\<rparr>
         = policy_module_ref devnet_asset_transfer_policy"
      "bs_as_str (rv_chain_id r) = ascii ''sunrise-local-devnet''"
      "bs_as_str (rv_entrypoint r) = ascii ''transfer''"
      "bs_as_str (rv_message_type r) = ascii ''transaction-v1''"
      "rv_scheme r = Ed25519" "rv_amount_label r = ascii ''amount''" "addr_wf (rv_sender r)"
    by (simp_all add: review_ok_def policy_matches_def review_transaction_def tx_wf_def devnet_policy
        transaction_v1_message_type_def)
  have texts: "rv_chain_id r = bounded_text 64 ''sunrise-local-devnet''"
      "rv_entrypoint r = bounded_text 64 ''transfer''"
      "rv_message_type r = bounded_text 32 ''transaction-v1''"
    using review_ok_texts [OF ok] m(5-7) bstr.encode_inj devnet_strings devnet_strings_wf
    by (metis max_frame_chain_id_bytes_def max_entrypoint_bytes_def max_message_type_bytes_def)+
  have "fee = fee_line_of (fee_payment_of_line fee)" by simp
  with a m(1,2,8,9) m(4) [symmetric] texts have "r = devnet_review t"
    by (cases r) (simp add: devnet_review_def t_def)
  moreover have "devnet_transfer_wf t" using a(4-7) m(3,10) by (simp add: devnet_transfer_wf_def t_def)
  ultimately show "\<exists>t. devnet_transfer_wf t \<and> r = devnet_review t" by blast
qed (auto intro: devnet_review_ok)

end
