(* ===== verification/Derivation_Path.thy ===== *)
theory Derivation_Path
  imports Prelude
begin

text \<open>
  \<open>crates/sunrise-edge-ledger-core/src/path.rs\<close>: the wire form of the one provisional path
  \<open>m/44'/21333'/account'/0'/0'\<close>. \<open>decode_path\<close> keeps the order of the source's checks;
  \<open>path_codec\<close> shows that it accepts, for each 31-bit account, one byte string and no other.
\<close>

definition path_depth :: u8 where "path_depth = 5"

definition path_encoded_len :: usize where
  "path_encoded_len = 1 + unat path_depth * 4"

definition hardened_bit :: u32 where "hardened_bit = 0x80000000"
definition purpose_component :: u32 where "purpose_component = 44"
definition coin_type_component :: u32 where "coin_type_component = 21333"

datatype path_error =
    WrongLength usize
  | WrongDepth u8
  | NotHardened usize
  | WrongPurpose
  | WrongCoinType
  | WrongChange
  | WrongAddressIndex

record derivation_path =
  dp_account :: u32

abbreviation path_account :: "derivation_path \<Rightarrow> u32" where
  "path_account p \<equiv> dp_account p"

definition to_bip32_components :: "derivation_path \<Rightarrow> u32 list" where
  "to_bip32_components p =
     [purpose_component OR hardened_bit, coin_type_component OR hardened_bit,
      dp_account p OR hardened_bit, hardened_bit, hardened_bit]"

text \<open>The closure \<open>component\<close> of \<open>decode_path\<close>.\<close>

definition path_component :: "bytes \<Rightarrow> nat \<Rightarrow> path_error + u32" where
  "path_component bs index =
     (let start = 1 + index * 4; stop = start + 4
      in try_bind (ok_or (WrongLength (length bs)) (slice_get bs start stop)) (\<lambda>slice.
         try_bind (ok_or (WrongLength (length bs)) (to_array 4 slice)) (\<lambda>arr.
         Inr (from_be arr))))"

text \<open>The loop that looks for the first component without the hardened bit.\<close>

fun check_hardened :: "nat \<Rightarrow> u32 list \<Rightarrow> path_error + unit" where
  "check_hardened index [] = Inr ()"
| "check_hardened index (raw # rest) =
     (if raw AND hardened_bit = 0 then Inl (NotHardened index)
      else check_hardened (Suc index) rest)"

definition decode_path :: "bytes \<Rightarrow> path_error + derivation_path" where
  "decode_path bs =
     (if length bs \<noteq> path_encoded_len then Inl (WrongLength (length bs))
      else
        case bs of [] \<Rightarrow> Inl (WrongLength 0) | depth # _ \<Rightarrow>
        if depth \<noteq> path_depth then Inl (WrongDepth depth)
        else
          try_bind (path_component bs 0) (\<lambda>purpose.
          try_bind (path_component bs 1) (\<lambda>coin_type.
          try_bind (path_component bs 2) (\<lambda>account_raw.
          try_bind (path_component bs 3) (\<lambda>change.
          try_bind (path_component bs 4) (\<lambda>address_index.
          try_bind (check_hardened 0 [purpose, coin_type, account_raw, change, address_index]) (\<lambda>_.
          if purpose AND NOT hardened_bit \<noteq> purpose_component then Inl WrongPurpose
          else if coin_type AND NOT hardened_bit \<noteq> coin_type_component then Inl WrongCoinType
          else if change AND NOT hardened_bit \<noteq> 0 then Inl WrongChange
          else if address_index AND NOT hardened_bit \<noteq> 0 then Inl WrongAddressIndex
          else Inr \<lparr>dp_account = account_raw AND NOT hardened_bit\<rparr>)))))))"

section \<open>The accepted paths\<close>

definition encode_path :: "derivation_path \<Rightarrow> bytes" where
  "encode_path p = path_depth # concat (map (to_be 4) (to_bip32_components p))"

definition path_wf :: "derivation_path \<Rightarrow> bool" where
  "path_wf p \<longleftrightarrow> dp_account p AND hardened_bit = 0"

lemma bit_hardened: "bit hardened_bit n \<longleftrightarrow> n = 31"
proof -
  have "hardened_bit = 2 ^ 31" by (simp add: hardened_bit_def)
  then have "bit hardened_bit n \<longleftrightarrow> bit (2 ^ 31 :: u32) n" by simp
  also have "\<dots> \<longleftrightarrow> n = 31" unfolding bit_exp_iff by auto
  finally show ?thesis .
qed

lemmas hardened_bits = bit_and_iff bit_or_iff bit_not_iff bit_hardened

lemma hardened_clear: "(w :: u32) AND hardened_bit = 0 \<longleftrightarrow> \<not> bit w 31"
proof
  assume "w AND hardened_bit = 0"
  then have "\<not> bit (w AND hardened_bit) 31" by simp
  then show "\<not> bit w 31" by (simp add: hardened_bits)
next
  assume "\<not> bit w 31"
  then show "w AND hardened_bit = 0" by (intro bit_word_eqI) (auto simp: hardened_bits)
qed

lemma hardened_eq_iff:
  fixes w v :: u32
  shows "w AND hardened_bit \<noteq> 0 \<and> w AND NOT hardened_bit = v \<longleftrightarrow>
     w = v OR hardened_bit \<and> v AND hardened_bit = 0"
proof
  assume "w AND hardened_bit \<noteq> 0 \<and> w AND NOT hardened_bit = v"
  then have w: "bit w 31" and v: "v = w AND NOT hardened_bit" by (simp_all add: hardened_clear)
  then have "w = v OR hardened_bit" by (intro bit_word_eqI) (auto simp: hardened_bits)
  then show "w = v OR hardened_bit \<and> v AND hardened_bit = 0"
    by (simp add: v hardened_clear hardened_bits)
next
  assume a: "w = v OR hardened_bit \<and> v AND hardened_bit = 0"
  then have "\<not> bit v 31" by (simp add: hardened_clear)
  then have "(v OR hardened_bit) AND NOT hardened_bit = v"
    by (intro bit_word_eqI) (auto simp: hardened_bits)
  with a show "w AND hardened_bit \<noteq> 0 \<and> w AND NOT hardened_bit = v"
    by (metis bit_0_eq bit_hardened bot_apply bot_bool_def and.left_idem hardened_clear
        bit_or_iff)
qed

lemma path_wf_iff: "path_wf p \<longleftrightarrow> unat (dp_account p) < 2 ^ 31"
proof -
  let ?a = "dp_account p"
  have "\<not> bit ?a 31 \<longleftrightarrow> take_bit 31 ?a = ?a"
  proof
    assume n: "\<not> bit ?a 31"
    show "take_bit 31 ?a = ?a"
    proof (rule bit_word_eqI)
      fix k assume "k < LENGTH(32)"
      then have "k < 31 \<or> k = 31" by auto
      with n show "bit (take_bit 31 ?a) k = bit ?a k" by (auto simp: bit_take_bit_iff)
    qed
  next
    assume "take_bit 31 ?a = ?a"
    then show "\<not> bit ?a 31" by (metis bit_take_bit_iff less_irrefl)
  qed
  also have "take_bit 31 ?a = ?a \<longleftrightarrow> unat ?a < 2 ^ 31"
    by (simp add: word_unat_eq_iff unsigned_take_bit_eq take_bit_nat_eq_self_iff)
  finally show ?thesis by (simp add: path_wf_def hardened_clear)
qed

lemma check_hardened_Inr:
  "check_hardened k ws = Inr u \<longleftrightarrow> list_all (\<lambda>w. w AND hardened_bit \<noteq> 0) ws"
  by (induction ws arbitrary: k) auto

lemma path_components:
  assumes "length bs = path_encoded_len"
  obtains d w0 w1 w2 w3 w4 where
    "bs = d # to_be 4 w0 @ to_be 4 w1 @ to_be 4 w2 @ to_be 4 w3 @ to_be 4 w4"
    "path_component bs 0 = Inr w0" "path_component bs 1 = Inr w1" "path_component bs 2 = Inr w2"
    "path_component bs 3 = Inr w3" "path_component bs 4 = Inr w4"
proof -
  from assms obtain d r where bs: "bs = d # r" and r: "length r = 20"
    by (cases bs) (auto simp: path_encoded_len_def path_depth_def)
  let ?c = "\<lambda>i. take 4 (drop (4 * i) r)"
  let ?w = "\<lambda>i. from_be (?c i) :: u32"
  have c: "to_be 4 (?w i) = ?c i" if "i < 5" for i using that r by simp
  have comp: "path_component bs i = Inr (?w i)" if "i < 5" for i
    using that r by (simp add: path_component_def Let_def bs slice_get_def mult.commute)
  have "r = ?c 0 @ ?c 1 @ ?c 2 @ ?c 3 @ ?c 4"
    using r by (simp add: list_eq_iff_nth_eq nth_append)
  then have "bs = d # to_be 4 (?w 0) @ to_be 4 (?w 1) @ to_be 4 (?w 2) @ to_be 4 (?w 3)
      @ to_be 4 (?w 4)"
    by (simp only: bs c)
  then show ?thesis
    by (rule that) (rule comp, simp)+
qed

lemma to_be_inj [simp]: "to_be 4 (v :: u32) = to_be 4 w \<longleftrightarrow> v = w"
  by (metis from_to_be32)

lemma decode_path_iff: "decode_path bs = Inr p \<longleftrightarrow> path_wf p \<and> bs = encode_path p"
proof (cases "length bs = path_encoded_len")
  case False
  moreover have "length (encode_path p) = path_encoded_len"
    by (simp add: encode_path_def to_bip32_components_def path_encoded_len_def path_depth_def)
  ultimately show ?thesis by (auto simp: decode_path_def)
next
  case True
  then obtain d w0 w1 w2 w3 w4 where bs: "bs = d # to_be 4 w0 @ to_be 4 w1 @ to_be 4 w2
      @ to_be 4 w3 @ to_be 4 w4"
    and c: "path_component bs 0 = Inr w0" "path_component bs 1 = Inr w1"
      "path_component bs 2 = Inr w2" "path_component bs 3 = Inr w3" "path_component bs 4 = Inr w4"
    by (rule path_components)
  have "decode_path bs = Inr p \<longleftrightarrow> d = path_depth
      \<and> list_all (\<lambda>w. w AND hardened_bit \<noteq> 0) [w0, w1, w2, w3, w4]
      \<and> w0 AND NOT hardened_bit = purpose_component
      \<and> w1 AND NOT hardened_bit = coin_type_component
      \<and> w3 AND NOT hardened_bit = 0 \<and> w4 AND NOT hardened_bit = 0
      \<and> p = \<lparr>dp_account = w2 AND NOT hardened_bit\<rparr>"
    using True unfolding decode_path_def c
    by (auto simp: bs result_simps check_hardened_Inr simp del: check_hardened.simps)
  also have "\<dots> \<longleftrightarrow> d = path_depth
      \<and> (w0 AND hardened_bit \<noteq> 0 \<and> w0 AND NOT hardened_bit = purpose_component)
      \<and> (w1 AND hardened_bit \<noteq> 0 \<and> w1 AND NOT hardened_bit = coin_type_component)
      \<and> (w2 AND hardened_bit \<noteq> 0 \<and> w2 AND NOT hardened_bit = dp_account p)
      \<and> (w3 AND hardened_bit \<noteq> 0 \<and> w3 AND NOT hardened_bit = 0)
      \<and> (w4 AND hardened_bit \<noteq> 0 \<and> w4 AND NOT hardened_bit = 0)"
    by (cases p) auto
  also have "\<dots> \<longleftrightarrow> path_wf p \<and> bs = encode_path p"
    unfolding hardened_eq_iff bs
    by (auto simp: encode_path_def to_bip32_components_def path_wf_def purpose_component_def
        coin_type_component_def hardened_bit_def)
  finally show ?thesis .
qed

interpretation path_codec: codec encode_path decode_path path_wf
  by unfold_locales (simp_all add: decode_path_iff)

end
