(* ===== verification/Apdu.thy ===== *)
theory Apdu
  imports Review Derivation_Path
begin

text \<open>
  \<open>crates/sunrise-edge-ledger-core/src/apdu.rs\<close>: the signing session and the dispatcher.

  A \<open>&mut SigningSession\<close> is passed in and returned. The traits \<open>PublicKeyDeriver\<close> and
  \<open>FrameSigner\<close> are implemented by the device: a deriver is a function from its own state and a
  path to a key (or nothing) and its next state, a signer likewise from a path and a frame, so that
  which calls are made, and with what, is visible in the model. \<open>Apdu_Spec\<close> states the protocol without buffers and counters,
  \<open>Apdu_Refinement\<close> shows that this code implements it.
\<close>

type_synonym 'd deriver = "'d \<Rightarrow> derivation_path \<Rightarrow> bytes option \<times> 'd"
type_synonym 'g signer = "'g \<Rightarrow> derivation_path \<Rightarrow> bytes \<Rightarrow> bytes option \<times> 'g"

section \<open>Constants and messages\<close>

definition cla :: u8 where "cla = 0xE0"

definition ins_get_configuration :: u8 where "ins_get_configuration = 0x00"
definition ins_verify_public_key :: u8 where "ins_verify_public_key = 0x02"
definition ins_sign_transaction :: u8 where "ins_sign_transaction = 0x04"
definition ins_reset_signing :: u8 where "ins_reset_signing = 0x06"

definition sign_p1_first :: u8 where "sign_p1_first = 0x00"
definition sign_p1_continue :: u8 where "sign_p1_continue = 0x01"
definition sign_p1_last :: u8 where "sign_p1_last = 0x02"

definition max_frame_len :: usize where "max_frame_len = 4096"
definition max_transaction_payload_len :: usize where "max_transaction_payload_len = 3072"
definition max_chunk_len :: usize where "max_chunk_len = 230"
definition first_min_data_len :: usize where "first_min_data_len = 4 + path_encoded_len + 1"
definition first_max_data_len :: usize where
  "first_max_data_len = 4 + path_encoded_len + max_chunk_len"

datatype status_word =
    Success
  | UserRejected
  | InvalidState
  | InvalidData
  | ProfileBoundExceeded
  | InvalidP1P2
  | UnsupportedIns
  | UnsupportedCla
  | InternalFailure

definition sw_code :: "status_word \<Rightarrow> u16" where
  "sw_code s = (case s of
     Success \<Rightarrow> 0x9000
   | UserRejected \<Rightarrow> 0x6985
   | InvalidState \<Rightarrow> 0x6986
   | InvalidData \<Rightarrow> 0x6A80
   | ProfileBoundExceeded \<Rightarrow> 0x6A84
   | InvalidP1P2 \<Rightarrow> 0x6A86
   | UnsupportedIns \<Rightarrow> 0x6D00
   | UnsupportedCla \<Rightarrow> 0x6E00
   | InternalFailure \<Rightarrow> 0x6F00)"

record apdu_command =
  ac_cla :: u8
  ac_ins :: u8
  ac_p1 :: u8
  ac_p2 :: u8
  ac_data :: bytes

datatype immediate_response = EmptyResponse | Configuration bytes

record apdu_reply =
  rp_status :: status_word
  rp_response :: immediate_response

definition reply_success :: "immediate_response \<Rightarrow> apdu_reply" where
  "reply_success r = \<lparr>rp_status = Success, rp_response = r\<rparr>"

definition reply_failure :: "status_word \<Rightarrow> apdu_reply" where
  "reply_failure s = \<lparr>rp_status = s, rp_response = EmptyResponse\<rparr>"

datatype dispatch_outcome =
    Reply apdu_reply
  | ReviewPublicKey derivation_path bytes
  | ReviewTransaction clear_signing_review

section \<open>The signing session\<close>

datatype session_state = Idle | Collecting | AwaitingApproval

record signing_session =
  ss_state :: session_state
  ss_buffer :: bytes
  ss_buffered_len :: usize
  ss_declared_total :: u32
  ss_received_len :: u32
  ss_path :: "derivation_path option"

definition session_new :: signing_session where
  "session_new =
     \<lparr>ss_state = Idle, ss_buffer = replicate max_frame_len 0, ss_buffered_len = 0,
      ss_declared_total = 0, ss_received_len = 0, ss_path = None\<rparr>"

definition is_idle :: "signing_session \<Rightarrow> bool" where
  "is_idle s \<longleftrightarrow> ss_state s = Idle"

abbreviation session_default :: signing_session where
  "session_default \<equiv> session_new"

abbreviation session_path :: "signing_session \<Rightarrow> derivation_path option" where
  "session_path s \<equiv> ss_path s"

definition pending_frame :: "signing_session \<Rightarrow> bytes option" where
  "pending_frame s =
     (if ss_state s \<noteq> AwaitingApproval then None
      else slice_get (ss_buffer s) 0 (ss_buffered_len s))"

definition session_wipe :: "signing_session \<Rightarrow> signing_session" where
  "session_wipe s =
     (let buffer = (case slice_get (ss_buffer s) 0 (ss_buffered_len s) of
                      None \<Rightarrow> ss_buffer s
                    | Some used \<Rightarrow> copy_into (ss_buffer s) 0 (map (\<lambda>_. 0) used))
      in s\<lparr>ss_state := Idle, ss_buffer := buffer, ss_buffered_len := 0, ss_declared_total := 0,
           ss_received_len := 0, ss_path := None\<rparr>)"

definition session_reset :: "signing_session \<Rightarrow> signing_session" where
  "session_reset s = session_wipe s"

definition reject_review :: "signing_session \<Rightarrow> signing_session" where
  "reject_review s = session_wipe s"

definition approve_and_sign ::
    "'g signer \<Rightarrow> signing_session \<Rightarrow> 'g \<Rightarrow> (status_word + bytes) \<times> signing_session \<times> 'g" where
  "approve_and_sign sign s g =
     (if ss_state s \<noteq> AwaitingApproval then (Inl InvalidState, session_wipe s, g)
      else
        case ss_path s of
          None \<Rightarrow> (Inl InternalFailure, session_wipe s, g)
        | Some path \<Rightarrow>
            (case slice_get (ss_buffer s) 0 (ss_buffered_len s) of
               None \<Rightarrow> (Inl InternalFailure, session_wipe s, g)
             | Some frame \<Rightarrow>
                 (case sign g path frame of
                    (signature, g') \<Rightarrow>
                      (ok_or InternalFailure signature, session_wipe s, g'))))"

text \<open>\<open>append_chunk\<close> changes the session only on success.\<close>

definition append_chunk :: "signing_session \<Rightarrow> bytes \<Rightarrow> status_word + signing_session" where
  "append_chunk s chunk =
     try_bind (ok_or InternalFailure (u32_try_from_usize (length chunk))) (\<lambda>n.
     try_bind (ok_or InternalFailure (checked_add_u32 (ss_received_len s) n)) (\<lambda>new_received.
     if new_received > ss_declared_total s then Inl ProfileBoundExceeded
     else
       try_bind (ok_or InternalFailure (checked_add_usize (ss_buffered_len s) (length chunk)))
         (\<lambda>new_len.
       try_bind (ok_or InternalFailure (slice_get (ss_buffer s) (ss_buffered_len s) new_len)) (\<lambda>_.
       Inr (s\<lparr>ss_buffer := copy_into (ss_buffer s) (ss_buffered_len s) chunk,
              ss_buffered_len := new_len, ss_received_len := new_received\<rparr>)))))"

section \<open>The handlers\<close>

definition configuration_profile :: u16 where "configuration_profile = 1"
definition configuration_major :: u8 where "configuration_major = 0"
definition configuration_minor :: u8 where "configuration_minor = 1"
definition configuration_patch :: u8 where "configuration_patch = 0"
definition configuration_flags :: u8 where "configuration_flags = 0"

definition handle_get_configuration :: "u8 \<Rightarrow> u8 \<Rightarrow> bytes \<Rightarrow> dispatch_outcome" where
  "handle_get_configuration p1 p2 data =
     (if p1 \<noteq> 0x00 \<or> p2 \<noteq> 0x00 then Reply (reply_failure InvalidP1P2)
      else if data \<noteq> [] then Reply (reply_failure InvalidData)
      else Reply (reply_success (Configuration
             (to_be 2 configuration_profile
                @ [configuration_major, configuration_minor, configuration_patch,
                   configuration_flags]))))"

definition handle_verify_public_key ::
    "'d deriver \<Rightarrow> u8 \<Rightarrow> u8 \<Rightarrow> bytes \<Rightarrow> 'd \<Rightarrow> dispatch_outcome \<times> 'd" where
  "handle_verify_public_key derive p1 p2 data d =
     (if p1 \<noteq> 0x01 \<or> p2 \<noteq> 0x00 then (Reply (reply_failure InvalidP1P2), d)
      else
        case decode_path data of
          Inl _ \<Rightarrow> (Reply (reply_failure InvalidData), d)
        | Inr path \<Rightarrow>
            (case derive d path of
               (None, d') \<Rightarrow> (Reply (reply_failure InternalFailure), d')
             | (Some public_key, d') \<Rightarrow> (ReviewPublicKey path public_key, d')))"

definition handle_reset_signing ::
    "signing_session \<Rightarrow> u8 \<Rightarrow> u8 \<Rightarrow> bytes \<Rightarrow> dispatch_outcome \<times> signing_session" where
  "handle_reset_signing s p1 p2 data =
     (if p1 \<noteq> 0x00 \<or> p2 \<noteq> 0x00 then (Reply (reply_failure InvalidP1P2), s)
      else if data \<noteq> [] then (Reply (reply_failure InvalidData), s)
      else (Reply (reply_success EmptyResponse), session_reset s))"

text \<open>The recurring \<open>session.wipe(); return Reply(failure(status))\<close>.\<close>

definition fail_wiped :: "signing_session \<Rightarrow> status_word \<Rightarrow> dispatch_outcome \<times> signing_session" where
  "fail_wiped s status = (Reply (reply_failure status), session_wipe s)"

definition handle_first :: "signing_session \<Rightarrow> bytes \<Rightarrow> dispatch_outcome \<times> signing_session" where
  "handle_first s data =
     (if \<not> is_idle s then fail_wiped s InvalidState
      else if length data < first_min_data_len then fail_wiped s InvalidData
      else if length data > first_max_data_len then fail_wiped s ProfileBoundExceeded
      else
        case slice_get data 0 4 of None \<Rightarrow> fail_wiped s InvalidData | Some total_length_bytes \<Rightarrow>
        case to_array 4 total_length_bytes of
          None \<Rightarrow> fail_wiped s InvalidData | Some total_length_array \<Rightarrow>
        let total_length = from_be total_length_array :: u32 in
        case usize_try_from_u32 total_length of
          None \<Rightarrow> fail_wiped s ProfileBoundExceeded | Some total_length_usize \<Rightarrow>
        if total_length = 0 \<or> total_length_usize > max_frame_len
        then fail_wiped s ProfileBoundExceeded
        else
          case slice_get data 4 (4 + path_encoded_len) of
            None \<Rightarrow> fail_wiped s InvalidData | Some path_bytes \<Rightarrow>
          case decode_path path_bytes of Inl _ \<Rightarrow> fail_wiped s InvalidData | Inr path \<Rightarrow>
          case slice_from data (4 + path_encoded_len) of
            None \<Rightarrow> fail_wiped s InvalidData | Some chunk \<Rightarrow>
          if total_length_usize = length chunk then fail_wiped s InvalidData
          else
            let s' = s\<lparr>ss_declared_total := total_length, ss_path := Some path,
                       ss_state := Collecting\<rparr> in
            case append_chunk s' chunk of
              Inl status \<Rightarrow> fail_wiped s' status
            | Inr s'' \<Rightarrow> (Reply (reply_success EmptyResponse), s''))"

definition handle_continue :: "signing_session \<Rightarrow> bytes \<Rightarrow> dispatch_outcome \<times> signing_session" where
  "handle_continue s data =
     (if ss_state s \<noteq> Collecting then fail_wiped s InvalidState
      else if data = [] then fail_wiped s InvalidData
      else if length data > max_chunk_len then fail_wiped s ProfileBoundExceeded
      else
        case checked_sub_u32 (ss_declared_total s) (ss_received_len s) of
          None \<Rightarrow> fail_wiped s InternalFailure
        | Some remaining \<Rightarrow>
            if usize_try_from_u32 remaining = Some (length data) then fail_wiped s InvalidData
            else
              (case append_chunk s data of
                 Inl status \<Rightarrow> fail_wiped s status
               | Inr s' \<Rightarrow> (Reply (reply_success EmptyResponse), s')))"

definition handle_last ::
    "'d deriver \<Rightarrow> clear_signing_policy \<Rightarrow> signing_session \<Rightarrow> bytes \<Rightarrow> 'd
       \<Rightarrow> dispatch_outcome \<times> signing_session \<times> 'd" where
  "handle_last derive policy s data d =
     (let stop = (\<lambda>s status d. (Reply (reply_failure status), session_wipe s, d)) in
      if ss_state s \<noteq> Collecting then stop s InvalidState d
      else if data = [] then stop s InvalidData d
      else if length data > max_chunk_len then stop s ProfileBoundExceeded d
      else
        case append_chunk s data of Inl status \<Rightarrow> stop s status d | Inr s \<Rightarrow>
        if ss_received_len s \<noteq> ss_declared_total s then stop s InvalidData d
        else
          case slice_get (ss_buffer s) 0 (ss_buffered_len s) of
            None \<Rightarrow> stop s InternalFailure d | Some framed \<Rightarrow>
          case decode_signature_frame framed of Inl _ \<Rightarrow> stop s InvalidData d | Inr frame \<Rightarrow>
          if length (sf_payload frame) > max_transaction_payload_len
          then stop s ProfileBoundExceeded d
          else
            case decode_transaction_signable (sf_payload frame) of
              Inl _ \<Rightarrow> stop s InvalidData d | Inr tx \<Rightarrow>
            case session_path s of None \<Rightarrow> stop s InternalFailure d | Some path \<Rightarrow>
            case derive d path of
              (None, d) \<Rightarrow> stop s InternalFailure d
            | (Some derived_public_key, d) \<Rightarrow>
                if address_as_bytes (tx_sender tx) \<noteq> derived_public_key then stop s InvalidData d
                else
                  case build_review frame tx policy of
                    Inl _ \<Rightarrow> stop s InvalidData d
                  | Inr review \<Rightarrow>
                      (ReviewTransaction review, s\<lparr>ss_state := AwaitingApproval\<rparr>, d))"

definition handle_sign_transaction ::
    "'d deriver \<Rightarrow> clear_signing_policy \<Rightarrow> signing_session \<Rightarrow> u8 \<Rightarrow> u8 \<Rightarrow> bytes \<Rightarrow> 'd
       \<Rightarrow> dispatch_outcome \<times> signing_session \<times> 'd" where
  "handle_sign_transaction derive policy s p1 p2 data d =
     (if p2 \<noteq> 0x00 then (Reply (reply_failure InvalidP1P2), session_wipe s, d)
      else if p1 = sign_p1_first then (case handle_first s data of (out, s') \<Rightarrow> (out, s', d))
      else if p1 = sign_p1_continue then (case handle_continue s data of (out, s') \<Rightarrow> (out, s', d))
      else if p1 = sign_p1_last then handle_last derive policy s data d
      else (Reply (reply_failure InvalidP1P2), session_wipe s, d))"

section \<open>The dispatcher\<close>

definition conflicts_with_session :: "signing_session \<Rightarrow> u8 \<Rightarrow> bool" where
  "conflicts_with_session s ins =
     (if ins = ins_get_configuration \<or> ins = ins_verify_public_key then \<not> is_idle s
      else if ins = ins_sign_transaction then ss_state s = AwaitingApproval
      else False)"

definition dispatch_ins ::
    "'d deriver \<Rightarrow> clear_signing_policy \<Rightarrow> signing_session \<Rightarrow> apdu_command \<Rightarrow> 'd
       \<Rightarrow> dispatch_outcome \<times> signing_session \<times> 'd" where
  "dispatch_ins derive policy s c d =
     (if ac_ins c = ins_get_configuration
      then (handle_get_configuration (ac_p1 c) (ac_p2 c) (ac_data c), s, d)
      else if ac_ins c = ins_verify_public_key
      then (case handle_verify_public_key derive (ac_p1 c) (ac_p2 c) (ac_data c) d of
              (out, d') \<Rightarrow> (out, s, d'))
      else if ac_ins c = ins_sign_transaction
      then handle_sign_transaction derive policy s (ac_p1 c) (ac_p2 c) (ac_data c) d
      else if ac_ins c = ins_reset_signing
      then (case handle_reset_signing s (ac_p1 c) (ac_p2 c) (ac_data c) of (out, s') \<Rightarrow> (out, s', d))
      else (Reply (reply_failure UnsupportedIns), s, d))"

definition outcome_failed :: "dispatch_outcome \<Rightarrow> bool" where
  "outcome_failed out = (case out of
     Reply r \<Rightarrow> rp_status r \<in> {UserRejected, InvalidState, InvalidData, ProfileBoundExceeded,
                 InvalidP1P2, UnsupportedIns, UnsupportedCla, InternalFailure}
   | _ \<Rightarrow> False)"

definition dispatch ::
    "'d deriver \<Rightarrow> clear_signing_policy \<Rightarrow> signing_session \<Rightarrow> apdu_command \<Rightarrow> 'd
       \<Rightarrow> dispatch_outcome \<times> signing_session \<times> 'd" where
  "dispatch derive policy s c d =
     (if ac_cla c \<noteq> cla then (Reply (reply_failure UnsupportedCla), session_wipe s, d)
      else if conflicts_with_session s (ac_ins c)
      then (Reply (reply_failure InvalidState), session_wipe s, d)
      else
        case dispatch_ins derive policy s c d of (out, s', d') \<Rightarrow>
          (out, if outcome_failed out then session_wipe s' else s', d'))"

end
