(* ===== verification/Status.thy ===== *)
theory Status
  imports Apdu
begin

text \<open>
  \<open>crates/sunrise-edge-ledger-app/src/status.rs\<close>: the status words of the application. The wire
  code of the application's word is that of the core's word it is converted from.
\<close>

datatype app_sw =
    SwOk
  | SwDeny
  | SwInvalidState
  | SwInvalidData
  | SwProfileBoundExceeded
  | SwWrongP1P2
  | SwInsNotSupported
  | SwClaNotSupported
  | SwInternalFailure

definition app_sw_code :: "app_sw \<Rightarrow> u16" where
  "app_sw_code sw = (case sw of
     SwOk \<Rightarrow> 0x9000
   | SwDeny \<Rightarrow> 0x6985
   | SwInvalidState \<Rightarrow> 0x6986
   | SwInvalidData \<Rightarrow> 0x6A80
   | SwProfileBoundExceeded \<Rightarrow> 0x6A84
   | SwWrongP1P2 \<Rightarrow> 0x6A86
   | SwInsNotSupported \<Rightarrow> 0x6D00
   | SwClaNotSupported \<Rightarrow> 0x6E00
   | SwInternalFailure \<Rightarrow> 0x6F00)"

definition app_sw_from :: "status_word \<Rightarrow> app_sw" where
  "app_sw_from sw = (case sw of
     Success \<Rightarrow> SwOk
   | UserRejected \<Rightarrow> SwDeny
   | InvalidState \<Rightarrow> SwInvalidState
   | InvalidData \<Rightarrow> SwInvalidData
   | ProfileBoundExceeded \<Rightarrow> SwProfileBoundExceeded
   | InvalidP1P2 \<Rightarrow> SwWrongP1P2
   | UnsupportedIns \<Rightarrow> SwInsNotSupported
   | UnsupportedCla \<Rightarrow> SwClaNotSupported
   | InternalFailure \<Rightarrow> SwInternalFailure)"

text \<open>\<open>From<AppSW> for Reply\<close>: the SDK's \<open>Reply\<close> is the code.\<close>

definition reply_from :: "app_sw \<Rightarrow> u16" where
  "reply_from sw = app_sw_code sw"

lemma reply_from_code [simp]: "reply_from sw = app_sw_code sw"
  by (simp add: reply_from_def)

lemma app_sw_from_code: "app_sw_code (app_sw_from s) = sw_code s"
  by (cases s) (simp_all add: app_sw_code_def app_sw_from_def sw_code_def)

lemma sw_code_inj: "sw_code s = sw_code t \<longleftrightarrow> s = t"
  by (cases s; cases t) (simp_all add: sw_code_def)

lemma app_sw_code_inj: "app_sw_code s = app_sw_code t \<longleftrightarrow> s = t"
  by (cases s; cases t) (simp_all add: app_sw_code_def)

end
