(* ===== verification/App_UI.thy ===== *)
theory App_UI
  imports Review_Facts Status
begin

text \<open>
  \<open>crates/sunrise-edge-ledger-app/src/app_ui.rs\<close>: the home screen and the two review screens. What
  the SDK draws is the text passed to its builders and to \<open>show\<close>, recorded as a screen; the answer
  of the user to it is a parameter, a function of the text reviewed. \<open>None\<close> is a panic. The glyph of
  a screen is an image chosen for the device at build time and is left out.
\<close>

datatype status_type = AddressStatus | TransactionStatus

datatype screen =
    AddressReview bytes bytes
  | TransactionReview "bytes \<times> bytes \<times> bytes" "(bytes \<times> bytes) list"
  | ReviewStatus status_type bool
  | HomeAndSettings bytes bytes bytes

text \<open>\<open>env!("CARGO_PKG_VERSION")\<close>\<close>

definition cargo_pkg_version :: bytes where
  "cargo_pkg_version = ascii ''0.1.0''"

definition ui_menu_main :: screen where
  "ui_menu_main =
     HomeAndSettings (ascii ''Sunrise Edge'') cargo_pkg_version (ascii ''Sunrise Layer'')"

definition review_title :: bytes where
  "review_title = ascii ''Verify Sunrise address''"

definition review_titles :: "bytes \<times> bytes \<times> bytes" where
  "review_titles =
     (ascii (''Review transaction'' @ [CHR 0x0A] @ ''Sunrise Edge''), ascii [],
      ascii (''Sign transaction'' @ [CHR 0x0A] @ ''Sunrise Edge''))"

definition max_fields :: usize where "max_fields = 32"

definition ui_display_public_key ::
    "(bytes \<Rightarrow> bool) \<Rightarrow> bytes \<Rightarrow> ((app_sw + bool) \<times> screen list) option" where
  "ui_display_public_key confirm public_key =
     (case bf_try_from_hex public_key of
        None \<Rightarrow> None
      | Some (Inl _) \<Rightarrow> Some (Inl SwInternalFailure, [])
      | Some (Inr hex_addr) \<Rightarrow>
          (case bf_as_str hex_addr of
             None \<Rightarrow> None
           | Some (Inl _) \<Rightarrow> Some (Inl SwInternalFailure, [])
           | Some (Inr address) \<Rightarrow> Some (Inr (confirm address), [AddressReview review_title address])))"

text \<open>The loop that pushes the facts into an \<open>ArrayVec\<close> of capacity 32.\<close>

fun push_fields ::
    "review_fact list \<Rightarrow> (bytes \<times> bytes) list \<Rightarrow> (app_sw + (bytes \<times> bytes) list) option" where
  "push_fields [] shown = Some (Inr shown)"
| "push_fields (item # facts) shown =
     (case bf_as_str (rf_value item) of
        None \<Rightarrow> None
      | Some (Inl _) \<Rightarrow> Some (Inl SwInternalFailure)
      | Some (Inr v) \<Rightarrow>
          if length shown < max_fields then push_fields facts (shown @ [(rf_name item, v)])
          else Some (Inl SwInternalFailure))"

definition ui_display_transaction ::
    "((bytes \<times> bytes) list \<Rightarrow> bool) \<Rightarrow> clear_signing_review
       \<Rightarrow> ((app_sw + bool) \<times> screen list) option" where
  "ui_display_transaction approve r =
     (case format_review_facts r of
        None \<Rightarrow> None
      | Some (Inl _) \<Rightarrow> Some (Inl SwInternalFailure, [])
      | Some (Inr facts) \<Rightarrow>
          (case push_fields facts [] of
             None \<Rightarrow> None
           | Some (Inl sw) \<Rightarrow> Some (Inl sw, [])
           | Some (Inr shown) \<Rightarrow> Some (Inr (approve shown), [TransactionReview review_titles shown])))"

section \<open>What is shown\<close>

lemma hex_digit_ascii: "n < 16 \<Longrightarrow> hex_digit n < 0x80"
  by (simp add: word_less_nat_alt unat_hex_digit)

lemma display_bytes_ascii: "str_is_ascii (display_bytes bs)"
  by (induction bs)
    (simp_all add: str_is_ascii_def display_bytes_def fmt_02x_def hex_digit_ascii
      less_mult_imp_div_less)

lemma display_digest_ascii: "str_is_ascii (display_digest d)"
  using label_ascii(5) display_bytes_ascii
  by (simp add: str_is_ascii_def display_digest_def display_hash_def ascii_def)

lemma show_public_key:
  assumes "length key = 32"
  shows "ui_display_public_key confirm key
    = Some (Inr (confirm (display_bytes key)), [AddressReview review_title (display_bytes key)])"
  using assms
  by (simp add: ui_display_public_key_def try_from_hex_eq max_fact_len_def as_str_fact_of
      display_bytes_ascii)

lemma push_fields_ok:
  assumes "length shown + length ls \<le> 32"
    "\<forall>l \<in> set ls. str_is_ascii (snd l) \<and> length (snd l) \<le> max_fact_len"
  shows "push_fields (map line_fact ls) shown = Some (Inr (shown @ ls))"
  using assms
  by (induction ls arbitrary: shown) (auto simp: line_fact_def as_str_fact_of max_fields_def)

lemma decimal_u64_short: "length (decimal (unat (w :: u64))) \<le> 96"
  using decimal_length [of w] by linarith

lemma decimal_u32_short: "length (decimal (unat (w :: u32))) \<le> 96"
proof -
  have "unat w < 10 ^ 20" using unsigned_less [of w, where 'a = nat] by simp
  from low_digits_length [OF this] show ?thesis by (simp add: decimal_def)
qed

lemma display_digest_short: "digest_wf d \<Longrightarrow> length (display_digest d) \<le> 96"
  using hash_label_length [of "dg_algorithm d"] by (simp add: display_digest_def display_hash_def digest_wf_def)

lemma review_lines_ascii:
  assumes ok: "review_ok p r" and p: "policy_ascii p"
  shows "length (review_lines r) = 32"
    and "\<forall>l \<in> set (review_lines r). str_is_ascii (snd l) \<and> length (snd l) \<le> max_fact_len"
proof -
  obtain e0 e1 e2 fee where parts:
    "rv_access_entries r = am_of_list [e0, e1, e2]" "rv_fee r = Some fee"
    "entry_wf e0" "entry_wf e1" "entry_wf e2" "fee_wf (fee_payment_of_line fee)"
    "addr_wf (rv_sender r)" "oid_wf (rv_module_id r)" "digest_wf (rv_module_digest r)"
    "bs_as_str (rv_chain_id r) = pol_chain_id p" "bs_as_str (rv_entrypoint r) = pol_entrypoint p"
    "length (bs_as_str (rv_chain_id r)) \<le> 64" "length (bs_as_str (rv_entrypoint r)) \<le> 64"
    "bs_as_str (rv_message_type r) = transaction_v1_message_type" "rv_scheme r = Ed25519"
    using review_ok_parts [OF ok] .
  note wf = parts(3-9) [unfolded entry_wf_def ref_wf_def fee_wf_def fee_payment_of_line_def
      oid_wf_def asset_wf_def addr_wf_def, simplified]
  let ?line = "\<lambda>e. \<lparr>al_mode = ae_mode e, al_object_id = or_id (ae_object_ref e),
      al_version = or_version (ae_object_ref e), al_digest = or_digest (ae_object_ref e)\<rparr>"
  have lines: "rv_access_lines r = [?line e0, ?line e1, ?line e2]"
    by (simp add: rv_access_lines_def parts)
  have texts: "length (pol_chain_id p) \<le> 96" "length (pol_entrypoint p) \<le> 96"
      "length transaction_v1_message_type \<le> 96" "length (ascii ''present'') \<le> 96"
      "str_is_ascii (pol_chain_id p)" "str_is_ascii (pol_entrypoint p)"
      "length (decimal (Suc (Suc (Suc 0)))) \<le> 96"
    using parts(10-13) p
    by (simp_all add: transaction_v1_message_type_def policy_ascii_def decimal_def
        low_digits.simps)
  show "length (review_lines r) = 32"
    unfolding review_lines_def lines parts(2)
    by (simp add: header_line_texts_def access_line_texts_def fee_line_texts_def)
  show "\<forall>l \<in> set (review_lines r). str_is_ascii (snd l) \<and> length (snd l) \<le> max_fact_len"
    unfolding review_lines_def lines parts(2)
    by (simp add: header_line_texts_def access_line_texts_def fee_line_texts_def lines
        display_object_id_def display_asset_id_def display_address_def max_fact_len_def
        parts wf texts label_ascii display_bytes_ascii display_digest_ascii decimal_ascii
        decimal_u64_short decimal_u32_short display_digest_short)
qed

lemma show_transaction:
  assumes "review_ok p r" "policy_ascii p"
  shows "ui_display_transaction approve r
    = Some (Inr (approve (review_lines r)), [TransactionReview review_titles (review_lines r)])"
  using format_review_ok [OF assms] push_fields_ok [of "[]" "review_lines r"]
    review_lines_ascii [OF assms]
  by (simp add: ui_display_transaction_def)

lemma devnet_policy_ascii: "policy_ascii devnet_asset_transfer_policy"
  by (simp add: policy_ascii_def devnet_asset_transfer_policy_def str_is_ascii_def ascii_def)

end
