(* ===== verification/Compression.thy ===== *)
theory Compression
  imports Prelude
begin

text \<open>
  \<open>crates/sunrise-edge-ledger-app/src/compression.rs\<close>: from the uncompressed point of the SDK to
  the RFC 8032 key. The argument has the type \<open>[u8; 65]\<close>, so every index is in range; the model
  states this as the length of the list. \<open>compress_iff\<close> gives the result as a number: it is the
  little-endian \<open>Y\<close>, below the field prime, with the parity of \<open>X\<close> in bit 255.
\<close>

datatype compression_error = InvalidPointHeader u8 | FieldOverflow

text \<open>The loop that reverses \<open>Y\<close>.\<close>

function reverse_loop :: "nat \<Rightarrow> bytes \<Rightarrow> bytes \<Rightarrow> bytes" where
  "reverse_loop i y_bytes compressed =
     (if i < 32 then reverse_loop (i + 1) y_bytes (compressed[i := y_bytes ! (31 - i)])
      else compressed)"
  by pat_completeness auto
termination by (relation "measure (\<lambda>(i, _, _). 32 - i)") auto

declare reverse_loop.simps [simp del]

text \<open>The loop that looks for a byte below \<open>0xFF\<close>, from index \<open>b\<close> down to 1.\<close>

fun overflow_loop :: "nat \<Rightarrow> bytes \<Rightarrow> bool" where
  "overflow_loop 0 compressed = True"
| "overflow_loop (Suc b) compressed =
     (if compressed ! Suc b \<noteq> 0xFF then False
      else if Suc b = 1 then True
      else overflow_loop b compressed)"

definition compress_ed25519_point :: "bytes \<Rightarrow> compression_error + bytes" where
  "compress_ed25519_point raw =
     (if raw ! 0 \<noteq> 0x04 then Inl (InvalidPointHeader (raw ! 0))
      else
        let x_bytes = take 32 (drop 1 raw);
            y_bytes = take 32 (drop 33 raw);
            compressed = reverse_loop 0 y_bytes (replicate 32 0)
        in if compressed ! 31 AND 0x80 \<noteq> 0 then Inl FieldOverflow
           else if compressed ! 31 = 0x7F \<and> overflow_loop 30 compressed \<and> compressed ! 0 \<ge> 0xED
             then Inl FieldOverflow
           else
             let x_is_odd = (x_bytes ! 31 AND 1) \<noteq> 0
             in Inr (if x_is_odd then compressed[31 := compressed ! 31 OR 0x80] else compressed))"

section \<open>Coordinates\<close>

definition field_prime :: nat where "field_prime = 2 ^ 255 - 19"

definition point_x :: "bytes \<Rightarrow> nat" where "point_x raw = le_nat (rev (take 32 (drop 1 raw)))"
definition point_y :: "bytes \<Rightarrow> nat" where "point_y raw = le_nat (rev (take 32 (drop 33 raw)))"

lemma le_nat_append: "le_nat (xs @ ys) = le_nat xs + 256 ^ length xs * le_nat ys"
  by (induction xs) (simp_all add: algebra_simps)

lemma le_nat_max: "le_nat bs = 256 ^ length bs - 1 \<longleftrightarrow> (\<forall>b\<in>set bs. b = 0xFF)"
proof (induction bs)
  case (Cons b bs)
  have p: "0 < (256::nat) ^ length bs" by simp
  have "unat b + 256 * le_nat bs = 256 * 256 ^ length bs - 1
      \<longleftrightarrow> unat b = 255 \<and> le_nat bs = 256 ^ length bs - 1"
    using byte_less [of b] le_nat_less [of bs] p by linarith
  moreover have "unat b = 255 \<longleftrightarrow> b = 0xFF" by (simp add: word_unat_eq_iff)
  ultimately show ?case using Cons.IH by simp
qed simp

lemma reverse_loop_rev:
  assumes "length y = 32" "length c = 32" "i \<le> 32"
  shows "reverse_loop i y c = take i c @ drop i (rev y)"
  using assms
proof (induction i y c rule: reverse_loop.induct)
  case (1 i y c)
  show ?case
  proof (cases "i < 32")
    case True
    then have "take (i + 1) (c[i := y ! (31 - i)]) = take i c @ [rev y ! i]"
      using 1 by (simp add: take_Suc_conv_app_nth rev_nth)
    moreover have "[rev y ! i] @ drop (i + 1) (rev y) = drop i (rev y)"
      using True 1 by (simp add: Cons_nth_drop_Suc)
    ultimately show ?thesis
      using True 1 by (subst reverse_loop.simps) simp
  next
    case False
    with 1 show ?thesis by (subst reverse_loop.simps) simp
  qed
qed

lemma overflow_loop_iff:
  "overflow_loop n c \<longleftrightarrow> (\<forall>i. 1 \<le> i \<and> i \<le> n \<longrightarrow> c ! i = 0xFF)"
proof (induction n)
  case (Suc n)
  then show ?case
    by (cases "n = 0") (auto simp: le_Suc_eq)
qed simp

lemma high_bit: "(b :: u8) AND 0x80 \<noteq> 0 \<longleftrightarrow> 128 \<le> unat b"
proof -
  have e: "bit (0x80 :: u8) n \<longleftrightarrow> n = 7" for n
    using bit_exp_iff [of 7 n, where 'a = u8] by (auto dest: bit_imp_le_length)
  have "b AND 0x80 \<noteq> 0 \<longleftrightarrow> bit b 7"
  proof
    assume "bit b 7"
    then have "bit (b AND 0x80) 7" by (simp add: bit_and_iff e)
    then show "b AND 0x80 \<noteq> 0" by auto
  next
    assume nz: "b AND 0x80 \<noteq> 0"
    show "bit b 7"
    proof (rule ccontr)
      assume "\<not> bit b 7"
      then have "b AND 0x80 = 0" by (intro bit_word_eqI) (metis bit_and_iff e bit_0_eq bot_apply bot_bool_def)
      with nz show False ..
    qed
  qed
  also have "bit b 7 \<longleftrightarrow> bit (unat b) 7" by (simp add: bit_unsigned_iff)
  also have "\<dots> \<longleftrightarrow> odd (unat b div 128)" by (simp add: bit_iff_odd)
  also have "\<dots> \<longleftrightarrow> 128 \<le> unat b"
  proof -
    have "unat b div 128 = (if 128 \<le> unat b then 1 else 0)"
      using byte_less [of b] div_less [of "unat b" 128]
      by (cases "128 \<le> unat b") (auto simp del: byte_less intro: div_nat_eqI)
    then show ?thesis by simp
  qed
  finally show ?thesis .
qed

lemma low_bit: "(b :: u8) AND 1 \<noteq> 0 \<longleftrightarrow> odd (unat b)"
  by (simp add: and_one_eq word_unat_eq_iff unat_mod odd_iff_mod_2_eq_one)

lemma set_high_bit: "unat b < 128 \<Longrightarrow> unat (b OR 0x80 :: u8) = unat b + 128"
proof -
  assume b: "unat b < 128"
  then have z: "b AND 0x80 = 0" using high_bit [of b] by force
  then have "b OR 0x80 = b + 0x80" using disjunctive_add_eq_or [of b "0x80"] by simp
  with b show ?thesis by (simp add: unat_word_ariths)
qed

section \<open>The result as a number\<close>

lemma split32:
  assumes "length (c :: bytes) = 32"
  shows "c = c ! 0 # take 30 (drop 1 c) @ [c ! 31]"
proof (rule nth_equalityI)
  fix i assume "i < length c"
  with assms consider "i = 0" | "0 < i" "i < 31" | "i = 31" by linarith
  then show "c ! i = (c ! 0 # take 30 (drop 1 c) @ [c ! 31]) ! i"
    using assms by cases (auto simp: nth_Cons' nth_append)
qed (use assms in simp)

lemma le_nat_split32:
  assumes "length c = 32"
  shows "le_nat c = unat (c ! 0) + 256 * le_nat (take 30 (drop 1 c)) + 2 ^ 248 * unat (c ! 31)"
proof -
  have "le_nat c = le_nat (c ! 0 # take 30 (drop 1 c) @ [c ! 31])" using split32 [OF assms] by simp
  also have "\<dots> = unat (c ! 0) + 256 * le_nat (take 30 (drop 1 c)) + 2 ^ 248 * unat (c ! 31)"
    using assms by (simp add: le_nat_append)
  finally show ?thesis .
qed

lemma overflow_middle:
  assumes "length c = 32"
  shows "overflow_loop 30 c \<longleftrightarrow> le_nat (take 30 (drop 1 c)) = 2 ^ 240 - 1"
proof -
  let ?mid = "take 30 (drop 1 c)"
  have "overflow_loop 30 c \<longleftrightarrow> (\<forall>j < 30. c ! Suc j = 0xFF)"
  proof
    assume all: "\<forall>j < 30. c ! Suc j = 0xFF"
    show "overflow_loop 30 c"
      unfolding overflow_loop_iff
    proof (intro allI impI)
      fix i assume "1 \<le> i \<and> i \<le> (30 :: nat)"
      then have "i - 1 < 30" "Suc (i - 1) = i" by auto
      with all show "c ! i = 0xFF" by metis
    qed
  qed (simp add: overflow_loop_iff)
  also have "\<dots> \<longleftrightarrow> (\<forall>b \<in> set ?mid. b = 0xFF)"
    using assms by (simp add: all_set_conv_all_nth)
  also have "\<dots> \<longleftrightarrow> le_nat ?mid = 256 ^ 30 - 1"
    using le_nat_max [of ?mid] assms by simp
  also have "(256 :: nat) ^ 30 = 2 ^ 240" by simp
  finally show ?thesis .
qed

lemma prime_bound:
  fixes c0 m c31 :: nat
  assumes "c0 < 256" "m < 2 ^ 240" "c31 < 256"
  shows "128 \<le> c31 \<or> (c31 = 127 \<and> m = 2 ^ 240 - 1 \<and> 237 \<le> c0)
    \<longleftrightarrow> 2 ^ 255 - 19 \<le> c0 + 256 * m + 2 ^ 248 * c31"
proof -
  consider "128 \<le> c31" | "c31 = 127" | "c31 \<le> 126" by linarith
  then show ?thesis
  proof cases
    case 2
    then show ?thesis using assms by simp linarith
  qed (use assms in simp_all)
qed

lemma reject_iff:
  assumes "length c = 32"
  shows "c ! 31 AND 0x80 \<noteq> 0 \<or> (c ! 31 = 0x7F \<and> overflow_loop 30 c \<and> c ! 0 \<ge> 0xED)
    \<longleftrightarrow> field_prime \<le> le_nat c"
proof -
  let ?m = "le_nat (take 30 (drop 1 c))"
  have m: "?m < 2 ^ 240" using le_nat_less [of "take 30 (drop 1 c)"] assms by simp
  have "c ! 31 = 0x7F \<longleftrightarrow> unat (c ! 31) = 127" "c ! 0 \<ge> 0xED \<longleftrightarrow> 237 \<le> unat (c ! 0)"
    by (simp_all add: word_unat_eq_iff word_le_nat_alt)
  moreover have "unat (c ! 0) < 256" "unat (c ! 31) < 256" by simp_all
  ultimately show ?thesis
    using prime_bound [of "unat (c ! 0)" ?m "unat (c ! 31)"] m
    unfolding high_bit overflow_middle [OF assms] le_nat_split32 [OF assms] field_prime_def
    by (simp only: simp_thms)
qed

lemma le_nat_set_high:
  assumes "length c = 32" "unat (c ! 31) < 128"
  shows "le_nat (c[31 := c ! 31 OR 0x80]) = le_nat c + 2 ^ 255"
  using le_nat_split32 [OF assms(1)] le_nat_split32 [of "c[31 := c ! 31 OR 0x80]"] assms
  by (simp add: set_high_bit drop_update_swap)

lemma le_nat_inj: "length xs = length ys \<Longrightarrow> le_nat xs = le_nat ys \<Longrightarrow> xs = ys"
  by (metis nat_le_le_nat)

lemma mod_split: "(a + 256 * m + 2 ^ 248 * b) mod 2 = (a :: nat) mod 2"
proof -
  have "a + 256 * m + 2 ^ 248 * b = a + 2 * (128 * m + 2 ^ 247 * b)" by simp
  then show ?thesis by (simp only: mod_mult_self2)
qed

lemma point_x_parity:
  assumes "length raw = 65"
  shows "point_x raw mod 2 = unat (take 32 (drop 1 raw) ! 31) mod 2"
proof -
  define x where "x = take 32 (drop 1 raw)"
  then have l: "length x = 32" using assms by simp
  then have "rev x ! 0 = x ! 31" by (simp add: rev_nth)
  with l le_nat_split32 [of "rev x"]
  have "le_nat (rev x) = unat (x ! 31) + 256 * le_nat (take 30 (drop 1 (rev x)))
      + 2 ^ 248 * unat (rev x ! 31)" by simp
  also have "\<dots> mod 2 = unat (x ! 31) mod 2" by (rule mod_split)
  finally show ?thesis by (simp add: point_x_def x_def)
qed

lemma compress_alt:
  assumes "length raw = 65" "raw ! 0 = 4"
  shows "compress_ed25519_point raw =
    (let y = rev (take 32 (drop 33 raw)) in
     if field_prime \<le> le_nat y then Inl FieldOverflow
     else Inr (if odd (point_x raw) then y[31 := y ! 31 OR 0x80] else y))"
proof -
  define y where "y = rev (take 32 (drop 33 raw))"
  have l: "length y = 32" using assms by (simp add: y_def)
  have loop: "reverse_loop 0 (take 32 (drop 33 raw)) (replicate 32 0) = y"
    using assms by (subst reverse_loop_rev) (simp_all add: y_def)
  have odd: "take 32 (drop 1 raw) ! 31 AND 1 \<noteq> 0 \<longleftrightarrow> odd (point_x raw)"
    using point_x_parity [OF assms(1)] unfolding low_bit odd_iff_mod_2_eq_one by metis
  show ?thesis
    unfolding compress_ed25519_point_def Let_def loop odd y_def [symmetric]
      reject_iff [OF l, symmetric]
    using assms(2) by (simp only: if_True if_False simp_thms split: if_split) blast
qed

lemma compress_ok:
  assumes raw: "length raw = 65" "raw ! 0 = 4" "point_y raw < field_prime"
  obtains c where "compress_ed25519_point raw = Inr c" "length c = 32"
    "le_nat c = point_y raw + 2 ^ 255 * (point_x raw mod 2)"
proof -
  define y where "y = rev (take 32 (drop 33 raw))"
  have l: "length y = 32" and ny: "le_nat y = point_y raw"
    using raw by (simp_all add: y_def point_y_def)
  then have "unat (y ! 31) < 128"
    using raw(3) reject_iff [OF l] high_bit [of "y ! 31"] by auto
  then have "le_nat (if odd (point_x raw) then y[31 := y ! 31 OR 0x80] else y)
      = point_y raw + 2 ^ 255 * (point_x raw mod 2)"
    using le_nat_set_high [OF l] ny by (simp add: odd_iff_mod_2_eq_one)
  moreover have "compress_ed25519_point raw
      = Inr (if odd (point_x raw) then y[31 := y ! 31 OR 0x80] else y)"
    using raw(3) ny unfolding compress_alt [OF raw(1,2)] Let_def y_def [symmetric] by simp
  ultimately show thesis using that l by simp
qed

lemma compress_overflow:
  assumes "length raw = 65" "raw ! 0 = 4" "field_prime \<le> point_y raw"
  shows "compress_ed25519_point raw = Inl FieldOverflow"
  using assms by (simp add: compress_alt point_y_def)

lemma compress_iff:
  assumes "length raw = 65"
  shows "compress_ed25519_point raw = Inr c \<longleftrightarrow>
     raw ! 0 = 4 \<and> point_y raw < field_prime \<and> length c = 32
     \<and> le_nat c = point_y raw + 2 ^ 255 * (point_x raw mod 2)"
proof (cases "raw ! 0 = 4 \<and> point_y raw < field_prime")
  case True
  with assms obtain k where "compress_ed25519_point raw = Inr k" "length k = 32"
      "le_nat k = point_y raw + 2 ^ 255 * (point_x raw mod 2)"
    using compress_ok by blast
  with True le_nat_inj [of c k] show ?thesis by auto
next
  case False
  then consider "raw ! 0 \<noteq> 4" | "raw ! 0 = 4" "field_prime \<le> point_y raw" by fastforce
  then show ?thesis
  proof cases
    case 1
    then show ?thesis by (simp add: compress_ed25519_point_def)
  next
    case 2
    with compress_overflow [OF assms] False show ?thesis by simp
  qed
qed

end
