(* ===== verification/Apdu_Spec.thy ===== *)
theory Apdu_Spec
  imports Apdu
begin

text \<open>
  The abstract protocol of the signing session: what it remembers is nothing, or a declared total,
  a path and the bytes received so far, or a path and a complete validated frame. There is no
  fixed buffer, no counter and no zeroing; \<open>conc\<close> gives the one concrete session that
  represents an abstract one. \<open>abs_dispatch\<close> is the APDU contract over this state.
\<close>

datatype abs_session =
    AIdle
  | ACollecting nat derivation_path bytes
  | AAwaiting derivation_path bytes

definition stored :: "session_state \<Rightarrow> nat \<Rightarrow> derivation_path \<Rightarrow> bytes \<Rightarrow> signing_session" where
  "stored st n path bs =
     \<lparr>ss_state = st, ss_buffer = bs @ replicate (max_frame_len - length bs) 0,
      ss_buffered_len = length bs, ss_declared_total = of_nat n,
      ss_received_len = of_nat (length bs), ss_path = Some path\<rparr>"

fun conc :: "abs_session \<Rightarrow> signing_session" where
  "conc AIdle = session_new"
| "conc (ACollecting n path bs) = stored Collecting n path bs"
| "conc (AAwaiting path bs) = stored AwaitingApproval (length bs) path bs"

fun abs_ok :: "abs_session \<Rightarrow> bool" where
  "abs_ok AIdle \<longleftrightarrow> True"
| "abs_ok (ACollecting n path bs) \<longleftrightarrow>
     path_wf path \<and> 0 < length bs \<and> length bs < n \<and> n \<le> max_frame_len"
| "abs_ok (AAwaiting path bs) \<longleftrightarrow> path_wf path \<and> 0 < length bs \<and> length bs \<le> max_frame_len"

definition failed :: "status_word \<Rightarrow> dispatch_outcome" where
  "failed status = Reply (reply_failure status)"

definition accepted :: dispatch_outcome where
  "accepted = Reply (reply_success EmptyResponse)"

section \<open>Commands\<close>

text \<open>The data of a FIRST command: total length, path and first chunk.\<close>

definition parse_first :: "bytes \<Rightarrow> status_word + nat \<times> derivation_path \<times> bytes" where
  "parse_first data =
     (let total = unat (from_be (take 4 data) :: u32); chunk = drop 25 data in
      if length data < 26 then Inl InvalidData
      else if length data > 255 then Inl ProfileBoundExceeded
      else if total = 0 \<or> total > max_frame_len then Inl ProfileBoundExceeded
      else
        case decode_path (take 21 (drop 4 data)) of
          Inl _ \<Rightarrow> Inl InvalidData
        | Inr path \<Rightarrow>
            if total = length chunk then Inl InvalidData
            else if total < length chunk then Inl ProfileBoundExceeded
            else Inr (total, path, chunk))"

definition check_chunk :: "bytes \<Rightarrow> status_word option" where
  "check_chunk data =
     (if data = [] then Some InvalidData
      else if length data > max_chunk_len then Some ProfileBoundExceeded
      else None)"

text \<open>What LAST checks of a complete frame before a review is shown.\<close>

definition validate_frame ::
    "'d deriver \<Rightarrow> clear_signing_policy \<Rightarrow> derivation_path \<Rightarrow> bytes \<Rightarrow> 'd
       \<Rightarrow> (status_word + clear_signing_review) \<times> 'd" where
  "validate_frame derive policy path bs d =
     (case decode_signature_frame bs of Inl _ \<Rightarrow> (Inl InvalidData, d) | Inr frame \<Rightarrow>
      if length (sf_payload frame) > max_transaction_payload_len then (Inl ProfileBoundExceeded, d)
      else
        case decode_transaction_signable (sf_payload frame) of
          Inl _ \<Rightarrow> (Inl InvalidData, d) | Inr tx \<Rightarrow>
        case derive d path of
          (None, d') \<Rightarrow> (Inl InternalFailure, d')
        | (Some key, d') \<Rightarrow>
            if addr_bytes (tx_sender tx) \<noteq> key then (Inl InvalidData, d')
            else (map_err (\<lambda>_. InvalidData) (build_review frame tx policy), d'))"

definition abs_first :: "abs_session \<Rightarrow> bytes \<Rightarrow> dispatch_outcome \<times> abs_session" where
  "abs_first a data =
     (if a \<noteq> AIdle then (failed InvalidState, AIdle)
      else case parse_first data of
          Inl status \<Rightarrow> (failed status, AIdle)
        | Inr (n, path, chunk) \<Rightarrow> (accepted, ACollecting n path chunk))"

definition abs_continue :: "abs_session \<Rightarrow> bytes \<Rightarrow> dispatch_outcome \<times> abs_session" where
  "abs_continue a data =
     (case a of
        ACollecting n path bs \<Rightarrow>
          (case check_chunk data of
             Some status \<Rightarrow> (failed status, AIdle)
           | None \<Rightarrow>
               if length bs + length data = n then (failed InvalidData, AIdle)
               else if length bs + length data > n then (failed ProfileBoundExceeded, AIdle)
               else (accepted, ACollecting n path (bs @ data)))
      | _ \<Rightarrow> (failed InvalidState, AIdle))"

definition abs_last ::
    "'d deriver \<Rightarrow> clear_signing_policy \<Rightarrow> abs_session \<Rightarrow> bytes \<Rightarrow> 'd
       \<Rightarrow> dispatch_outcome \<times> abs_session \<times> 'd" where
  "abs_last derive policy a data d =
     (case a of
        ACollecting n path bs \<Rightarrow>
          (case check_chunk data of
             Some status \<Rightarrow> (failed status, AIdle, d)
           | None \<Rightarrow>
               if length bs + length data > n then (failed ProfileBoundExceeded, AIdle, d)
               else if length bs + length data < n then (failed InvalidData, AIdle, d)
               else
                 (case validate_frame derive policy path (bs @ data) d of
                    (Inl status, d') \<Rightarrow> (failed status, AIdle, d')
                  | (Inr review, d') \<Rightarrow> (ReviewTransaction review, AAwaiting path (bs @ data), d')))
      | _ \<Rightarrow> (failed InvalidState, AIdle, d))"

text \<open>
  Configuration and public-key commands leave an idle session alone and cancel any other; RESET
  always leaves an idle one.
\<close>

definition abs_dispatch ::
    "'d deriver \<Rightarrow> clear_signing_policy \<Rightarrow> abs_session \<Rightarrow> apdu_command \<Rightarrow> 'd
       \<Rightarrow> dispatch_outcome \<times> abs_session \<times> 'd" where
  "abs_dispatch derive policy a c d =
     (let ins = ac_ins c; p1 = ac_p1 c; p2 = ac_p2 c; data = ac_data c in
      if ac_cla c \<noteq> cla then (failed UnsupportedCla, AIdle, d)
      else if ins = ins_get_configuration then
        (if a \<noteq> AIdle then (failed InvalidState, AIdle, d)
         else (handle_get_configuration p1 p2 data, AIdle, d))
      else if ins = ins_verify_public_key then
        (if a \<noteq> AIdle then (failed InvalidState, AIdle, d)
         else case handle_verify_public_key derive p1 p2 data d of (out, d') \<Rightarrow> (out, AIdle, d'))
      else if ins = ins_sign_transaction then
        (if (\<exists>path bs. a = AAwaiting path bs) then (failed InvalidState, AIdle, d)
         else if p2 \<noteq> 0 then (failed InvalidP1P2, AIdle, d)
         else if p1 = sign_p1_first then (case abs_first a data of (out, a') \<Rightarrow> (out, a', d))
         else if p1 = sign_p1_continue then (case abs_continue a data of (out, a') \<Rightarrow> (out, a', d))
         else if p1 = sign_p1_last then abs_last derive policy a data d
         else (failed InvalidP1P2, AIdle, d))
      else if ins = ins_reset_signing then
        (if p1 \<noteq> 0 \<or> p2 \<noteq> 0 then (failed InvalidP1P2, AIdle, d)
         else if data \<noteq> [] then (failed InvalidData, AIdle, d)
         else (accepted, AIdle, d))
      else (failed UnsupportedIns, AIdle, d))"

end
