(* ===== verification/Apdu_Refinement.thy ===== *)
theory Apdu_Refinement
  imports Apdu_Spec
begin

text \<open>
  The code of \<open>Apdu\<close> implements the protocol of \<open>Apdu_Spec\<close>: on the concrete form of
  an abstract session, \<open>dispatch\<close> returns the outcome of \<open>abs_dispatch\<close> and the concrete form
  of its session. The buffer of a represented session is zero beyond the bytes received, so that
  \<open>session_wipe\<close>, which clears the used prefix only, gives back exactly the new session.
\<close>

section \<open>The buffer\<close>

lemma stored_simps [simp]:
  "ss_state (stored st n path bs) = st"
  "ss_path (stored st n path bs) = Some path"
  "ss_buffered_len (stored st n path bs) = length bs"
  "ss_declared_total (stored st n path bs) = of_nat n"
  "ss_received_len (stored st n path bs) = of_nat (length bs)"
  "stored st n path bs\<lparr>ss_state := st'\<rparr> = stored st' n path bs"
  by (simp_all add: stored_def)

lemma session_new_simps [simp]:
  "ss_state session_new = Idle"
  "is_idle session_new"
  "ss_path session_new = None"
  "session_new\<lparr>ss_declared_total := of_nat n, ss_path := Some path, ss_state := st\<rparr>
     = stored st n path []"
  by (simp_all add: session_new_def stored_def is_idle_def)

lemma stored_slice:
  "length bs \<le> max_frame_len \<Longrightarrow>
     slice_get (ss_buffer (stored st n path bs)) 0 (length bs) = Some bs"
  by (simp add: stored_def slice_get_def)

lemma copy_zeros:
  assumes "length bs \<le> m"
  shows "copy_into (bs @ replicate (m - length bs) 0) 0 (map (\<lambda>_. 0) bs) = replicate m 0"
  using assms by (simp add: copy_into_def map_replicate_const flip: replicate_add)

lemma wipe_stored:
  assumes "length bs \<le> max_frame_len"
  shows "session_wipe (stored st n path bs) = session_new"
  using stored_slice [OF assms, of st n path] copy_zeros [OF assms]
  by (simp add: session_wipe_def session_new_def) (simp add: stored_def)

lemma wipe_new [simp]: "session_wipe session_new = session_new"
  by (simp add: session_wipe_def session_new_def slice_get_def copy_into_def)

lemma copy_append:
  assumes "length bs + length chunk \<le> m"
  shows "copy_into (bs @ replicate (m - length bs) 0) (length bs) chunk
           = (bs @ chunk) @ replicate (m - length (bs @ chunk)) 0"
  using assms by (simp add: copy_into_def)

lemma unat_of_nat_u32: "n < 2 ^ 32 \<Longrightarrow> unat (of_nat n :: u32) = n"
  by (simp add: unat_of_nat take_bit_nat_eq_self)

lemma unat_u32 [simp]: "n \<le> max_frame_len \<Longrightarrow> unat (of_nat n :: u32) = n"
  by (simp add: max_frame_len_def unat_of_nat_u32)

lemma append_chunk_stored:
  assumes "length bs \<le> n" "n \<le> max_frame_len" "length chunk \<le> max_chunk_len"
  shows "append_chunk (stored st n path bs) chunk =
    (if length bs + length chunk > n then Inl ProfileBoundExceeded
     else Inr (stored st n path (bs @ chunk)))"
proof -
  let ?m = "length bs + length chunk"
  have c: "unat (of_nat (length chunk) :: u32) = length chunk"
    using assms(3) by (simp add: max_chunk_len_def unat_of_nat_u32)
  have sum: "?m < 2 ^ 32" using assms by (simp add: max_frame_len_def max_chunk_len_def)
  have add: "checked_add_u32 (of_nat (length bs)) (of_nat (length chunk)) = Some (of_nat ?m)"
    using assms c sum by simp
  have cmp: "(of_nat ?m :: u32) > of_nat n \<longleftrightarrow> ?m > n"
    using sum assms by (simp add: word_less_nat_alt unat_of_nat_u32 max_frame_len_def
        del: of_nat_add)
  have buf: "slice_get (ss_buffer (stored st n path bs)) (length bs) ?m \<noteq> None" if "?m \<le> n"
    using that assms by (simp add: stored_def slice_get_def)
  show ?thesis
  proof (cases "?m > n")
    case True
    with add cmp sum show ?thesis
      by (simp add: append_chunk_def u32_try_from_usize_def
          del: of_nat_add checked_add_u32_Some)
  next
    case False
    then obtain old where old: "slice_get (ss_buffer (stored st n path bs)) (length bs) ?m = Some old"
      using buf by auto
    have "checked_add_usize (length bs) (length chunk) = Some ?m"
      using sum by (simp add: usize_limit_def)
    with False add cmp sum old show ?thesis
      using copy_append [of bs chunk max_frame_len] assms
      by (simp add: append_chunk_def u32_try_from_usize_def
          del: of_nat_add checked_add_u32_Some checked_add_usize_Some)
        (simp add: stored_def)
  qed
qed

lemma wipe_conc [simp]: "abs_ok a \<Longrightarrow> session_wipe (conc a) = session_new"
  by (cases a) (simp_all add: wipe_stored)

section \<open>The handlers\<close>

lemma is_idle_conc [simp]: "is_idle (conc a) \<longleftrightarrow> a = AIdle"
  by (cases a) (simp_all add: is_idle_def)

lemma collecting_conc: "ss_state (conc a) = Collecting \<longleftrightarrow> (\<exists>n path bs. a = ACollecting n path bs)"
  by (cases a) simp_all

lemma awaiting_conc: "ss_state (conc a) = AwaitingApproval \<longleftrightarrow> (\<exists>path bs. a = AAwaiting path bs)"
  by (cases a) simp_all

lemma append_first:
  assumes "n \<le> max_frame_len" "length chunk \<le> max_chunk_len"
  shows "append_chunk (stored st n path []) chunk =
    (if length chunk > n then Inl ProfileBoundExceeded else Inr (stored st n path chunk))"
  using append_chunk_stored [of "[]" n chunk st path] assms by simp

lemma parse_first_wf:
  "parse_first data = Inr (n, path, chunk) \<Longrightarrow> abs_ok (ACollecting n path chunk)"
  by (auto simp: parse_first_def Let_def path_codec.decode_iff max_frame_len_def
      split: if_splits sum.splits)

lemma handle_first_refines:
  assumes "abs_ok a" "abs_first a data = (out, a')"
  shows "handle_first (conc a) data = (out, conc a')"
proof (cases "a = AIdle \<and> 26 \<le> length data \<and> length data \<le> 255")
  case False
  with assms show ?thesis
    by (auto simp: handle_first_def abs_first_def fail_wiped_def failed_def parse_first_def
        first_min_data_len_def first_max_data_len_def path_encoded_len_def path_depth_def
        max_chunk_len_def)
next
  case True
  define w :: u32 where "w = from_be (take 4 data)"
  define chunk where "chunk = drop 25 data"
  have chunk: "length chunk \<le> max_chunk_len" using True unfolding chunk_def max_chunk_len_def by simp linarith
  have s: "slice_get data 0 4 = Some (take 4 data)" "to_array 4 (take 4 data) = Some (take 4 data)"
      "slice_get data 4 25 = Some (take 21 (drop 4 data))" "slice_from data 25 = Some chunk"
    using True by (simp_all add: slice_get_def slice_from_def chunk_def)
  have z: "w = 0 \<longleftrightarrow> unat w = 0" by (simp add: word_unat_eq_iff)
  have st: "session_new\<lparr>ss_declared_total := w, ss_path := Some path, ss_state := Collecting\<rparr>
      = stored Collecting (unat w) path []" for path
    using session_new_simps(4) [where n = "unat w"] by simp
  have b: "\<not> length data < first_min_data_len" "\<not> first_max_data_len < length data"
      "4 + path_encoded_len = 25"
    using True by (simp_all add: first_min_data_len_def first_max_data_len_def path_encoded_len_def
        path_depth_def max_chunk_len_def)
  note run = handle_first_def parse_first_def Let_def s w_def [symmetric] chunk_def [symmetric]
    z st b fail_wiped_def failed_def
  have out: "(out, a') = (case parse_first data of Inl status \<Rightarrow> (failed status, AIdle)
      | Inr (n, path, chunk) \<Rightarrow> (accepted, ACollecting n path chunk))"
    using assms(2) True by (simp add: abs_first_def)
  show ?thesis
  proof (cases "unat w = 0 \<or> unat w > max_frame_len \<or> \<not> is_ok (decode_path (take 21 (drop 4 data)))")
    case True
    with out \<open>a = AIdle \<and> _\<close> show ?thesis
      by (cases "decode_path (take 21 (drop 4 data))") (auto simp: run)
  next
    case False
    then obtain path where p: "decode_path (take 21 (drop 4 data)) = Inr path"
      by (cases "decode_path (take 21 (drop 4 data))") auto
    consider "unat w = length chunk" | "unat w < length chunk" | "unat w > length chunk" by linarith
    then show ?thesis
      using out False \<open>a = AIdle \<and> _\<close> chunk
      by cases (auto simp: run p append_first accepted_def wipe_stored)
  qed
qed

lemma check_chunk_None: "check_chunk data = None \<longleftrightarrow> data \<noteq> [] \<and> length data \<le> max_chunk_len"
  by (auto simp: check_chunk_def)

lemma remaining_u32:
  assumes "m \<le> n" "n \<le> max_frame_len"
  obtains r where "checked_sub_u32 (of_nat n) (of_nat m) = Some r" "unat r = n - m"
proof
  show "checked_sub_u32 (of_nat n) (of_nat m) = Some (of_nat (n - m))"
    using assms by (simp add: checked_sub_u32_def word_le_nat_alt of_nat_diff)
  show "unat (of_nat (n - m) :: u32) = n - m"
    using assms by (intro unat_u32) linarith
qed

lemma handle_continue_refines:
  assumes "abs_ok a" "abs_continue a data = (out, a')"
  shows "handle_continue (conc a) data = (out, conc a')"
proof (cases "\<exists>n path bs. a = ACollecting n path bs")
  case False
  with assms collecting_conc [of a] show ?thesis
    by (cases a) (auto simp: handle_continue_def abs_continue_def fail_wiped_def failed_def wipe_stored)
next
  case True
  then obtain n path bs where a: "a = ACollecting n path bs" by blast
  with assms(1) have n: "length bs < n" "n \<le> max_frame_len" by simp_all
  show ?thesis
  proof (cases "data \<noteq> [] \<and> length data \<le> max_chunk_len")
    case False
    with assms show ?thesis
      by (auto simp: a handle_continue_def abs_continue_def check_chunk_def fail_wiped_def failed_def
          wipe_stored)
  next
    case True
    obtain r :: u32 where r: "checked_sub_u32 (of_nat n) (of_nat (length bs)) = Some r"
        "unat r = n - length bs"
      using remaining_u32 [of "length bs" n] n by auto
    have "unat r = length data \<longleftrightarrow> length bs + length data = n" unfolding r(2) using n by linarith
    with assms(2) True n show ?thesis
      by (auto simp: a handle_continue_def abs_continue_def check_chunk_def fail_wiped_def failed_def
          accepted_def append_chunk_stored wipe_stored r(1) split: if_splits)
  qed
qed

lemma continue_ok: "abs_ok a \<Longrightarrow> abs_continue a data = (out, a') \<Longrightarrow> abs_ok a'"
  by (cases a) (auto simp: abs_continue_def split: option.splits if_splits)

lemma handle_last_refines:
  assumes "abs_ok a" "abs_last derive p a data d = (out, a', d')"
  shows "handle_last derive p (conc a) data d = (out, conc a', d')"
proof (cases "\<exists>n path bs. a = ACollecting n path bs")
  case False
  with assms collecting_conc [of a] show ?thesis
    by (cases a) (auto simp: handle_last_def abs_last_def failed_def wipe_stored)
next
  case True
  then obtain n path bs where a: "a = ACollecting n path bs" by blast
  with assms(1) have n: "length bs < n" "n \<le> max_frame_len" by simp_all
  consider "check_chunk data \<noteq> None"
    | "data \<noteq> [] \<and> length data \<le> max_chunk_len" "length bs + length data > n"
    | "data \<noteq> [] \<and> length data \<le> max_chunk_len" "length bs + length data < n"
    | "data \<noteq> [] \<and> length data \<le> max_chunk_len" "length bs + length data = n"
    by (metis check_chunk_None linorder_neqE_nat)
  then show ?thesis
  proof cases
    case 1
    with assms show ?thesis
      by (auto simp: a handle_last_def abs_last_def check_chunk_def failed_def wipe_stored
          split: if_splits)
  next
    case 2
    with assms n show ?thesis
      by (auto simp: a handle_last_def abs_last_def check_chunk_def failed_def wipe_stored
          append_chunk_stored)
  next
    case 3
    then have "(of_nat (length bs + length data) :: u32) \<noteq> of_nat n"
      using n by (metis nat_less_le less_imp_le order_trans unat_u32)
    with 3 assms n show ?thesis
      by (auto simp: a handle_last_def abs_last_def check_chunk_def failed_def wipe_stored
          append_chunk_stored)
  next
    case 4
    let ?s = "stored Collecting (length bs + length data) path (bs @ data)"
    from 4 have n': "n = length bs + length data" by simp
    have s: "append_chunk (stored Collecting (length bs + length data) path bs) data = Inr ?s"
        "slice_get (ss_buffer ?s) 0 (length bs + length data) = Some (bs @ data)"
        "session_wipe ?s = session_new"
      using 4 n stored_slice [of "bs @ data" Collecting "length bs + length data" path]
      by (simp_all add: append_chunk_stored wipe_stored)
    have "handle_last derive p (conc a) data d =
      (case validate_frame derive p path (bs @ data) d of
         (Inl status, d') \<Rightarrow> (failed status, session_new, d')
       | (Inr review, d') \<Rightarrow>
           (ReviewTransaction review, stored AwaitingApproval n path (bs @ data), d'))"
      using 4(1) by (simp add: a n' handle_last_def failed_def s validate_frame_def Let_def map_err_def
          split: sum.split prod.split option.split)
    with 4 assms(2) show ?thesis
      by (auto simp: a abs_last_def check_chunk_def split: sum.splits prod.splits)
  qed
qed

section \<open>The dispatcher\<close>

lemma outcome_failed_simps [simp]:
  "outcome_failed (failed s) \<longleftrightarrow> s \<noteq> Success"
  "outcome_failed (Reply (reply_failure s)) \<longleftrightarrow> s \<noteq> Success"
  "outcome_failed (Reply (reply_success r)) \<longleftrightarrow> False"
  "outcome_failed accepted \<longleftrightarrow> False"
  "outcome_failed (ReviewTransaction v) \<longleftrightarrow> False"
  "outcome_failed (ReviewPublicKey path k) \<longleftrightarrow> False"
  by (cases s; simp add: outcome_failed_def failed_def accepted_def reply_failure_def
      reply_success_def)+

lemmas failed_eq = failed_def [symmetric]

lemmas ins_defs = ins_get_configuration_def ins_verify_public_key_def ins_sign_transaction_def
  ins_reset_signing_def

lemma first_outcome:
  "abs_first a data = (out, a') \<Longrightarrow> outcome_failed out \<Longrightarrow> a' = AIdle"
  by (auto simp: abs_first_def split: if_splits sum.splits)

lemma continue_outcome:
  "abs_continue a data = (out, a') \<Longrightarrow> outcome_failed out \<Longrightarrow> a' = AIdle"
  by (auto simp: abs_continue_def split: abs_session.splits option.splits if_splits)

lemma last_outcome:
  "abs_last derive p a data d = (out, a', d') \<Longrightarrow> outcome_failed out \<Longrightarrow> a' = AIdle"
  by (auto simp: abs_last_def split: abs_session.splits option.splits if_splits sum.splits
      prod.splits)

lemma first_ok: "abs_first a data = (out, a') \<Longrightarrow> abs_ok a'"
  by (auto simp: abs_first_def dest: parse_first_wf split: if_splits sum.splits
      simp del: abs_ok.simps(2))

lemma last_ok: "abs_ok a \<Longrightarrow> abs_last derive p a data d = (out, a', d') \<Longrightarrow> abs_ok a'"
  by (auto simp: abs_last_def split: abs_session.splits option.splits if_splits sum.splits
      prod.splits)

lemma wipe_idle_if [simp]:
  "abs_ok a \<Longrightarrow> (b \<Longrightarrow> a = AIdle) \<Longrightarrow> (if b then session_wipe (conc a) else conc a) = conc a"
  by (cases a) auto

lemma sign_refines:
  assumes "abs_ok a" "ac_cla c = cla" "ac_ins c = ins_sign_transaction"
    "abs_dispatch derive p a c d = (out, a', d')"
  shows "dispatch derive p (conc a) c d = (out, conc a', d')"
proof (cases "\<exists>path bs. a = AAwaiting path bs")
  case True
  with assms show ?thesis
    by (auto simp: dispatch_def abs_dispatch_def conflicts_with_session_def ins_defs failed_def wipe_stored)
next
  case False
  with assms(3) have "\<not> conflicts_with_session (conc a) (ac_ins c)"
    by (simp add: conflicts_with_session_def awaiting_conc ins_defs)
  moreover have "dispatch_ins derive p (conc a) c d
      = handle_sign_transaction derive p (conc a) (ac_p1 c) (ac_p2 c) (ac_data c) d"
    using assms(3) by (simp add: dispatch_ins_def ins_defs)
  moreover have "handle_sign_transaction derive p (conc a) (ac_p1 c) (ac_p2 c) (ac_data c) d
      = (out, conc a', d') \<and> abs_ok a' \<and> (outcome_failed out \<longrightarrow> a' = AIdle)"
    using assms False handle_first_refines handle_continue_refines handle_last_refines
      first_ok continue_ok last_ok first_outcome continue_outcome last_outcome
    by (auto simp: abs_dispatch_def handle_sign_transaction_def Let_def failed_eq ins_defs
        split: prod.splits if_splits)
  ultimately show ?thesis using assms(2) by (simp add: dispatch_def)
qed

lemma configuration_outcome:
  "outcome_failed (handle_get_configuration p1 p2 data) \<longleftrightarrow> p1 \<noteq> 0 \<or> p2 \<noteq> 0 \<or> data \<noteq> []"
  by (auto simp: handle_get_configuration_def)

theorem dispatch_refines:
  assumes "abs_ok a" "abs_dispatch derive p a c d = (out, a', d')"
  shows "dispatch derive p (conc a) c d = (out, conc a', d')"
proof -
  consider "ac_cla c \<noteq> cla" | "ac_cla c = cla" "ac_ins c = ins_sign_transaction"
    | "ac_cla c = cla" "ac_ins c = ins_get_configuration \<or> ac_ins c = ins_verify_public_key" "a = AIdle"
    | "ac_cla c = cla" "ac_ins c = ins_get_configuration \<or> ac_ins c = ins_verify_public_key" "a \<noteq> AIdle"
    | "ac_cla c = cla" "ac_ins c = ins_reset_signing"
    | "ac_cla c = cla" "ac_ins c \<notin> {ins_sign_transaction, ins_get_configuration,
        ins_verify_public_key, ins_reset_signing}"
    by blast
  then show ?thesis
  proof cases
    case 2
    with assms show ?thesis by (intro sign_refines)
  next
    case 5
    with assms show ?thesis
      by (auto simp: dispatch_def abs_dispatch_def conflicts_with_session_def dispatch_ins_def
          handle_reset_signing_def session_reset_def failed_def accepted_def ins_defs)
  qed (use assms in \<open>auto simp: dispatch_def abs_dispatch_def conflicts_with_session_def
          dispatch_ins_def failed_def ins_defs Let_def split: prod.splits if_splits\<close>)
qed

lemma abs_dispatch_ok: "abs_ok a \<Longrightarrow> abs_dispatch derive p a c d = (out, a', d') \<Longrightarrow> abs_ok a'"
  by (auto simp: abs_dispatch_def Let_def dest: first_ok continue_ok last_ok
      split: if_splits prod.splits)

lemma abs_dispatch_failed:
  "abs_dispatch derive p a c d = (out, a', d') \<Longrightarrow> outcome_failed out \<Longrightarrow> a' = AIdle"
  by (auto simp: abs_dispatch_def Let_def dest: first_outcome continue_outcome last_outcome
      split: if_splits prod.splits)

end
