(* ===== verification/Signing_Run.thy ===== *)
theory Signing_Run
  imports Apdu_Refinement
begin

text \<open>
  Sequences of commands. \<open>machine_refinement\<close> is the contract between a machine and its abstract
  form; it carries the agreement of one step to runs, and \<open>core\<close> states it for \<open>dispatch\<close>.
  \<open>chunked_delivery\<close> runs a complete transfer.

  \<open>signing_run\<close> adds what the device adapter does between commands: it approves or rejects a
  review, or resets the session. \<open>history_inv\<close> ties the session to the commands that led to it.
\<close>

section \<open>Runs of a machine\<close>

fun run_steps :: "('s \<Rightarrow> 'c \<Rightarrow> 'o \<times> 's) \<Rightarrow> 's \<Rightarrow> 'c list \<Rightarrow> 'o list \<times> 's" where
  "run_steps step s [] = ([], s)"
| "run_steps step s (c # cs) =
     (case step s c of (out, s') \<Rightarrow>
      case run_steps step s' cs of (outs, s'') \<Rightarrow> (out # outs, s''))"

lemma run_steps_append:
  "run_steps step s (cs @ cs') =
     (case run_steps step s cs of (outs, s') \<Rightarrow>
      case run_steps step s' cs' of (outs', s'') \<Rightarrow> (outs @ outs', s''))"
  by (induction cs arbitrary: s) (simp_all split: prod.split)

lemma length_run_steps [simp]: "length (fst (run_steps step s cs)) = length cs"
  by (induction cs arbitrary: s) (simp_all split: prod.split, metis fst_conv)

lemma run_steps_all: "(\<And>s c. P (fst (step s c))) \<Longrightarrow> list_all P (fst (run_steps step s cs))"
  by (induction cs arbitrary: s) (simp_all split: prod.split, metis fst_conv)

text \<open>An invariant that relates the inputs so far to the state holds before every step of a run.\<close>

lemma run_steps_nth:
  assumes "I pre s" "\<And>cs s c out s'. I cs s \<Longrightarrow> step s c = (out, s') \<Longrightarrow> I (cs @ [c]) s'"
    and "i < length cs"
  shows "\<exists>b. I (pre @ take i cs) b \<and> fst (run_steps step s cs) ! i = fst (step b (cs ! i))"
  using assms(1,3)
proof (induction cs arbitrary: pre s i)
  case (Cons c cs)
  obtain out b where b: "step s c = (out, b)" by (cases "step s c")
  then have r: "fst (run_steps step s (c # cs)) = out # fst (run_steps step b cs)"
    by (simp split: prod.split)
  show ?case
  proof (cases i)
    case 0
    with Cons.prems(1) b r show ?thesis by (intro exI [of _ s]) simp
  next
    case (Suc j)
    with Cons.IH [OF assms(2) [OF Cons.prems(1) b], of j] Cons.prems(2) r show ?thesis by simp
  qed
qed simp

locale machine_refinement =
  fixes step :: "'s \<Rightarrow> 'c \<Rightarrow> 'o \<times> 's"
    and abs_step :: "'a \<Rightarrow> 'c \<Rightarrow> 'o \<times> 'a"
    and represent :: "'a \<Rightarrow> 's"
    and ok :: "'a \<Rightarrow> bool"
  assumes step_refines: "ok a \<Longrightarrow> abs_step a c = (out, a') \<Longrightarrow> step (represent a) c = (out, represent a')"
    and step_ok: "ok a \<Longrightarrow> abs_step a c = (out, a') \<Longrightarrow> ok a'"
begin

lemma run_refines:
  "ok a \<Longrightarrow> run_steps abs_step a cs = (outs, a') \<Longrightarrow>
     run_steps step (represent a) cs = (outs, represent a') \<and> ok a'"
proof (induction cs arbitrary: a outs)
  case (Cons c cs)
  obtain out b where b: "abs_step a c = (out, b)" by (cases "abs_step a c")
  obtain outs' b' where b': "run_steps abs_step b cs = (outs', b')"
    by (cases "run_steps abs_step b cs")
  from Cons.prems b b' have "outs = out # outs'" "a' = b'" by simp_all
  then show ?case
    using step_refines [OF Cons.prems(1) b] Cons.IH [OF step_ok [OF Cons.prems(1) b]] b' by simp
qed simp

lemma step_abs: "ok a \<Longrightarrow> step (represent a) c = (out, s') \<Longrightarrow>
    \<exists>a'. abs_step a c = (out, a') \<and> s' = represent a' \<and> ok a'"
  by (cases "abs_step a c") (simp add: step_refines step_ok)

end

definition dispatch_step ::
    "'d deriver \<Rightarrow> clear_signing_policy \<Rightarrow> signing_session \<times> 'd \<Rightarrow> apdu_command
       \<Rightarrow> dispatch_outcome \<times> signing_session \<times> 'd" where
  "dispatch_step derive p s c = dispatch derive p (fst s) c (snd s)"

definition abs_dispatch_step ::
    "'d deriver \<Rightarrow> clear_signing_policy \<Rightarrow> abs_session \<times> 'd \<Rightarrow> apdu_command
       \<Rightarrow> dispatch_outcome \<times> abs_session \<times> 'd" where
  "abs_dispatch_step derive p s c = abs_dispatch derive p (fst s) c (snd s)"

interpretation core: machine_refinement "dispatch_step derive p" "abs_dispatch_step derive p"
  "apfst conc" "\<lambda>s. abs_ok (fst s)"
  for derive :: "'d deriver" and p
proof
  show "dispatch_step derive p (apfst conc s) c = (out, apfst conc s')"
    if "abs_ok (fst s)" "abs_dispatch_step derive p s c = (out, s')" for s s' c out
    using that dispatch_refines [of "fst s" derive p c "snd s" out "fst s'" "snd s'"]
    by (cases s; cases s') (simp add: dispatch_step_def abs_dispatch_step_def)
  show "abs_ok (fst s')"
    if "abs_ok (fst s)" "abs_dispatch_step derive p s c = (out, s')" for s s' c out
    using that abs_dispatch_ok [of "fst s" derive p c "snd s" out "fst s'" "snd s'"]
    by (simp add: abs_dispatch_step_def)
qed

section \<open>A complete transfer\<close>

definition sign_command :: "u8 \<Rightarrow> bytes \<Rightarrow> apdu_command" where
  "sign_command p1 data =
     \<lparr>ac_cla = cla, ac_ins = ins_sign_transaction, ac_p1 = p1, ac_p2 = 0, ac_data = data\<rparr>"

definition first_data :: "nat \<Rightarrow> derivation_path \<Rightarrow> bytes \<Rightarrow> bytes" where
  "first_data n path chunk = to_be 4 (of_nat n :: u32) @ encode_path path @ chunk"

definition transfer_commands :: "derivation_path \<Rightarrow> bytes list \<Rightarrow> apdu_command list" where
  "transfer_commands path chunks =
     sign_command sign_p1_first (first_data (length (concat chunks)) path (hd chunks))
     # map (sign_command sign_p1_continue) (butlast (tl chunks))
     @ [sign_command sign_p1_last (last chunks)]"

definition chunks_ok :: "bytes list \<Rightarrow> bool" where
  "chunks_ok chunks \<longleftrightarrow> 2 \<le> length chunks \<and> list_all (\<lambda>c. c \<noteq> [] \<and> length c \<le> max_chunk_len) chunks
     \<and> length (concat chunks) \<le> max_frame_len"

lemma sign_p1_distinct [simp]:
  "sign_p1_first \<noteq> sign_p1_continue" "sign_p1_first \<noteq> sign_p1_last"
  "sign_p1_continue \<noteq> sign_p1_first" "sign_p1_continue \<noteq> sign_p1_last"
  "sign_p1_last \<noteq> sign_p1_first" "sign_p1_last \<noteq> sign_p1_continue"
  by (simp_all add: sign_p1_first_def sign_p1_continue_def sign_p1_last_def)

lemma abs_dispatch_sign:
  assumes "\<not> (\<exists>path bs. a = AAwaiting path bs)"
  shows "abs_dispatch derive p a (sign_command sign_p1_first data) d
      = (case abs_first a data of (out, a') \<Rightarrow> (out, a', d))"
    "abs_dispatch derive p a (sign_command sign_p1_continue data) d
      = (case abs_continue a data of (out, a') \<Rightarrow> (out, a', d))"
    "abs_dispatch derive p a (sign_command sign_p1_last data) d = abs_last derive p a data d"
  using assms by (simp_all add: abs_dispatch_def sign_command_def ins_defs)

definition chunk_ok :: "bytes \<Rightarrow> bool" where
  "chunk_ok c \<longleftrightarrow> c \<noteq> [] \<and> length c \<le> max_chunk_len"

lemma parse_first_data:
  assumes "0 < n" "n \<le> max_frame_len" "path_wf path" "chunk \<noteq> []" "length chunk \<le> max_chunk_len"
    "length chunk < n"
  shows "parse_first (first_data n path chunk) = Inr (n, path, chunk)"
proof -
  have l: "length (encode_path path) = 21"
    using path_codec.decode_encode [OF assms(3)]
    by (simp add: decode_path_def path_encoded_len_def path_depth_def split: if_splits)
  have "take 4 (first_data n path chunk) = to_be 4 (of_nat n :: u32)"
      "take 21 (drop 4 (first_data n path chunk)) = encode_path path"
      "drop 25 (first_data n path chunk) = chunk"
    by (simp_all add: first_data_def l)
  moreover have "length (first_data n path chunk) = 25 + length chunk"
    by (simp add: first_data_def l)
  ultimately show ?thesis
    using assms by (simp add: parse_first_def Let_def path_codec.decode_encode max_chunk_len_def)
qed

lemma parse_first_iff:
  "parse_first data = Inr (n, path, chunk) \<longleftrightarrow>
     n \<le> max_frame_len \<and> path_wf path \<and> chunk_ok chunk \<and> length chunk < n
     \<and> data = first_data n path chunk" (is "_ \<longleftrightarrow> ?rhs")
proof
  assume p: "parse_first data = Inr (n, path, chunk)"
  let ?t = "from_be (take 4 data) :: u32"
  from p have len: "26 \<le> length data" "length data \<le> 255"
    and n: "n = unat ?t" "n \<le> max_frame_len" "length chunk < n"
    and d: "decode_path (take 21 (drop 4 data)) = Inr path" and c: "chunk = drop 25 data"
    by (auto simp: parse_first_def Let_def split: if_splits sum.splits)
  have "data = take 4 data @ take 21 (drop 4 data) @ drop 21 (drop 4 data)"
    by (simp only: append_take_drop_id)
  moreover have "take 4 data = to_be 4 (of_nat n :: u32)" using len(1) by (simp add: n(1))
  moreover from d have "path_wf path" "take 21 (drop 4 data) = encode_path path"
    by (simp_all add: decode_path_iff)
  ultimately show ?rhs
    using len n(2,3) c by (simp add: first_data_def chunk_ok_def max_chunk_len_def)
next
  assume ?rhs
  then show "parse_first data = Inr (n, path, chunk)"
    using parse_first_data [of n path chunk] by (auto simp: chunk_ok_def)
qed

lemma parse_first_error: "parse_first data = Inl status \<Longrightarrow> status \<noteq> Success"
  by (auto simp: parse_first_def Let_def split: if_splits sum.splits)

lemma failed_accepted [simp]: "failed status = accepted \<longleftrightarrow> status = Success"
  by (auto simp: failed_def accepted_def reply_failure_def reply_success_def)

lemma continue_run:
  assumes "list_all (\<lambda>c. c \<noteq> [] \<and> length c \<le> max_chunk_len) cs" "length bs + length (concat cs) < n"
  shows "run_steps (abs_dispatch_step derive p) (ACollecting n path bs, d)
      (map (sign_command sign_p1_continue) cs)
    = (replicate (length cs) accepted, ACollecting n path (bs @ concat cs), d)"
  using assms
proof (induction cs arbitrary: bs)
  case (Cons c cs)
  then have "abs_dispatch_step derive p (ACollecting n path bs, d) (sign_command sign_p1_continue c)
      = (accepted, ACollecting n path (bs @ c), d)"
    by (auto simp: abs_dispatch_step_def abs_dispatch_sign abs_continue_def check_chunk_def)
  with Cons.IH [of "bs @ c"] Cons.prems show ?case by simp
qed simp

text \<open>What the last command of a transfer answers, and the session it leaves.\<close>

definition review_outcome :: "status_word + clear_signing_review \<Rightarrow> dispatch_outcome" where
  "review_outcome res = (case res of Inl status \<Rightarrow> failed status | Inr r \<Rightarrow> ReviewTransaction r)"

definition review_session ::
    "derivation_path \<Rightarrow> bytes \<Rightarrow> status_word + clear_signing_review \<Rightarrow> abs_session" where
  "review_session path bs res = (case res of Inl _ \<Rightarrow> AIdle | Inr _ \<Rightarrow> AAwaiting path bs)"

lemma chunks_split:
  assumes "chunks_ok chunks"
  obtains first mid final where "chunks = first # mid @ [final]"
    "first \<noteq> []" "length first \<le> max_chunk_len" "final \<noteq> []" "length final \<le> max_chunk_len"
    "list_all (\<lambda>c. c \<noteq> [] \<and> length c \<le> max_chunk_len) mid"
    "length first + length (concat mid) + length final \<le> max_frame_len"
proof -
  from assms obtain first rest where c: "chunks = first # rest" "rest \<noteq> []"
    by (cases chunks; cases "tl chunks") (auto simp: chunks_ok_def)
  then have e: "chunks = first # butlast rest @ [last rest]" by simp
  with assms have "chunks_ok (first # butlast rest @ [last rest])" by simp
  with that [OF e] show ?thesis by (simp add: chunks_ok_def)
qed

lemma abs_chunked_delivery:
  assumes chunks: "chunks_ok chunks" and path: "path_wf path"
    and v: "validate_frame derive p path (concat chunks) d = (res, d')"
  shows "run_steps (abs_dispatch_step derive p) (AIdle, d) (transfer_commands path chunks)
    = (replicate (length chunks - 1) accepted @ [review_outcome res],
       review_session path (concat chunks) res, d')"
proof -
  from chunks obtain first mid final where c: "chunks = first # mid @ [final]"
    "first \<noteq> []" "length first \<le> max_chunk_len" "final \<noteq> []" "length final \<le> max_chunk_len"
    "list_all (\<lambda>c. c \<noteq> [] \<and> length c \<le> max_chunk_len) mid"
    "length first + length (concat mid) + length final \<le> max_frame_len"
    by (rule chunks_split)
  let ?n = "length (concat chunks)"
  have n: "?n = length first + length (concat mid) + length final" by (simp add: c)
  have pos: "0 < length final" using c(4) by simp
  have "parse_first (first_data ?n path first) = Inr (?n, path, first)"
    using c n pos path by (intro parse_first_data) auto
  then have step1: "abs_dispatch_step derive p (AIdle, d)
      (sign_command sign_p1_first (first_data ?n path first)) = (accepted, ACollecting ?n path first, d)"
    by (simp add: abs_dispatch_step_def abs_dispatch_sign abs_first_def)
  have step2: "run_steps (abs_dispatch_step derive p) (ACollecting ?n path first, d)
      (map (sign_command sign_p1_continue) mid)
    = (replicate (length mid) accepted, ACollecting ?n path (first @ concat mid), d)"
    using c n pos by (intro continue_run) auto
  have step3: "abs_dispatch_step derive p (ACollecting ?n path (first @ concat mid), d)
      (sign_command sign_p1_last final)
    = (review_outcome res, review_session path (concat chunks) res, d')"
    using c v n by (auto simp: abs_dispatch_step_def abs_dispatch_sign abs_last_def check_chunk_def
        review_outcome_def review_session_def split: sum.splits)
  show ?thesis
    using step1 step2 step3 n
    by (simp add: transfer_commands_def run_steps_append c(1) replicate_append_same)
qed

lemma chunked_delivery:
  assumes "chunks_ok chunks" "path_wf path"
    and "validate_frame derive p path (concat chunks) d = (res, d')"
  shows "run_steps (dispatch_step derive p) (session_new, d) (transfer_commands path chunks)
    = (replicate (length chunks - 1) accepted @ [review_outcome res],
       conc (review_session path (concat chunks) res), d')"
  using core.run_refines [OF _ abs_chunked_delivery [OF assms]] by simp

section \<open>Histories\<close>

datatype session_event =
    Dispatched apdu_command dispatch_outcome
  | Signed "status_word + bytes"
  | Rejected
  | SessionReset

inductive signing_step ::
    "'d deriver \<Rightarrow> 'g signer \<Rightarrow> clear_signing_policy \<Rightarrow> signing_session \<times> 'd \<times> 'g
       \<Rightarrow> session_event \<Rightarrow> signing_session \<times> 'd \<times> 'g \<Rightarrow> bool"
  for derive :: "'d deriver" and sign :: "'g signer" and p where
  dispatched: "dispatch derive p s c d = (out, s', d') \<Longrightarrow>
     signing_step derive sign p (s, d, g) (Dispatched c out) (s', d', g)"
| approved: "approve_and_sign sign s g = (res, s', g') \<Longrightarrow>
     signing_step derive sign p (s, d, g) (Signed res) (s', d, g')"
| rejected: "signing_step derive sign p (s, d, g) Rejected (reject_review s, d, g)"
| was_reset: "signing_step derive sign p (s, d, g) SessionReset (session_reset s, d, g)"

inductive_cases signing_stepE: "signing_step derive sign p st ev st'"

inductive signing_run ::
    "'d deriver \<Rightarrow> 'g signer \<Rightarrow> clear_signing_policy \<Rightarrow> session_event list
       \<Rightarrow> signing_session \<times> 'd \<times> 'g \<Rightarrow> bool"
  for derive :: "'d deriver" and sign :: "'g signer" and p where
  start: "signing_run derive sign p [] (session_new, d, g)"
| step: "signing_run derive sign p evs st \<Longrightarrow> signing_step derive sign p st ev st' \<Longrightarrow>
     signing_run derive sign p (evs @ [ev]) st'"

text \<open>The events of a transfer that ends in a review.\<close>

definition collect_events :: "nat \<Rightarrow> derivation_path \<Rightarrow> bytes list \<Rightarrow> session_event list" where
  "collect_events n path chunks =
     Dispatched (sign_command sign_p1_first (first_data n path (hd chunks))) accepted
     # map (\<lambda>c. Dispatched (sign_command sign_p1_continue c) accepted) (tl chunks)"

definition transfer_events ::
    "derivation_path \<Rightarrow> bytes list \<Rightarrow> clear_signing_review \<Rightarrow> session_event list" where
  "transfer_events path chunks r =
     collect_events (length (concat chunks)) path (butlast chunks)
     @ [Dispatched (sign_command sign_p1_last (last chunks)) (ReviewTransaction r)]"

fun history_inv ::
    "'d deriver \<Rightarrow> clear_signing_policy \<Rightarrow> session_event list \<Rightarrow> abs_session \<Rightarrow> bool" where
  "history_inv derive p evs AIdle \<longleftrightarrow> True"
| "history_inv derive p evs (ACollecting n path bs) \<longleftrightarrow>
     (\<exists>pre chunks. evs = pre @ collect_events n path chunks \<and> chunks \<noteq> []
        \<and> list_all chunk_ok chunks \<and> bs = concat chunks)"
| "history_inv derive p evs (AAwaiting path bs) \<longleftrightarrow>
     (\<exists>pre chunks r d d'. evs = pre @ transfer_events path chunks r \<and> chunks_ok chunks
        \<and> bs = concat chunks \<and> validate_frame derive p path bs d = (Inr r, d'))"

lemma parse_first_sound:
  assumes "parse_first data = Inr (n, path, chunk)"
  shows "data = first_data n path chunk" "chunk_ok chunk"
proof -
  from assms have l: "26 \<le> length data" "length data \<le> 255"
    and n: "n = unat (from_be (take 4 data) :: u32)" "chunk = drop 25 data"
    and path: "take 21 (drop 4 data) = encode_path path"
    by (auto simp: parse_first_def Let_def path_codec.decode_iff split: if_splits sum.splits)
  then have "to_be 4 (of_nat n :: u32) = take 4 data" by simp
  moreover have "drop 21 (drop 4 data) = drop 25 data" by simp
  then have "drop 4 data = take 21 (drop 4 data) @ drop 25 data"
    using append_take_drop_id [of 21 "drop 4 data"] by metis
  then have "data = take 4 data @ take 21 (drop 4 data) @ drop 25 data"
    using append_take_drop_id [of 4 data] by metis
  ultimately show "data = first_data n path chunk"
    unfolding first_data_def path [symmetric] n(2) by metis
  show "chunk_ok chunk" using l by (auto simp: chunk_ok_def n max_chunk_len_def)
qed

lemma abs_dispatch_cases:
  assumes "abs_dispatch derive p a c d = (out, a', d')" "a' \<noteq> AIdle"
  obtains (first) n path chunk where "a = AIdle"
      "c = sign_command sign_p1_first (first_data n path chunk)" "chunk_ok chunk"
      "out = accepted" "a' = ACollecting n path chunk"
  | (continue) n path bs chunk where "a = ACollecting n path bs"
      "c = sign_command sign_p1_continue chunk" "chunk_ok chunk"
      "out = accepted" "a' = ACollecting n path (bs @ chunk)"
  | (final) n path bs chunk r where "a = ACollecting n path bs"
      "c = sign_command sign_p1_last chunk" "chunk_ok chunk" "n = length bs + length chunk"
      "validate_frame derive p path (bs @ chunk) d = (Inr r, d')"
      "out = ReviewTransaction r" "a' = AAwaiting path (bs @ chunk)"
proof -
  from assms have c: "c = sign_command (ac_p1 c) (ac_data c)"
    by (cases c) (auto simp: abs_dispatch_def sign_command_def Let_def split: if_splits prod.splits)
  from assms have "(ac_p1 c = sign_p1_first \<and> abs_first a (ac_data c) = (out, a'))
     \<or> (ac_p1 c = sign_p1_continue \<and> abs_continue a (ac_data c) = (out, a'))
     \<or> (ac_p1 c = sign_p1_last \<and> abs_last derive p a (ac_data c) d = (out, a', d'))"
    by (auto simp: abs_dispatch_def Let_def split: if_splits prod.splits)
  then consider "ac_p1 c = sign_p1_first" "abs_first a (ac_data c) = (out, a')"
     | "ac_p1 c = sign_p1_continue" "abs_continue a (ac_data c) = (out, a')"
     | "ac_p1 c = sign_p1_last" "abs_last derive p a (ac_data c) d = (out, a', d')"
    by blast
  then show thesis
  proof cases
    case 1
    with assms(2) obtain n path chunk where "a = AIdle" "out = accepted"
        "a' = ACollecting n path chunk" "parse_first (ac_data c) = Inr (n, path, chunk)"
      by (auto simp: abs_first_def split: if_splits sum.splits)
    with 1 c show thesis using parse_first_sound first by metis
  next
    case 2
    with assms(2) c show thesis
      using continue by (auto simp: abs_continue_def check_chunk_None chunk_ok_def
          split: abs_session.splits option.splits if_splits)
  next
    case 3
    with assms(2) c show thesis
      using final by (auto simp: abs_last_def check_chunk_None chunk_ok_def
          split: abs_session.splits option.splits if_splits sum.splits prod.splits)
  qed
qed

end
