(* ===== verification/Signing_Safety.thy ===== *)
theory Signing_Safety
  imports Signing_Run
begin

text \<open>
  What holds in every reachable signing session. A review is shown for exactly the frames that
  \<open>review_ok\<close> describes and whose sender is the derived key (\<open>validate_frame_iff\<close>); every reachable
  session is the concrete form of an abstract one whose contents were delivered by the last
  commands (\<open>run_inv\<close>); a signature is given only for the frame and path of a review that was just
  shown (\<open>signed_transfer\<close>).
\<close>

section \<open>Validation\<close>

lemma review_frame_length:
  assumes "review_ok p r"
  shows "length (review_frame p r) \<le> 2520"
proof -
  have "bs_wf max_frame_chain_id_bytes (rv_chain_id r)"
      "bs_wf max_message_type_bytes (rv_message_type r)"
    using assms by (simp_all add: review_ok_def sf_wf_def review_signature_frame_def)
  then have "length (bs_as_str (rv_chain_id r)) \<le> max_frame_chain_id_bytes"
      "length (bs_as_str (rv_message_type r)) \<le> max_message_type_bytes"
    using bs_wf_length by blast+
  moreover have "length (encode_transaction_signable (review_transaction p r)) \<le> 2168"
    using assms tx_fields_length by (simp add: review_ok_def)
  ultimately show ?thesis
    by (simp add: review_frame_alt length_encode_signature_frame review_signature_frame_def
        max_frame_chain_id_bytes_def max_message_type_bytes_def)
qed

lemma payload_bound_unreachable:
  assumes "decode_transaction_signable payload = Inr tx"
  shows "length payload \<le> max_transaction_payload_len"
  using assms tx_fields_length [of tx]
  by (auto simp: tx_codec.decode_iff max_transaction_payload_len_def)

lemma validate_frame_iff:
  "validate_frame derive p path bs d = (Inr r, d') \<longleftrightarrow>
     review_ok p r \<and> bs = review_frame p r \<and> derive d path = (Some (addr_bytes (rv_sender r)), d')"
proof -
  have sender: "rv_sender r = tx_sender tx" if "build_review frame tx p = Inr r" for frame tx
    using that unfolding build_review_iff by (metis clear_signing_review.select_convs)
  have "validate_frame derive p path bs d = (Inr r, d') \<longleftrightarrow>
     (\<exists>frame tx. decode_signature_frame bs = Inr frame
        \<and> decode_transaction_signable (sf_payload frame) = Inr tx
        \<and> derive d path = (Some (addr_bytes (tx_sender tx)), d') \<and> build_review frame tx p = Inr r)"
    by (auto simp: validate_frame_def result_simps Let_def dest: payload_bound_unreachable
        split: sum.splits prod.splits option.splits)
  also have "\<dots> \<longleftrightarrow> (\<exists>frame tx. decode_signature_frame bs = Inr frame
        \<and> decode_transaction_signable (sf_payload frame) = Inr tx \<and> build_review frame tx p = Inr r)
     \<and> derive d path = (Some (addr_bytes (rv_sender r)), d')"
    using sender by metis
  also have "\<dots> \<longleftrightarrow> review_ok p r \<and> bs = review_frame p r
     \<and> derive d path = (Some (addr_bytes (rv_sender r)), d')"
    unfolding build_review_exact by blast
  finally show ?thesis .
qed

section \<open>The reachable sessions\<close>

lemma approve_conc:
  assumes "abs_ok a"
  shows "approve_and_sign sign (conc a) g =
    (case a of AAwaiting path bs \<Rightarrow>
       (case sign g path bs of (signature, g') \<Rightarrow> (ok_or InternalFailure signature, session_new, g'))
     | _ \<Rightarrow> (Inl InvalidState, session_new, g))"
proof (cases a)
  case (AAwaiting path bs)
  with assms have "slice_get (ss_buffer (conc a)) 0 (length bs) = Some bs"
    by (simp add: stored_slice)
  with assms AAwaiting show ?thesis
    using wipe_conc [OF assms] by (simp add: approve_and_sign_def)
qed (use assms wipe_conc [OF assms] in \<open>auto simp: approve_and_sign_def\<close>)

lemma pending_conc:
  "abs_ok a \<Longrightarrow>
     pending_frame (conc a) = (case a of AAwaiting path bs \<Rightarrow> Some bs | _ \<Rightarrow> None)"
  by (cases a) (simp_all add: pending_frame_def stored_slice)

lemma collect_events_snoc:
  "chunks \<noteq> [] \<Longrightarrow> collect_events n path (chunks @ [chunk])
     = collect_events n path chunks @ [Dispatched (sign_command sign_p1_continue chunk) accepted]"
  by (simp add: collect_events_def)

lemma history_step:
  assumes "history_inv derive p evs a" "abs_ok a" "abs_dispatch derive p a c d = (out, a', d')"
  shows "history_inv derive p (evs @ [Dispatched c out]) a'"
proof (cases "a' = AIdle")
  case False
  from assms(3) False show ?thesis
  proof (cases rule: abs_dispatch_cases)
    case (first n path chunk)
    have "evs @ [Dispatched c out] = evs @ collect_events n path [chunk]"
      by (simp add: collect_events_def first)
    with first show ?thesis by (auto intro!: exI [of _ "[chunk]"])
  next
    case (continue n path bs chunk)
    then obtain pre chunks where h: "evs = pre @ collect_events n path chunks" "chunks \<noteq> []"
        "list_all chunk_ok chunks" "bs = concat chunks"
      using assms(1) by auto
    then have "evs @ [Dispatched c out] = pre @ collect_events n path (chunks @ [chunk])"
      by (simp add: collect_events_snoc continue)
    moreover have "list_all chunk_ok (chunks @ [chunk])" "bs @ chunk = concat (chunks @ [chunk])"
      using h continue by simp_all
    ultimately show ?thesis unfolding continue(5) history_inv.simps by blast
  next
    case (final n path bs chunk r)
    then obtain pre chunks where h: "evs = pre @ collect_events n path chunks" "chunks \<noteq> []"
        "list_all chunk_ok chunks" "bs = concat chunks"
      using assms(1) by auto
    let ?all = "chunks @ [chunk]"
    have n: "n = length (concat ?all)" using final h by simp
    have "evs @ [Dispatched c out] = pre @ transfer_events path ?all r"
      by (simp add: transfer_events_def h final n)
    moreover have "chunks_ok ?all"
      using h final assms(2) n by (cases chunks) (auto simp: chunks_ok_def chunk_ok_def list_all_iff)
    moreover have "bs @ chunk = concat ?all" using h by simp
    ultimately show ?thesis using final(5) unfolding final(7) history_inv.simps by blast
  qed
qed simp

lemma run_inv:
  assumes "signing_run derive sign p evs st"
  shows "\<exists>a. abs_ok a \<and> fst st = conc a \<and> history_inv derive p evs a"
  using assms
proof (induction rule: signing_run.induct)
  case (start d g)
  show ?case by (rule exI [of _ AIdle]) simp
next
  case (step evs st ev st')
  then obtain a where a: "abs_ok a" "fst st = conc a" "history_inv derive p evs a" by blast
  from step(2) show ?case
  proof (cases rule: signing_step.cases)
    case (dispatched s c d out s' d' g)
    obtain out2 a' d2 where e: "abs_dispatch derive p a c d = (out2, a', d2)"
      by (cases "abs_dispatch derive p a c d")
    with dispatched a have "out2 = out" "s' = conc a'" using dispatch_refines [OF a(1) e] by auto
    with dispatched a e show ?thesis using history_step [OF a(3,1) e] abs_dispatch_ok [OF a(1) e] by auto
  next
    case (approved s g res s' g' d)
    with a have "s' = session_new"
      using approve_conc [OF a(1), of sign g] by (cases a) (auto split: prod.splits)
    with approved show ?thesis by (intro exI [of _ AIdle]) simp
  qed (use a in \<open>auto simp: reject_review_def session_reset_def intro!: exI [of _ AIdle]\<close>)
qed

lemma signed_transfer:
  assumes "signing_run derive sign p evs (s, d, g)"
    and "approve_and_sign sign s g = (Inr signature, s', g')"
  shows "\<exists>pre path chunks r d0 d1. evs = pre @ transfer_events path chunks r \<and> chunks_ok chunks
     \<and> path_wf path \<and> review_ok p r \<and> concat chunks = review_frame p r
     \<and> derive d0 path = (Some (addr_bytes (rv_sender r)), d1)
     \<and> sign g path (review_frame p r) = (Some signature, g') \<and> s' = session_new"
proof -
  from run_inv [OF assms(1)] obtain a where a: "abs_ok a" "s = conc a" "history_inv derive p evs a"
    by auto
  obtain path bs where b: "a = AAwaiting path bs"
      "sign g path bs = (Some signature, g')" "s' = session_new"
    using assms(2) a(1) unfolding a(2) approve_conc [OF a(1), of sign g]
    by (cases a) (auto simp: ok_or_def split: prod.splits option.splits)
  with a obtain pre chunks r d0 d1 where h: "evs = pre @ transfer_events path chunks r"
      "chunks_ok chunks" "bs = concat chunks" "validate_frame derive p path bs d0 = (Inr r, d1)"
    by auto
  then have v: "review_ok p r" "bs = review_frame p r"
      "derive d0 path = (Some (addr_bytes (rv_sender r)), d1)"
    by (simp_all add: validate_frame_iff)
  have "path_wf path" using a(1) b(1) by simp
  with h v b show ?thesis
    by (intro exI [of _ pre] exI [of _ path] exI [of _ chunks] exI [of _ r] exI [of _ d0]
        exI [of _ d1]) simp
qed

end
