(* ===== verification/Device_Keys.thy ===== *)
theory Device_Keys
  imports Compression Signing_Safety
begin

text \<open>
  \<open>crates/sunrise-edge-ledger-app/src/derivation.rs\<close>: the device's key derivation and signing. The
  three SDK calls they make are the parameter \<open>ledger_sdk\<close>, of which nothing is assumed.

  \<open>key_device\<close> is what the signing session may rely on of a deriver: keys of 32 bytes, and the same
  key for the same path every time. \<open>device\<close> shows that the device's deriver provides it.
\<close>

section \<open>The interface\<close>

locale key_device =
  fixes derive :: "'d deriver"
  assumes derive_length: "derive d path = (Some key, d') \<Longrightarrow> length key = 32"
    and derive_stable: "fst (derive d path) = fst (derive e path)"
begin

lemma verified_key_length:
  assumes "dispatch derive p s c d = (ReviewPublicKey path key, s', d')"
  shows "length key = 32"
  using assms
  by (auto simp: dispatch_def dispatch_ins_def handle_get_configuration_def
      handle_verify_public_key_def handle_sign_transaction_def handle_reset_signing_def
      handle_first_def handle_continue_def handle_last_def fail_wiped_def Let_def
      dest!: derive_length split: if_splits sum.splits option.splits prod.splits)

text \<open>The sender of a review is the key that VERIFY PUBLIC KEY shows for its path.\<close>

lemma reviewed_sender:
  assumes "validate_frame derive p path bs d = (Inr r, d')" "path_wf path"
  shows "fst (handle_verify_public_key derive 1 0 (encode_path path) e)
    = ReviewPublicKey path (addr_bytes (rv_sender r))"
proof -
  from assms(1) have "fst (derive d path) = Some (addr_bytes (rv_sender r))"
    by (simp add: validate_frame_iff)
  then have "fst (derive e path) = Some (addr_bytes (rv_sender r))"
    using derive_stable [of e path d] by simp
  then show ?thesis
    using path_codec.decode_encode [OF assms(2)]
    by (cases "derive e path") (simp add: handle_verify_public_key_def)
qed

end

section \<open>The device\<close>

record 'k ledger_sdk =
  sdk_derive_slip10 :: "u32 list \<Rightarrow> 'k"
  sdk_public_key :: "'k \<Rightarrow> bytes option"
  sdk_sign :: "'k \<Rightarrow> bytes \<Rightarrow> (bytes \<times> u32) option"

definition ok_opt :: "'e + 'a \<Rightarrow> 'a option" where
  "ok_opt m = (case m of Inl _ \<Rightarrow> None | Inr x \<Rightarrow> Some x)"

definition device_derive :: "'k ledger_sdk \<Rightarrow> unit deriver" where
  "device_derive sdk d path =
     (let components = to_bip32_components path; sk = sdk_derive_slip10 sdk components in
      (case sdk_public_key sdk sk of
         None \<Rightarrow> None
       | Some pubkey \<Rightarrow> ok_opt (compress_ed25519_point pubkey), d))"

definition device_sign :: "'k ledger_sdk \<Rightarrow> unit signer" where
  "device_sign sdk g path frame =
     (let components = to_bip32_components path; sk = sdk_derive_slip10 sdk components in
      (case sdk_sign sdk sk frame of
         None \<Rightarrow> None
       | Some (signature, signature_len) \<Rightarrow> if signature_len \<noteq> 64 then None else Some signature, g))"

lemma length_reverse_loop: "length (reverse_loop i y c) = length c"
  by (induction i y c rule: reverse_loop.induct) (subst reverse_loop.simps, simp)

lemma compress_length: "compress_ed25519_point raw = Inr c \<Longrightarrow> length c = 32"
  by (auto simp: compress_ed25519_point_def Let_def length_reverse_loop split: if_splits)

interpretation device: key_device "device_derive sdk" for sdk :: "'k ledger_sdk"
  by unfold_locales
    (auto simp: device_derive_def Let_def ok_opt_def dest: compress_length
      split: option.splits sum.splits)

end
