(* ===== verification/Device_Main.thy ===== *)
theory Device_Main
  imports App_UI Device_Keys
begin

text \<open>
  \<open>crates/sunrise-edge-ledger-app/src/main.rs\<close>: the event loop. One iteration takes the command the
  transport delivers, the answers of the user and the results of \<open>send\<close> from \<open>loop_env\<close>, and
  returns what the device sent and showed and the session; \<open>None\<close> is a panic. \<open>env_command\<close> is
  what the SDK received: a reply to send when it refuses the APDU, or the bytes CLA, INS, P1, P2 of
  its header with the data; its \<open>decode\<close> converts the header with \<open>DeviceApduHeader::try_from\<close>.

  The lemmas give the outcome of \<open>dispatch\<close> as an iteration sees it, and of an iteration that shows
  a review; \<open>Wallet\<close> puts them together.
\<close>

datatype device_io = Show screen | Send bytes u16

record device_apdu_header =
  dh_cla :: u8
  dh_ins :: u8
  dh_p1 :: u8
  dh_p2 :: u8

definition device_header_try_from :: "u8 \<times> u8 \<times> u8 \<times> u8 \<Rightarrow> app_sw + device_apdu_header" where
  "device_header_try_from h =
     (case h of (c, i, p1, p2) \<Rightarrow>
        Inr \<lparr>dh_cla = c, dh_ins = i, dh_p1 = p1, dh_p2 = p2\<rparr>)"

record loop_env =
  env_command :: "u16 + (u8 \<times> u8 \<times> u8 \<times> u8) \<times> bytes"
  env_send_ok :: "bytes \<Rightarrow> u16 \<Rightarrow> bool"
  env_confirm :: "bytes \<Rightarrow> bool"
  env_approve :: "(bytes \<times> bytes) list \<Rightarrow> bool"

text \<open>The command of the iteration, as passed to \<open>dispatch\<close>.\<close>

definition next_apdu :: "loop_env \<Rightarrow> u16 + apdu_command" where
  "next_apdu env =
     try_bind (env_command env) (\<lambda>(h, data).
     try_bind (map_err reply_from (device_header_try_from h)) (\<lambda>header.
     Inr \<lparr>ac_cla = dh_cla header, ac_ins = dh_ins header, ac_p1 = dh_p1 header,
          ac_p2 = dh_p2 header, ac_data = data\<rparr>))"

definition received :: "apdu_command \<Rightarrow> u16 + (u8 \<times> u8 \<times> u8 \<times> u8) \<times> bytes" where
  "received c = Inr ((ac_cla c, ac_ins c, ac_p1 c, ac_p2 c), ac_data c)"

lemma next_apdu_Inr: "next_apdu env = Inr c \<longleftrightarrow> env_command env = received c"
  by (cases c) (auto simp: next_apdu_def received_def device_header_try_from_def result_simps)

text \<open>\<open>if comm.send(data, AppSW::Ok).is_err() { session.reset() }\<close>\<close>

definition send_or_reset ::
    "loop_env \<Rightarrow> bytes \<Rightarrow> app_sw \<Rightarrow> signing_session \<Rightarrow> device_io list \<times> signing_session" where
  "send_or_reset env data sw s =
     ([Send data (reply_from sw)],
      if env_send_ok env data (reply_from sw) then s else session_reset s)"

definition handle_reply ::
    "loop_env \<Rightarrow> apdu_reply \<Rightarrow> signing_session \<Rightarrow> device_io list \<times> signing_session" where
  "handle_reply env reply s =
     (if rp_status reply = Success then
        (case rp_response reply of
           EmptyResponse \<Rightarrow> send_or_reset env [] SwOk s
         | Configuration cfg_bytes \<Rightarrow> send_or_reset env cfg_bytes SwOk s)
      else send_or_reset env [] (app_sw_from (rp_status reply)) s)"

type_synonym popup = "(status_type \<times> bool) option"

definition handle_public_key ::
    "loop_env \<Rightarrow> bytes \<Rightarrow> signing_session \<Rightarrow> (device_io list \<times> signing_session \<times> popup) option" where
  "handle_public_key env public_key s =
     (case ui_display_public_key (env_confirm env) public_key of
        None \<Rightarrow> None
      | Some (Inr True, screens) \<Rightarrow>
          (case send_or_reset env public_key SwOk s of
             (sent, s') \<Rightarrow> Some (map Show screens @ sent, s', Some (AddressStatus, True)))
      | Some (Inr False, screens) \<Rightarrow>
          Some (map Show screens @ [Send [] (reply_from SwDeny)], session_reset s,
            Some (AddressStatus, False))
      | Some (Inl status, screens) \<Rightarrow>
          Some (map Show screens @ [Send [] (reply_from status)], session_reset s,
            Some (AddressStatus, False)))"

definition handle_review ::
    "'k ledger_sdk \<Rightarrow> loop_env \<Rightarrow> clear_signing_review \<Rightarrow> signing_session
       \<Rightarrow> (device_io list \<times> signing_session \<times> popup) option" where
  "handle_review sdk env review s =
     (case ui_display_transaction (env_approve env) review of
        None \<Rightarrow> None
      | Some (Inr True, screens) \<Rightarrow>
          (case approve_and_sign (device_sign sdk) s () of
             (Inr signature, s', _) \<Rightarrow>
               (case send_or_reset env signature SwOk s' of
                  (sent, s'') \<Rightarrow> Some (map Show screens @ sent, s'', Some (TransactionStatus, True)))
           | (Inl status, s', _) \<Rightarrow>
               Some (map Show screens @ [Send [] (reply_from (app_sw_from status))], s',
                 Some (TransactionStatus, False)))
      | Some (Inr False, screens) \<Rightarrow>
          Some (map Show screens @ [Send [] (reply_from SwDeny)], reject_review s,
            Some (TransactionStatus, False))
      | Some (Inl status, screens) \<Rightarrow>
          Some (map Show screens @ [Send [] (reply_from status)], reject_review s,
            Some (TransactionStatus, False)))"

definition handle_outcome ::
    "'k ledger_sdk \<Rightarrow> loop_env \<Rightarrow> dispatch_outcome \<Rightarrow> signing_session
       \<Rightarrow> (device_io list \<times> signing_session \<times> popup) option" where
  "handle_outcome sdk env outcome s =
     (case outcome of
        Reply reply \<Rightarrow> (case handle_reply env reply s of (sent, s') \<Rightarrow> Some (sent, s', None))
      | ReviewPublicKey _ public_key \<Rightarrow> handle_public_key env public_key s
      | ReviewTransaction review \<Rightarrow> handle_review sdk env review s)"

definition popup_screens :: "popup \<Rightarrow> screen list" where
  "popup_screens popup = (case popup of
     None \<Rightarrow> []
   | Some (status_type, success) \<Rightarrow> [ReviewStatus status_type success, ui_menu_main])"

definition app_step ::
    "'k ledger_sdk \<Rightarrow> loop_env \<Rightarrow> signing_session \<Rightarrow> (device_io list \<times> signing_session) option" where
  "app_step sdk env s =
     (case next_apdu env of
        Inl reply \<Rightarrow> Some ([Send [] reply], session_reset s)
      | Inr c \<Rightarrow>
          (case dispatch (device_derive sdk) devnet_asset_transfer_policy s c () of
             (outcome, s', _) \<Rightarrow>
          (case handle_outcome sdk env outcome s' of
             None \<Rightarrow> None
           | Some (ios, s'', popup) \<Rightarrow> Some (ios @ map Show (popup_screens popup), s''))))"

text \<open>\<open>normal_main\<close>, for the commands delivered so far.\<close>

fun app_loop ::
    "'k ledger_sdk \<Rightarrow> loop_env list \<Rightarrow> signing_session \<Rightarrow> (device_io list list \<times> signing_session) option"
where
  "app_loop sdk [] s = Some ([], s)"
| "app_loop sdk (env # envs) s =
     (case app_step sdk env s of
        None \<Rightarrow> None
      | Some (ios, s') \<Rightarrow>
          (case app_loop sdk envs s' of None \<Rightarrow> None | Some (rest, s'') \<Rightarrow> Some (ios # rest, s'')))"

definition normal_main ::
    "'k ledger_sdk \<Rightarrow> loop_env list \<Rightarrow> (device_io list list \<times> signing_session) option" where
  "normal_main sdk envs =
     (case app_loop sdk envs session_new of
        None \<Rightarrow> None
      | Some (ios, s) \<Rightarrow> Some ([Show ui_menu_main] # ios, s))"

section \<open>Iterations\<close>

text \<open>The sessions between two iterations: reachable, and no review pending.\<close>

definition between :: "signing_session \<Rightarrow> bool" where
  "between s \<longleftrightarrow> (\<exists>a. abs_ok a \<and> s = conc a \<and> (\<forall>path bs. a \<noteq> AAwaiting path bs))"

lemma between_new [simp]: "between session_new"
  unfolding between_def by (rule exI [of _ AIdle]) simp

lemma reset_conc: "abs_ok a \<Longrightarrow> session_reset (conc a) = session_new"
  "abs_ok a \<Longrightarrow> reject_review (conc a) = session_new"
  by (simp_all add: session_reset_def reject_review_def)

lemma reset_new: "session_reset session_new = session_new"
  by (simp add: session_reset_def)

lemma public_key_outcome:
  "abs_dispatch derive p a c d = (ReviewPublicKey path key, a', d') \<Longrightarrow> a' = AIdle"
  by (auto simp: abs_dispatch_def Let_def failed_def abs_first_def abs_continue_def abs_last_def
      accepted_def split: if_splits prod.splits sum.splits option.splits abs_session.splits)

lemma abs_dispatch_review:
  assumes "abs_dispatch derive p a c d = (ReviewTransaction r, a', d')"
  obtains path bs where "a' = AAwaiting path bs"
    "validate_frame derive p path bs d = (Inr r, d')"
proof (cases "a' = AIdle")
  case True
  with assms have False
    by (auto simp: abs_dispatch_def Let_def failed_def abs_first_def abs_continue_def abs_last_def
        accepted_def handle_get_configuration_def handle_verify_public_key_def
        split: if_splits prod.splits sum.splits option.splits abs_session.splits)
  then show thesis ..
next
  case False
  from assms False show thesis
  proof (cases rule: abs_dispatch_cases)
    case (final n path bs chunk r)
    with that show thesis by auto
  qed (simp_all add: accepted_def)
qed

lemma abs_dispatch_reply:
  assumes "abs_dispatch derive p a c d = (Reply reply, a', d')"
  shows "\<forall>path bs. a' \<noteq> AAwaiting path bs"
proof (cases "a' = AIdle")
  case False
  from assms False show ?thesis
    by (cases rule: abs_dispatch_cases) simp_all
qed simp

text \<open>What an iteration that shows a review does.\<close>

definition review_ios ::
    "'k ledger_sdk \<Rightarrow> loop_env \<Rightarrow> derivation_path \<Rightarrow> clear_signing_review \<Rightarrow> device_io list" where
  "review_ios sdk env path r =
     (let lines = review_lines r;
          result = (if \<not> env_approve env lines then Inl 0x6985
                    else case fst (device_sign sdk () path (review_frame devnet_asset_transfer_policy r)) of
                      None \<Rightarrow> Inl 0x6F00 | Some signature \<Rightarrow> Inr signature)
      in [Show (TransactionReview review_titles lines),
          (case result of Inl sw \<Rightarrow> Send [] sw | Inr signature \<Rightarrow> Send signature 0x9000),
          Show (ReviewStatus TransactionStatus (is_ok result)), Show ui_menu_main])"

lemma review_iteration:
  assumes s: "between s" and c: "next_apdu env = Inr c"
    and d: "dispatch (device_derive sdk) devnet_asset_transfer_policy s c () = (ReviewTransaction r, s1, ())"
  shows "\<exists>path. path_wf path \<and> ss_path s1 = Some path
    \<and> review_ok devnet_asset_transfer_policy r
    \<and> fst (device_derive sdk () path) = Some (addr_bytes (rv_sender r))
    \<and> app_step sdk env s = Some (review_ios sdk env path r, session_new)"
proof -
  let ?derive = "device_derive sdk" and ?p = devnet_asset_transfer_policy
  from s obtain a where a: "abs_ok a" "s = conc a" by (auto simp: between_def)
  obtain out a' where e: "abs_dispatch ?derive ?p a c () = (out, a', ())"
    by (cases "abs_dispatch ?derive ?p a c ()") (metis unit.exhaust)
  note ok' = abs_dispatch_ok [OF a(1) e]
  have out: "out = ReviewTransaction r" "s1 = conc a'"
    using dispatch_refines [OF a(1) e] a(2) d by simp_all
  with e have "abs_dispatch ?derive ?p a c () = (ReviewTransaction r, a', ())" by simp
  then obtain path bs where v: "a' = AAwaiting path bs"
      "validate_frame ?derive ?p path bs () = (Inr r, ())"
    by (rule abs_dispatch_review)
  then have r: "review_ok ?p r" "bs = review_frame ?p r"
      "fst (?derive () path) = Some (addr_bytes (rv_sender r))"
    by (simp_all add: validate_frame_iff)
  obtain sg where sg: "device_sign sdk () path (review_frame ?p r) = (sg, ())"
    by (cases "device_sign sdk () path (review_frame ?p r)") (metis unit.exhaust)
  then have signed: "approve_and_sign (device_sign sdk) s1 ()
      = (ok_or InternalFailure sg, session_new, ())"
    using approve_conc [OF ok', of "device_sign sdk" "()"] by (simp add: out(2) v(1) r(2))
  have "app_step sdk env s = Some (review_ios sdk env path r, session_new)"
    using reset_conc(2) [OF ok'] sg signed
    by (cases sg; cases "env_approve env (review_lines r)")
      (simp_all add: app_step_def c d handle_outcome_def handle_review_def out(2)
        show_transaction [OF r(1) devnet_policy_ascii] send_or_reset_def reset_new review_ios_def
        popup_screens_def app_sw_code_def app_sw_from_def)
  moreover have "path_wf path" using ok' v(1) by simp
  moreover have "ss_path s1 = Some path" by (simp add: out(2) v(1))
  ultimately show ?thesis using r by blast
qed

end
