(* ===== verification/Recognized_Transfer.thy ===== *)
theory Recognized_Transfer
  imports Devnet_Transfer Device_Main
begin

text \<open>
  The transfer of \<open>tests/fixtures/recognized_transfer.hex\<close> and
  \<open>RECOGNIZED_TRANSFER_LINES\<close> of \<open>tests/conformance.rs\<close>. The encoders of the model produce
  the 1221 bytes of the fixture, and the formatting produces its lines; the witnesses of the
  properties use it as their concrete transfer.
\<close>

definition fixture_digest :: "bytes \<Rightarrow> digest32" where
  "fixture_digest bs = \<lparr>dg_algorithm = Sha2_256, dg_bytes = bs\<rparr>"

definition fixture_entry :: "u8 \<Rightarrow> u64 \<Rightarrow> access_entry" where
  "fixture_entry b v =
     \<lparr>ae_object_ref = \<lparr>or_id = ObjectId (replicate 32 b), or_version = v,
                       or_digest = fixture_digest (replicate 32 (b + 1))\<rparr>,
      ae_mode = WriteMode\<rparr>"

definition recognized_transfer :: clear_signing_review where
  "recognized_transfer =
     \<lparr>rv_chain_id = bounded_text 64 ''sunrise-local-devnet'',
      rv_protocol_version = 3, rv_epoch = 0,
      rv_message_type = bounded_text 32 ''transaction-v1'',
      rv_scheme = Ed25519,
      rv_sender = Address (replicate 32 1),
      rv_nonce = 1,
      rv_module_id = ObjectId (pol_module_id devnet_asset_transfer_policy),
      rv_module_version = 3,
      rv_module_digest = fixture_digest (pol_code_digest_bytes devnet_asset_transfer_policy),
      rv_entrypoint = bounded_text 64 ''transfer'',
      rv_amount = 1000000,
      rv_amount_label = ascii ''amount'',
      rv_gas_limit = 1000,
      rv_access_entries =
        am_of_list [fixture_entry 0x11 1, fixture_entry 0x21 2, fixture_entry 0x31 3],
      rv_fee = Some \<lparr>fl_asset_id = AssetId (pol_fee_asset_id devnet_asset_transfer_policy),
                     fl_max_fee = 1001,
                     fl_fee_object_id = ObjectId (replicate 32 0x11),
                     fl_fee_object_version = 1,
                     fl_fee_object_digest = fixture_digest (replicate 32 0x12)\<rparr>\<rparr>"

text \<open>The bytes of the file; the 1127 bytes from offset 94 are the transaction.\<close>

definition fixture_bytes :: bytes where
  "fixture_bytes =
     [0x53, 0x4E, 0x52, 0x45, 0x01, 0x20, 0x01, 0x00, 0x06, 0x00, 0x01, 0x00, 0x14, 0x00, 0x00, 0x00,
      0x73, 0x75, 0x6E, 0x72, 0x69, 0x73, 0x65, 0x2D, 0x6C, 0x6F, 0x63, 0x61, 0x6C, 0x2D, 0x64, 0x65,
      0x76, 0x6E, 0x65, 0x74, 0x02, 0x00, 0x04, 0x00, 0x00, 0x00, 0x03, 0x00, 0x00, 0x00, 0x03, 0x00,
      0x08, 0x00, 0x00, 0x00, 0x00, 0x00, 0x00, 0x00, 0x00, 0x00, 0x00, 0x00, 0x04, 0x00, 0x0E, 0x00,
      0x00, 0x00, 0x74, 0x72, 0x61, 0x6E, 0x73, 0x61, 0x63, 0x74, 0x69, 0x6F, 0x6E, 0x2D, 0x76, 0x31,
      0x05, 0x00, 0x02, 0x00, 0x00, 0x00, 0x01, 0x00, 0x06, 0x00, 0x67, 0x04, 0x00, 0x00, 0x53, 0x4E,
      0x52, 0x45, 0x01, 0x60, 0x01, 0x00, 0x0B, 0x00, 0x01, 0x00, 0x14, 0x00, 0x00, 0x00, 0x73, 0x75,
      0x6E, 0x72, 0x69, 0x73, 0x65, 0x2D, 0x6C, 0x6F, 0x63, 0x61, 0x6C, 0x2D, 0x64, 0x65, 0x76, 0x6E,
      0x65, 0x74, 0x02, 0x00, 0x04, 0x00, 0x00, 0x00, 0x03, 0x00, 0x00, 0x00, 0x03, 0x00, 0x08, 0x00,
      0x00, 0x00, 0x00, 0x00, 0x00, 0x00, 0x00, 0x00, 0x00, 0x00, 0x04, 0x00, 0x20, 0x00, 0x00, 0x00,
      0x01, 0x01, 0x01, 0x01, 0x01, 0x01, 0x01, 0x01, 0x01, 0x01, 0x01, 0x01, 0x01, 0x01, 0x01, 0x01,
      0x01, 0x01, 0x01, 0x01, 0x01, 0x01, 0x01, 0x01, 0x01, 0x01, 0x01, 0x01, 0x01, 0x01, 0x01, 0x01,
      0x05, 0x00, 0x08, 0x00, 0x00, 0x00, 0x01, 0x00, 0x00, 0x00, 0x00, 0x00, 0x00, 0x00, 0x06, 0x00,
      0x3F, 0x02, 0x00, 0x00, 0x53, 0x4E, 0x52, 0x45, 0x02, 0x50, 0x01, 0x00, 0x04, 0x00, 0x01, 0x00,
      0x04, 0x00, 0x00, 0x00, 0x03, 0x00, 0x00, 0x00, 0x02, 0x00, 0xB3, 0x00, 0x00, 0x00, 0x53, 0x4E,
      0x52, 0x45, 0x01, 0x50, 0x01, 0x00, 0x02, 0x00, 0x01, 0x00, 0x8C, 0x00, 0x00, 0x00, 0x53, 0x4E,
      0x52, 0x45, 0x04, 0x40, 0x01, 0x00, 0x03, 0x00, 0x01, 0x00, 0x30, 0x00, 0x00, 0x00, 0x53, 0x4E,
      0x52, 0x45, 0x01, 0x40, 0x01, 0x00, 0x01, 0x00, 0x01, 0x00, 0x20, 0x00, 0x00, 0x00, 0x11, 0x11,
      0x11, 0x11, 0x11, 0x11, 0x11, 0x11, 0x11, 0x11, 0x11, 0x11, 0x11, 0x11, 0x11, 0x11, 0x11, 0x11,
      0x11, 0x11, 0x11, 0x11, 0x11, 0x11, 0x11, 0x11, 0x11, 0x11, 0x11, 0x11, 0x11, 0x11, 0x02, 0x00,
      0x08, 0x00, 0x00, 0x00, 0x01, 0x00, 0x00, 0x00, 0x00, 0x00, 0x00, 0x00, 0x03, 0x00, 0x38, 0x00,
      0x00, 0x00, 0x53, 0x4E, 0x52, 0x45, 0x03, 0x01, 0x01, 0x00, 0x02, 0x00, 0x01, 0x00, 0x02, 0x00,
      0x00, 0x00, 0x01, 0x00, 0x02, 0x00, 0x20, 0x00, 0x00, 0x00, 0x12, 0x12, 0x12, 0x12, 0x12, 0x12,
      0x12, 0x12, 0x12, 0x12, 0x12, 0x12, 0x12, 0x12, 0x12, 0x12, 0x12, 0x12, 0x12, 0x12, 0x12, 0x12,
      0x12, 0x12, 0x12, 0x12, 0x12, 0x12, 0x12, 0x12, 0x12, 0x12, 0x02, 0x00, 0x11, 0x00, 0x00, 0x00,
      0x53, 0x4E, 0x52, 0x45, 0x06, 0x40, 0x01, 0x00, 0x01, 0x00, 0x01, 0x00, 0x01, 0x00, 0x00, 0x00,
      0x02, 0x03, 0x00, 0xB3, 0x00, 0x00, 0x00, 0x53, 0x4E, 0x52, 0x45, 0x01, 0x50, 0x01, 0x00, 0x02,
      0x00, 0x01, 0x00, 0x8C, 0x00, 0x00, 0x00, 0x53, 0x4E, 0x52, 0x45, 0x04, 0x40, 0x01, 0x00, 0x03,
      0x00, 0x01, 0x00, 0x30, 0x00, 0x00, 0x00, 0x53, 0x4E, 0x52, 0x45, 0x01, 0x40, 0x01, 0x00, 0x01,
      0x00, 0x01, 0x00, 0x20, 0x00, 0x00, 0x00, 0x21, 0x21, 0x21, 0x21, 0x21, 0x21, 0x21, 0x21, 0x21,
      0x21, 0x21, 0x21, 0x21, 0x21, 0x21, 0x21, 0x21, 0x21, 0x21, 0x21, 0x21, 0x21, 0x21, 0x21, 0x21,
      0x21, 0x21, 0x21, 0x21, 0x21, 0x21, 0x21, 0x02, 0x00, 0x08, 0x00, 0x00, 0x00, 0x02, 0x00, 0x00,
      0x00, 0x00, 0x00, 0x00, 0x00, 0x03, 0x00, 0x38, 0x00, 0x00, 0x00, 0x53, 0x4E, 0x52, 0x45, 0x03,
      0x01, 0x01, 0x00, 0x02, 0x00, 0x01, 0x00, 0x02, 0x00, 0x00, 0x00, 0x01, 0x00, 0x02, 0x00, 0x20,
      0x00, 0x00, 0x00, 0x22, 0x22, 0x22, 0x22, 0x22, 0x22, 0x22, 0x22, 0x22, 0x22, 0x22, 0x22, 0x22,
      0x22, 0x22, 0x22, 0x22, 0x22, 0x22, 0x22, 0x22, 0x22, 0x22, 0x22, 0x22, 0x22, 0x22, 0x22, 0x22,
      0x22, 0x22, 0x22, 0x02, 0x00, 0x11, 0x00, 0x00, 0x00, 0x53, 0x4E, 0x52, 0x45, 0x06, 0x40, 0x01,
      0x00, 0x01, 0x00, 0x01, 0x00, 0x01, 0x00, 0x00, 0x00, 0x02, 0x04, 0x00, 0xB3, 0x00, 0x00, 0x00,
      0x53, 0x4E, 0x52, 0x45, 0x01, 0x50, 0x01, 0x00, 0x02, 0x00, 0x01, 0x00, 0x8C, 0x00, 0x00, 0x00,
      0x53, 0x4E, 0x52, 0x45, 0x04, 0x40, 0x01, 0x00, 0x03, 0x00, 0x01, 0x00, 0x30, 0x00, 0x00, 0x00,
      0x53, 0x4E, 0x52, 0x45, 0x01, 0x40, 0x01, 0x00, 0x01, 0x00, 0x01, 0x00, 0x20, 0x00, 0x00, 0x00,
      0x31, 0x31, 0x31, 0x31, 0x31, 0x31, 0x31, 0x31, 0x31, 0x31, 0x31, 0x31, 0x31, 0x31, 0x31, 0x31,
      0x31, 0x31, 0x31, 0x31, 0x31, 0x31, 0x31, 0x31, 0x31, 0x31, 0x31, 0x31, 0x31, 0x31, 0x31, 0x31,
      0x02, 0x00, 0x08, 0x00, 0x00, 0x00, 0x03, 0x00, 0x00, 0x00, 0x00, 0x00, 0x00, 0x00, 0x03, 0x00,
      0x38, 0x00, 0x00, 0x00, 0x53, 0x4E, 0x52, 0x45, 0x03, 0x01, 0x01, 0x00, 0x02, 0x00, 0x01, 0x00,
      0x02, 0x00, 0x00, 0x00, 0x01, 0x00, 0x02, 0x00, 0x20, 0x00, 0x00, 0x00, 0x32, 0x32, 0x32, 0x32,
      0x32, 0x32, 0x32, 0x32, 0x32, 0x32, 0x32, 0x32, 0x32, 0x32, 0x32, 0x32, 0x32, 0x32, 0x32, 0x32,
      0x32, 0x32, 0x32, 0x32, 0x32, 0x32, 0x32, 0x32, 0x32, 0x32, 0x32, 0x32, 0x02, 0x00, 0x11, 0x00,
      0x00, 0x00, 0x53, 0x4E, 0x52, 0x45, 0x06, 0x40, 0x01, 0x00, 0x01, 0x00, 0x01, 0x00, 0x01, 0x00,
      0x00, 0x00, 0x02, 0x07, 0x00, 0x8C, 0x00, 0x00, 0x00, 0x53, 0x4E, 0x52, 0x45, 0x04, 0x40, 0x01,
      0x00, 0x03, 0x00, 0x01, 0x00, 0x30, 0x00, 0x00, 0x00, 0x53, 0x4E, 0x52, 0x45, 0x01, 0x40, 0x01,
      0x00, 0x01, 0x00, 0x01, 0x00, 0x20, 0x00, 0x00, 0x00, 0x0D, 0x5D, 0xD1, 0x0A, 0xEC, 0x2C, 0x31,
      0x5B, 0x1D, 0xC5, 0x64, 0xC6, 0x94, 0x43, 0x9E, 0x46, 0xBA, 0xC4, 0xB6, 0x14, 0x26, 0xD2, 0x2E,
      0x0D, 0x7D, 0xDB, 0x76, 0x4C, 0x49, 0x19, 0x7F, 0xE7, 0x02, 0x00, 0x08, 0x00, 0x00, 0x00, 0x03,
      0x00, 0x00, 0x00, 0x00, 0x00, 0x00, 0x00, 0x03, 0x00, 0x38, 0x00, 0x00, 0x00, 0x53, 0x4E, 0x52,
      0x45, 0x03, 0x01, 0x01, 0x00, 0x02, 0x00, 0x01, 0x00, 0x02, 0x00, 0x00, 0x00, 0x01, 0x00, 0x02,
      0x00, 0x20, 0x00, 0x00, 0x00, 0x01, 0x53, 0x41, 0x28, 0xF1, 0x2E, 0xB4, 0xCF, 0x46, 0x9B, 0xFA,
      0x29, 0x67, 0x7B, 0xBC, 0xED, 0x13, 0x44, 0x87, 0x9D, 0xE2, 0x87, 0x03, 0x15, 0x84, 0x7C, 0xBB,
      0x7F, 0xAE, 0xC2, 0x16, 0x19, 0x08, 0x00, 0x08, 0x00, 0x00, 0x00, 0x74, 0x72, 0x61, 0x6E, 0x73,
      0x66, 0x65, 0x72, 0x09, 0x00, 0x18, 0x00, 0x00, 0x00, 0x53, 0x4E, 0x52, 0x45, 0x02, 0xF0, 0x01,
      0x00, 0x01, 0x00, 0x01, 0x00, 0x08, 0x00, 0x00, 0x00, 0x40, 0x42, 0x0F, 0x00, 0x00, 0x00, 0x00,
      0x00, 0x0A, 0x00, 0x08, 0x00, 0x00, 0x00, 0xE8, 0x03, 0x00, 0x00, 0x00, 0x00, 0x00, 0x00, 0x0B,
      0x00, 0xE0, 0x00, 0x00, 0x00, 0x53, 0x4E, 0x52, 0x45, 0x02, 0x70, 0x01, 0x00, 0x03, 0x00, 0x01,
      0x00, 0x30, 0x00, 0x00, 0x00, 0x53, 0x4E, 0x52, 0x45, 0x01, 0x70, 0x01, 0x00, 0x01, 0x00, 0x01,
      0x00, 0x20, 0x00, 0x00, 0x00, 0xCC, 0xAD, 0x27, 0xF6, 0x87, 0x33, 0x8B, 0x99, 0x95, 0x31, 0x83,
      0x72, 0x86, 0x47, 0xBC, 0x11, 0x77, 0x38, 0x8E, 0xB4, 0x5A, 0x37, 0xAF, 0xD9, 0x81, 0x2C, 0x0D,
      0x28, 0x6B, 0x43, 0x3E, 0xA8, 0x02, 0x00, 0x08, 0x00, 0x00, 0x00, 0xE9, 0x03, 0x00, 0x00, 0x00,
      0x00, 0x00, 0x00, 0x03, 0x00, 0x8C, 0x00, 0x00, 0x00, 0x53, 0x4E, 0x52, 0x45, 0x04, 0x40, 0x01,
      0x00, 0x03, 0x00, 0x01, 0x00, 0x30, 0x00, 0x00, 0x00, 0x53, 0x4E, 0x52, 0x45, 0x01, 0x40, 0x01,
      0x00, 0x01, 0x00, 0x01, 0x00, 0x20, 0x00, 0x00, 0x00, 0x11, 0x11, 0x11, 0x11, 0x11, 0x11, 0x11,
      0x11, 0x11, 0x11, 0x11, 0x11, 0x11, 0x11, 0x11, 0x11, 0x11, 0x11, 0x11, 0x11, 0x11, 0x11, 0x11,
      0x11, 0x11, 0x11, 0x11, 0x11, 0x11, 0x11, 0x11, 0x11, 0x02, 0x00, 0x08, 0x00, 0x00, 0x00, 0x01,
      0x00, 0x00, 0x00, 0x00, 0x00, 0x00, 0x00, 0x03, 0x00, 0x38, 0x00, 0x00, 0x00, 0x53, 0x4E, 0x52,
      0x45, 0x03, 0x01, 0x01, 0x00, 0x02, 0x00, 0x01, 0x00, 0x02, 0x00, 0x00, 0x00, 0x01, 0x00, 0x02,
      0x00, 0x20, 0x00, 0x00, 0x00, 0x12, 0x12, 0x12, 0x12, 0x12, 0x12, 0x12, 0x12, 0x12, 0x12, 0x12,
      0x12, 0x12, 0x12, 0x12, 0x12, 0x12, 0x12, 0x12, 0x12, 0x12, 0x12, 0x12, 0x12, 0x12, 0x12, 0x12,
      0x12, 0x12, 0x12, 0x12, 0x12]"

section \<open>The encoders produce the fixture\<close>

lemma nat_le_numeral: "nat_le (numeral k) v = of_nat v # nat_le (pred_numeral k) (v div 256)"
  by (subst numeral_eq_Suc) (rule nat_le.simps)

lemma replicate_num: "replicate (numeral k) x = x # replicate (pred_numeral k) x"
  by (subst numeral_eq_Suc) (rule replicate_Suc)

lemmas frame_eval = encode_frame_def encode_fields_def encode_field_def to_le_def nat_le_numeral
  protocol_magic_def ascii_def replicate_num fixture_digest_def hash_as_u16_def

lemma fixture_len [simp]:
  "ref_wf (ae_object_ref (fixture_entry b v))" "entry_wf (fixture_entry b v)"
  "ref_wf (policy_module_ref devnet_asset_transfer_policy)"
  "asset_wf (AssetId (pol_fee_asset_id devnet_asset_transfer_policy))"
  by (simp_all add: fixture_entry_def fixture_digest_def ref_wf_def entry_wf_def oid_wf_def
      digest_wf_def policy_module_ref_def devnet_asset_transfer_policy_def asset_wf_def)

lemma fixture_ref0:
  "encode_object_ref (ae_object_ref (fixture_entry 0x11 1)) =
     [0x53, 0x4E, 0x52, 0x45, 0x04, 0x40, 0x01, 0x00, 0x03, 0x00, 0x01, 0x00, 0x30, 0x00, 0x00, 0x00,
      0x53, 0x4E, 0x52, 0x45, 0x01, 0x40, 0x01, 0x00, 0x01, 0x00, 0x01, 0x00, 0x20, 0x00, 0x00, 0x00,
      0x11, 0x11, 0x11, 0x11, 0x11, 0x11, 0x11, 0x11, 0x11, 0x11, 0x11, 0x11, 0x11, 0x11, 0x11, 0x11,
      0x11, 0x11, 0x11, 0x11, 0x11, 0x11, 0x11, 0x11, 0x11, 0x11, 0x11, 0x11, 0x11, 0x11, 0x11, 0x11,
      0x02, 0x00, 0x08, 0x00, 0x00, 0x00, 0x01, 0x00, 0x00, 0x00, 0x00, 0x00, 0x00, 0x00, 0x03, 0x00,
      0x38, 0x00, 0x00, 0x00, 0x53, 0x4E, 0x52, 0x45, 0x03, 0x01, 0x01, 0x00, 0x02, 0x00, 0x01, 0x00,
      0x02, 0x00, 0x00, 0x00, 0x01, 0x00, 0x02, 0x00, 0x20, 0x00, 0x00, 0x00, 0x12, 0x12, 0x12, 0x12,
      0x12, 0x12, 0x12, 0x12, 0x12, 0x12, 0x12, 0x12, 0x12, 0x12, 0x12, 0x12, 0x12, 0x12, 0x12, 0x12,
      0x12, 0x12, 0x12, 0x12, 0x12, 0x12, 0x12, 0x12, 0x12, 0x12, 0x12, 0x12]"
  by (simp add: encode_object_ref_def encode_object_id_def encode_digest32_def frame_eval
      fixture_entry_def object_ref_type_id_def object_id_type_id_def digest_type_id_def
      policy_module_ref_def devnet_asset_transfer_policy_def)

lemma fixture_ref1:
  "encode_object_ref (ae_object_ref (fixture_entry 0x21 2)) =
     [0x53, 0x4E, 0x52, 0x45, 0x04, 0x40, 0x01, 0x00, 0x03, 0x00, 0x01, 0x00, 0x30, 0x00, 0x00, 0x00,
      0x53, 0x4E, 0x52, 0x45, 0x01, 0x40, 0x01, 0x00, 0x01, 0x00, 0x01, 0x00, 0x20, 0x00, 0x00, 0x00,
      0x21, 0x21, 0x21, 0x21, 0x21, 0x21, 0x21, 0x21, 0x21, 0x21, 0x21, 0x21, 0x21, 0x21, 0x21, 0x21,
      0x21, 0x21, 0x21, 0x21, 0x21, 0x21, 0x21, 0x21, 0x21, 0x21, 0x21, 0x21, 0x21, 0x21, 0x21, 0x21,
      0x02, 0x00, 0x08, 0x00, 0x00, 0x00, 0x02, 0x00, 0x00, 0x00, 0x00, 0x00, 0x00, 0x00, 0x03, 0x00,
      0x38, 0x00, 0x00, 0x00, 0x53, 0x4E, 0x52, 0x45, 0x03, 0x01, 0x01, 0x00, 0x02, 0x00, 0x01, 0x00,
      0x02, 0x00, 0x00, 0x00, 0x01, 0x00, 0x02, 0x00, 0x20, 0x00, 0x00, 0x00, 0x22, 0x22, 0x22, 0x22,
      0x22, 0x22, 0x22, 0x22, 0x22, 0x22, 0x22, 0x22, 0x22, 0x22, 0x22, 0x22, 0x22, 0x22, 0x22, 0x22,
      0x22, 0x22, 0x22, 0x22, 0x22, 0x22, 0x22, 0x22, 0x22, 0x22, 0x22, 0x22]"
  by (simp add: encode_object_ref_def encode_object_id_def encode_digest32_def frame_eval
      fixture_entry_def object_ref_type_id_def object_id_type_id_def digest_type_id_def
      policy_module_ref_def devnet_asset_transfer_policy_def)

lemma fixture_ref2:
  "encode_object_ref (ae_object_ref (fixture_entry 0x31 3)) =
     [0x53, 0x4E, 0x52, 0x45, 0x04, 0x40, 0x01, 0x00, 0x03, 0x00, 0x01, 0x00, 0x30, 0x00, 0x00, 0x00,
      0x53, 0x4E, 0x52, 0x45, 0x01, 0x40, 0x01, 0x00, 0x01, 0x00, 0x01, 0x00, 0x20, 0x00, 0x00, 0x00,
      0x31, 0x31, 0x31, 0x31, 0x31, 0x31, 0x31, 0x31, 0x31, 0x31, 0x31, 0x31, 0x31, 0x31, 0x31, 0x31,
      0x31, 0x31, 0x31, 0x31, 0x31, 0x31, 0x31, 0x31, 0x31, 0x31, 0x31, 0x31, 0x31, 0x31, 0x31, 0x31,
      0x02, 0x00, 0x08, 0x00, 0x00, 0x00, 0x03, 0x00, 0x00, 0x00, 0x00, 0x00, 0x00, 0x00, 0x03, 0x00,
      0x38, 0x00, 0x00, 0x00, 0x53, 0x4E, 0x52, 0x45, 0x03, 0x01, 0x01, 0x00, 0x02, 0x00, 0x01, 0x00,
      0x02, 0x00, 0x00, 0x00, 0x01, 0x00, 0x02, 0x00, 0x20, 0x00, 0x00, 0x00, 0x32, 0x32, 0x32, 0x32,
      0x32, 0x32, 0x32, 0x32, 0x32, 0x32, 0x32, 0x32, 0x32, 0x32, 0x32, 0x32, 0x32, 0x32, 0x32, 0x32,
      0x32, 0x32, 0x32, 0x32, 0x32, 0x32, 0x32, 0x32, 0x32, 0x32, 0x32, 0x32]"
  by (simp add: encode_object_ref_def encode_object_id_def encode_digest32_def frame_eval
      fixture_entry_def object_ref_type_id_def object_id_type_id_def digest_type_id_def
      policy_module_ref_def devnet_asset_transfer_policy_def)

lemma fixture_module_ref:
  "encode_object_ref (policy_module_ref devnet_asset_transfer_policy) =
     [0x53, 0x4E, 0x52, 0x45, 0x04, 0x40, 0x01, 0x00, 0x03, 0x00, 0x01, 0x00, 0x30, 0x00, 0x00, 0x00,
      0x53, 0x4E, 0x52, 0x45, 0x01, 0x40, 0x01, 0x00, 0x01, 0x00, 0x01, 0x00, 0x20, 0x00, 0x00, 0x00,
      0x0D, 0x5D, 0xD1, 0x0A, 0xEC, 0x2C, 0x31, 0x5B, 0x1D, 0xC5, 0x64, 0xC6, 0x94, 0x43, 0x9E, 0x46,
      0xBA, 0xC4, 0xB6, 0x14, 0x26, 0xD2, 0x2E, 0x0D, 0x7D, 0xDB, 0x76, 0x4C, 0x49, 0x19, 0x7F, 0xE7,
      0x02, 0x00, 0x08, 0x00, 0x00, 0x00, 0x03, 0x00, 0x00, 0x00, 0x00, 0x00, 0x00, 0x00, 0x03, 0x00,
      0x38, 0x00, 0x00, 0x00, 0x53, 0x4E, 0x52, 0x45, 0x03, 0x01, 0x01, 0x00, 0x02, 0x00, 0x01, 0x00,
      0x02, 0x00, 0x00, 0x00, 0x01, 0x00, 0x02, 0x00, 0x20, 0x00, 0x00, 0x00, 0x01, 0x53, 0x41, 0x28,
      0xF1, 0x2E, 0xB4, 0xCF, 0x46, 0x9B, 0xFA, 0x29, 0x67, 0x7B, 0xBC, 0xED, 0x13, 0x44, 0x87, 0x9D,
      0xE2, 0x87, 0x03, 0x15, 0x84, 0x7C, 0xBB, 0x7F, 0xAE, 0xC2, 0x16, 0x19]"
  by (simp add: encode_object_ref_def encode_object_id_def encode_digest32_def frame_eval
      fixture_entry_def object_ref_type_id_def object_id_type_id_def digest_type_id_def
      policy_module_ref_def devnet_asset_transfer_policy_def)

lemma fixture_modes [simp]: "ae_mode (fixture_entry b v) = WriteMode"
  by (simp add: fixture_entry_def)

lemma fixture_transaction:
  "review_transaction devnet_asset_transfer_policy recognized_transfer =
     \<lparr>tx_chain_id = bounded_text 64 ''sunrise-local-devnet'',
      tx_protocol_version = 3, tx_epoch = 0, tx_sender = Address (replicate 32 1), tx_nonce = 1,
      tx_access_manifest =
        am_of_list [fixture_entry 0x11 1, fixture_entry 0x21 2, fixture_entry 0x31 3],
      tx_module_ref = policy_module_ref devnet_asset_transfer_policy,
      tx_entrypoint = bounded_text 64 ''transfer'',
      tx_args = policy_args devnet_asset_transfer_policy 1000000, tx_gas_limit = 1000,
      tx_fee_payment = Some \<lparr>fp_asset_id = AssetId (pol_fee_asset_id devnet_asset_transfer_policy),
        fp_max_fee = 1001, fp_fee_object = ae_object_ref (fixture_entry 0x11 1)\<rparr>\<rparr>"
  by (simp add: review_transaction_def recognized_transfer_def policy_module_ref_def
      fee_payment_of_line_def fixture_entry_def fixture_digest_def devnet_asset_transfer_policy_def)

lemma fixture_payload:
  "encode_transaction_signable (review_transaction devnet_asset_transfer_policy recognized_transfer)
     = drop 94 fixture_bytes"
  unfolding fixture_transaction
  by (simp add: devnet_encoders frame_eval codec_lens)
    (simp add: fixture_ref0 fixture_ref1 fixture_ref2 fixture_module_ref fixture_bytes_def devnet_args)

lemma fixture_length: "length fixture_bytes = 1221"
  by (simp add: fixture_bytes_def)

lemma fixture_payload_length:
  "length (encode_transaction_signable
     (review_transaction devnet_asset_transfer_policy recognized_transfer)) = 1127"
  by (simp add: fixture_payload fixture_length)

lemma fixture_prefix: "take 94 fixture_bytes =
     [0x53, 0x4E, 0x52, 0x45, 0x01, 0x20, 0x01, 0x00, 0x06, 0x00, 0x01, 0x00, 0x14, 0x00, 0x00, 0x00,
      0x73, 0x75, 0x6E, 0x72, 0x69, 0x73, 0x65, 0x2D, 0x6C, 0x6F, 0x63, 0x61, 0x6C, 0x2D, 0x64, 0x65,
      0x76, 0x6E, 0x65, 0x74, 0x02, 0x00, 0x04, 0x00, 0x00, 0x00, 0x03, 0x00, 0x00, 0x00, 0x03, 0x00,
      0x08, 0x00, 0x00, 0x00, 0x00, 0x00, 0x00, 0x00, 0x00, 0x00, 0x00, 0x00, 0x04, 0x00, 0x0E, 0x00,
      0x00, 0x00, 0x74, 0x72, 0x61, 0x6E, 0x73, 0x61, 0x63, 0x74, 0x69, 0x6F, 0x6E, 0x2D, 0x76, 0x31,
      0x05, 0x00, 0x02, 0x00, 0x00, 0x00, 0x01, 0x00, 0x06, 0x00, 0x67, 0x04, 0x00, 0x00]"
  by (simp add: fixture_bytes_def)

lemma fixture_frame: "review_frame devnet_asset_transfer_policy recognized_transfer = fixture_bytes"
proof -
  have "review_frame devnet_asset_transfer_policy recognized_transfer
      = take 94 fixture_bytes @ encode_transaction_signable
          (review_transaction devnet_asset_transfer_policy recognized_transfer)"
    by (simp add: review_frame_def encode_signature_frame_def sf_fields_def frame_eval
        fixture_payload_length fixture_prefix recognized_transfer_def [THEN arg_cong [where f = rv_chain_id]]
        recognized_transfer_def [THEN arg_cong [where f = rv_protocol_version]]
        recognized_transfer_def [THEN arg_cong [where f = rv_epoch]]
        recognized_transfer_def [THEN arg_cong [where f = rv_message_type]]
        recognized_transfer_def [THEN arg_cong [where f = rv_scheme]]
        scheme_as_u16_def signature_frame_type_id_def signature_frame_version_def)
  then show ?thesis by (simp only: fixture_payload append_take_drop_id)
qed

section \<open>The review of the fixture\<close>

text \<open>It is a transfer of the policy.\<close>

definition fixture_transfer :: devnet_transfer where
  "fixture_transfer =
     \<lparr>dt_sender = Address (replicate 32 1), dt_nonce = 1, dt_amount = 1000000, dt_gas_limit = 1000,
      dt_source = ae_object_ref (fixture_entry 0x11 1), dt_second = ae_object_ref (fixture_entry 0x21 2),
      dt_third = ae_object_ref (fixture_entry 0x31 3), dt_max_fee = 1001\<rparr>"

lemma fixture_is_devnet: "devnet_review fixture_transfer = recognized_transfer"
  by (simp add: devnet_review_def fixture_transfer_def recognized_transfer_def fixture_entry_def
      entry_of_def fee_line_of_def policy_module_ref_def fixture_digest_def)
    (simp add: devnet_asset_transfer_policy_def)

lemma fixture_transfer_wf: "devnet_transfer_wf fixture_transfer"
  by (simp add: devnet_transfer_wf_def fixture_transfer_def addr_wf_def)
    (simp add: fixture_entry_def)

lemma fixture_tx_wf: "tx_wf (review_transaction devnet_asset_transfer_policy recognized_transfer)"
  using devnet_tx_wf [OF fixture_transfer_wf] by (simp add: fixture_is_devnet)

lemma fixture_ok: "review_ok devnet_asset_transfer_policy recognized_transfer"
  using devnet_review_ok [OF fixture_transfer_wf] by (simp add: fixture_is_devnet)

definition recognized_transfer_lines :: "(bytes \<times> bytes) list" where
  "recognized_transfer_lines =
     [(ascii ''chain_id'', ascii ''sunrise-local-devnet''),
      (ascii ''protocol_version'', ascii ''3''),
      (ascii ''epoch'', ascii ''0''),
      (ascii ''message_type'', ascii ''transaction-v1''),
      (ascii ''scheme'', ascii ''ed25519''),
      (ascii ''sender'', ascii ''0101010101010101010101010101010101010101010101010101010101010101''),
      (ascii ''nonce'', ascii ''1''),
      (ascii ''module_id'', ascii ''0d5dd10aec2c315b1dc564c694439e46bac4b61426d22e0d7ddb764c49197fe7''),
      (ascii ''module_version'', ascii ''3''),
      (ascii ''module_digest'', ascii ''sha2-256:01534128f12eb4cf469bfa29677bbced1344879de2870315847cbb7faec21619''),
      (ascii ''entrypoint'', ascii ''transfer''),
      (ascii ''amount'', ascii ''1000000''),
      (ascii ''gas_limit'', ascii ''1000''),
      (ascii ''manifest_count'', ascii ''3''),
      (ascii ''access[0].mode'', ascii ''write''),
      (ascii ''access[0].object_id'', ascii ''1111111111111111111111111111111111111111111111111111111111111111''),
      (ascii ''access[0].version'', ascii ''1''),
      (ascii ''access[0].digest'', ascii ''sha2-256:1212121212121212121212121212121212121212121212121212121212121212''),
      (ascii ''access[1].mode'', ascii ''write''),
      (ascii ''access[1].object_id'', ascii ''2121212121212121212121212121212121212121212121212121212121212121''),
      (ascii ''access[1].version'', ascii ''2''),
      (ascii ''access[1].digest'', ascii ''sha2-256:2222222222222222222222222222222222222222222222222222222222222222''),
      (ascii ''access[2].mode'', ascii ''write''),
      (ascii ''access[2].object_id'', ascii ''3131313131313131313131313131313131313131313131313131313131313131''),
      (ascii ''access[2].version'', ascii ''3''),
      (ascii ''access[2].digest'', ascii ''sha2-256:3232323232323232323232323232323232323232323232323232323232323232''),
      (ascii ''fee_payment'', ascii ''present''),
      (ascii ''fee_asset'', ascii ''ccad27f687338b99953183728647bc1177388eb45a37afd9812c0d286b433ea8''),
      (ascii ''fee_max'', ascii ''1001''),
      (ascii ''fee_object_id'', ascii ''1111111111111111111111111111111111111111111111111111111111111111''),
      (ascii ''fee_object_version'', ascii ''1''),
      (ascii ''fee_object_digest'', ascii ''sha2-256:1212121212121212121212121212121212121212121212121212121212121212'')]"

lemma fixture_access_lines:
  "rv_access_lines recognized_transfer = map (\<lambda>(b, v).
     \<lparr>al_mode = WriteMode, al_object_id = ObjectId (replicate 32 b), al_version = v,
      al_digest = fixture_digest (replicate 32 (b + 1))\<rparr>) [(0x11, 1), (0x21, 2), (0x31, 3)]"
  by (simp add: rv_access_lines_def recognized_transfer_def fixture_entry_def)

lemma fixture_lines: "review_lines recognized_transfer = recognized_transfer_lines"
  unfolding review_lines_def header_line_texts_def fixture_access_lines
  by (simp add: access_line_texts_def fee_line_texts_def
      recognized_transfer_def recognized_transfer_lines_def display_digest_def display_hash_def display_object_id_def
      display_address_def display_asset_id_def display_bytes_def fmt_02x_def hex_digit_def
      decimal_def low_digits.simps numbered_def fixture_digest_def hash_label_def scheme_label_def
      mode_label_def devnet_asset_transfer_policy_def ascii_def replicate_num)

end
