(* ===== verification/Signing_Completeness.thy ===== *)
theory Signing_Completeness
  imports Signing_Safety
begin

text \<open>
  The other direction of \<open>Signing_Safety\<close>: every transaction that the policy allows and whose
  sender is the key of the path can be reviewed and signed, however the host cuts its frame into
  chunks, and a frame can always be cut (\<open>split_frame\<close>). The device side of a run of
  commands is a history of \<open>signing_run\<close> (\<open>run_history\<close>).
\<close>

section \<open>Cutting a frame\<close>

function pieces :: "bytes \<Rightarrow> bytes list" where
  "pieces bs = (if bs = [] then [] else take max_chunk_len bs # pieces (drop max_chunk_len bs))"
  by pat_completeness auto
termination by (relation "measure length") (auto simp: max_chunk_len_def)

declare pieces.simps [simp del]

definition split_frame :: "bytes \<Rightarrow> bytes list" where
  "split_frame bs = take 1 bs # pieces (drop 1 bs)"

lemma concat_pieces: "concat (pieces bs) = bs"
proof (induction bs rule: pieces.induct)
  case (1 bs)
  then show ?case by (subst pieces.simps) simp
qed

lemma pieces_ok: "list_all (\<lambda>c. c \<noteq> [] \<and> length c \<le> max_chunk_len) (pieces bs)"
proof (induction bs rule: pieces.induct)
  case (1 bs)
  then show ?case by (subst pieces.simps) (auto simp: max_chunk_len_def)
qed

lemma concat_split_frame: "concat (split_frame bs) = bs"
  by (simp add: split_frame_def concat_pieces)

lemma split_frame_ok:
  assumes "2 \<le> length bs" "length bs \<le> max_frame_len"
  shows "chunks_ok (split_frame bs)"
proof -
  have "pieces (drop 1 bs) \<noteq> []"
    using concat_pieces [of "drop 1 bs"] assms(1) by auto
  then have "2 \<le> length (split_frame bs)"
    by (cases "pieces (drop 1 bs)") (simp_all add: split_frame_def)
  moreover have "take 1 bs \<noteq> []" using assms(1) by auto
  ultimately show ?thesis
    using assms(2) pieces_ok [of "drop 1 bs"] concat_split_frame [of bs]
    by (simp add: chunks_ok_def split_frame_def max_chunk_len_def)
qed

lemma review_frame_long:
  assumes "review_ok p r"
  shows "2 \<le> length (review_frame p r)" "length (review_frame p r) \<le> max_frame_len"
  using review_frame_length [OF assms]
  by (simp_all add: review_frame_alt length_encode_signature_frame max_frame_len_def)

section \<open>Signing what the policy allows\<close>

lemma transfer_reviewed:
  assumes ok: "review_ok p r" and path: "path_wf path"
    and key: "derive d path = (Some (addr_bytes (rv_sender r)), d')"
    and chunks: "chunks_ok chunks" "concat chunks = review_frame p r"
  shows "run_steps (dispatch_step derive p) (session_new, d) (transfer_commands path chunks)
    = (replicate (length chunks - 1) accepted @ [ReviewTransaction r],
       conc (AAwaiting path (review_frame p r)), d')"
proof -
  have "validate_frame derive p path (concat chunks) d = (Inr r, d')"
    by (simp add: validate_frame_iff ok key chunks(2))
  from chunked_delivery [OF chunks(1) path this] show ?thesis
    by (simp add: review_outcome_def review_session_def chunks(2))
qed

lemma awaiting_ok:
  "review_ok p r \<Longrightarrow> path_wf path \<Longrightarrow> abs_ok (AAwaiting path (review_frame p r))"
  using review_frame_long [of p r] by auto

lemma transfer_signed:
  assumes ok: "review_ok p r" and path: "path_wf path"
    and sign: "sign g path (review_frame p r) = (Some signature, g')"
  shows "pending_frame (conc (AAwaiting path (review_frame p r))) = Some (review_frame p r)"
    and "approve_and_sign sign (conc (AAwaiting path (review_frame p r))) g
      = (Inr signature, session_new, g')"
  using pending_conc [OF awaiting_ok [OF ok path]]
    approve_conc [OF awaiting_ok [OF ok path], of sign g] sign
  by simp_all

section \<open>Runs are histories\<close>

lemma run_history:
  assumes "run_steps (dispatch_step derive p) (s, d) cs = (outs, s', d')"
    and "signing_run derive sign p evs (s, d, g)"
  shows "signing_run derive sign p (evs @ map2 Dispatched cs outs) (s', d', g)"
  using assms
proof (induction cs arbitrary: s d outs evs)
  case (Cons c cs)
  obtain out s1 d1 where c: "dispatch derive p s c d = (out, s1, d1)"
    by (cases "dispatch derive p s c d")
  then have "dispatch_step derive p (s, d) c = (out, s1, d1)" by (simp add: dispatch_step_def)
  then obtain outs1 where r: "run_steps (dispatch_step derive p) (s1, d1) cs = (outs1, s', d')"
      "outs = out # outs1"
    using Cons.prems(1) by (auto split: prod.splits)
  have "signing_run derive sign p (evs @ [Dispatched c out]) (s1, d1, g)"
    using Cons.prems(2) signing_step.dispatched [of derive p s c d out s1 d1 sign g, OF c]
    by (rule signing_run.step)
  from Cons.IH [OF r(1) this] show ?case by (simp add: r(2))
qed simp

lemma transfer_history:
  assumes "review_ok p r" "path_wf path" "derive d path = (Some (addr_bytes (rv_sender r)), d')"
  shows "\<exists>evs. signing_run derive sign p evs (conc (AAwaiting path (review_frame p r)), d', g)"
proof -
  have "chunks_ok (split_frame (review_frame p r))"
    using split_frame_ok review_frame_long [OF assms(1)] by blast
  note run = transfer_reviewed [of p r path derive d d' "split_frame (review_frame p r)",
      OF assms this concat_split_frame]
  show ?thesis by (rule exI) (rule run_history [OF run signing_run.start])
qed

end
