(* ===== verification/Wallet.thy ===== *)
theory Wallet
  imports Device_Main
begin

text \<open>
  The device as its user sees it: \<open>wallet_step\<close> answers one command from the abstract session of
  \<open>Apdu_Spec\<close>, the lines of a review and the hexadecimal form of a key, without buffers, formatting
  loops, error paths of the screens or panics. \<open>app_step_wallet\<close> shows that an iteration of the
  event loop is a step of it, so that the loop is an instance of \<open>machine_refinement\<close> and its runs
  are runs of the wallet. What the device sends in answer to a command is then read off
  \<open>wallet_answer\<close>: a key only after it was confirmed, a signature only after its lines were approved.
\<close>

section \<open>The specification\<close>

definition reply_data :: "apdu_reply \<Rightarrow> bytes" where
  "reply_data reply =
     (if rp_status reply \<noteq> Success then []
      else case rp_response reply of EmptyResponse \<Rightarrow> [] | Configuration bs \<Rightarrow> bs)"

definition confirmation :: "loop_env \<Rightarrow> bytes \<Rightarrow> device_io list" where
  "confirmation env key =
     (let text = display_bytes key; ok = env_confirm env text
      in [Show (AddressReview review_title text),
          if ok then Send key 0x9000 else Send [] 0x6985,
          Show (ReviewStatus AddressStatus ok), Show ui_menu_main])"

definition wallet_answer ::
    "'k ledger_sdk \<Rightarrow> loop_env \<Rightarrow> dispatch_outcome \<Rightarrow> abs_session \<Rightarrow> device_io list \<times> abs_session" where
  "wallet_answer sdk env outcome a =
     (case outcome of
        Reply reply \<Rightarrow>
          (let data = reply_data reply; code = sw_code (rp_status reply)
           in ([Send data code], if env_send_ok env data code then a else AIdle))
      | ReviewPublicKey path key \<Rightarrow> (confirmation env key, AIdle)
      | ReviewTransaction r \<Rightarrow>
          (case a of AAwaiting path bs \<Rightarrow> (review_ios sdk env path r, AIdle) | _ \<Rightarrow> ([], a)))"

definition wallet_step ::
    "'k ledger_sdk \<Rightarrow> abs_session \<Rightarrow> loop_env \<Rightarrow> device_io list \<times> abs_session" where
  "wallet_step sdk a env =
     (case next_apdu env of
        Inl reply \<Rightarrow> ([Send [] reply], AIdle)
      | Inr c \<Rightarrow>
          (case abs_dispatch (device_derive sdk) devnet_asset_transfer_policy a c () of
             (outcome, a', _) \<Rightarrow> wallet_answer sdk env outcome a'))"

section \<open>The event loop implements it\<close>

definition resting :: "abs_session \<Rightarrow> bool" where
  "resting a \<longleftrightarrow> abs_ok a \<and> (\<forall>path bs. a \<noteq> AAwaiting path bs)"

lemma resting_idle [simp]: "resting AIdle"
  by (simp add: resting_def)

lemma resting_between: "between s \<longleftrightarrow> (\<exists>a. resting a \<and> s = conc a)"
  by (auto simp: between_def resting_def)

lemma handle_reply_wallet:
  assumes "abs_ok a"
  shows "handle_reply env reply (conc a)
    = (case wallet_answer sdk env (Reply reply) a of (ios, a') \<Rightarrow> (ios, conc a'))"
  using reset_conc(1) [OF assms]
  by (simp add: handle_reply_def wallet_answer_def reply_data_def send_or_reset_def Let_def
      app_sw_from_code app_sw_from_def app_sw_code_def sw_code_def
      split: immediate_response.split status_word.split)

lemma app_step_wallet:
  assumes "resting a"
  shows "app_step sdk env (conc a)
      = (case wallet_step sdk a env of (ios, a') \<Rightarrow> Some (ios, conc a'))
    \<and> resting (snd (wallet_step sdk a env))"
proof (cases "next_apdu env")
  case (Inl reply)
  with assms show ?thesis
    by (simp add: app_step_def wallet_step_def reset_conc resting_def)
next
  case (Inr c)
  let ?derive = "device_derive sdk" and ?p = devnet_asset_transfer_policy
  from assms have a: "abs_ok a" "between (conc a)" by (auto simp: resting_def between_def)
  obtain out a' where e: "abs_dispatch ?derive ?p a c () = (out, a', ())"
    by (cases "abs_dispatch ?derive ?p a c ()") (metis unit.exhaust)
  note ok' = abs_dispatch_ok [OF a(1) e]
  have d: "dispatch ?derive ?p (conc a) c () = (out, conc a', ())"
    using dispatch_refines [OF a(1) e] .
  have w: "wallet_step sdk a env = wallet_answer sdk env out a'"
    by (simp add: wallet_step_def Inr e)
  show ?thesis
  proof (cases out)
    case (Reply reply)
    with e have "resting a'"
      using abs_dispatch_reply [of ?derive ?p a c "()" reply a' "()"] ok' by (simp add: resting_def)
    then show ?thesis
      using handle_reply_wallet [OF ok', of env reply sdk]
      by (auto simp: app_step_def w Inr d Reply handle_outcome_def wallet_answer_def Let_def
          popup_screens_def)
  next
    case (ReviewPublicKey path key)
    with e have "a' = AIdle"
      by (intro public_key_outcome [of ?derive ?p a c "()" path key a' "()"]) simp
    moreover have "length key = 32"
      using d by (intro device.verified_key_length [of sdk ?p "conc a" c "()" path key "conc a'" "()"])
        (simp add: ReviewPublicKey)
    ultimately show ?thesis
      using Inr d ReviewPublicKey
      by (simp add: app_step_def w handle_outcome_def handle_public_key_def show_public_key
          send_or_reset_def reset_new wallet_answer_def confirmation_def popup_screens_def
          app_sw_code_def Let_def)
  next
    case (ReviewTransaction r)
    with e have "abs_dispatch ?derive ?p a c () = (ReviewTransaction r, a', ())" by simp
    then obtain path bs where v: "a' = AAwaiting path bs" by (rule abs_dispatch_review)
    have "dispatch ?derive ?p (conc a) c () = (ReviewTransaction r, conc a', ())"
      using d ReviewTransaction by simp
    from review_iteration [OF a(2) Inr this] v show ?thesis
      by (simp add: w ReviewTransaction wallet_answer_def)
  qed
qed

definition app_run_step ::
    "'k ledger_sdk \<Rightarrow> signing_session \<Rightarrow> loop_env \<Rightarrow> device_io list \<times> signing_session" where
  "app_run_step sdk s env = (case app_step sdk env s of None \<Rightarrow> ([], s) | Some r \<Rightarrow> r)"

interpretation wallet: machine_refinement "app_run_step sdk" "wallet_step sdk" conc resting
  for sdk :: "'k ledger_sdk"
proof
  show "app_run_step sdk (conc a) env = (ios, conc a')"
    if "resting a" "wallet_step sdk a env = (ios, a')" for a env ios a'
    using that app_step_wallet [of a sdk env] by (simp add: app_run_step_def)
  show "resting a'" if "resting a" "wallet_step sdk a env = (ios, a')" for a env ios a'
    using that app_step_wallet [of a sdk env] by simp
qed

lemma app_loop_run:
  "resting a \<Longrightarrow> app_loop sdk envs (conc a) = Some (run_steps (app_run_step sdk) (conc a) envs)"
proof (induction envs arbitrary: a)
  case (Cons env envs)
  obtain ios b where w: "wallet_step sdk a env = (ios, b)" by fastforce
  then have "app_step sdk env (conc a) = Some (ios, conc b)"
    using app_step_wallet [OF Cons.prems, of sdk env] by simp
  moreover have "resting b" using wallet.step_ok [OF Cons.prems w] .
  ultimately show ?case using Cons.IH [of b] by (simp add: app_run_step_def split: prod.split)
qed simp

lemma app_loop_wallet:
  assumes "resting a" "run_steps (wallet_step sdk) a envs = (ioss, a')"
  shows "app_loop sdk envs (conc a) = Some (ioss, conc a') \<and> resting a'"
  using app_loop_run [OF assms(1), of sdk envs] wallet.run_refines [OF assms] by simp

lemma normal_main_wallet:
  "normal_main sdk envs
    = (case run_steps (wallet_step sdk) AIdle envs of
         (ioss, a) \<Rightarrow> Some ([Show ui_menu_main] # ioss, conc a))"
  using app_loop_wallet [OF resting_idle, of sdk envs]
  by (cases "run_steps (wallet_step sdk) AIdle envs") (simp add: normal_main_def)

lemma loop_total:
  assumes "between s"
  shows "\<exists>ioss s'. app_loop sdk envs s = Some (ioss, s') \<and> between s' \<and> length ioss = length envs"
proof -
  from assms obtain a where a: "resting a" "s = conc a" by (auto simp: resting_between)
  obtain ioss b where r: "run_steps (wallet_step sdk) a envs = (ioss, b)" by fastforce
  with length_run_steps [of "wallet_step sdk" a envs] have "length ioss = length envs" by simp
  with app_loop_wallet [OF a(1) r] a(2) show ?thesis by (auto simp: resting_between)
qed

section \<open>Responses\<close>

fun responses :: "device_io list \<Rightarrow> (bytes \<times> u16) list" where
  "responses [] = []"
| "responses (Show screen # ios) = responses ios"
| "responses (Send data code # ios) = (data, code) # responses ios"

lemma set_responses: "(data, code) \<in> set (responses ios) \<longleftrightarrow> Send data code \<in> set ios"
  by (induction ios rule: responses.induct) auto

lemma abs_dispatch_awaits:
  assumes "abs_dispatch derive p a c d = (ReviewTransaction r, a', d')"
  shows "\<exists>path bs. a' = AAwaiting path bs"
  using abs_dispatch_review [OF assms] by blast

lemma wallet_one_response: "length (responses (fst (wallet_step sdk a env))) = 1"
proof (cases "next_apdu env")
  case (Inr c)
  obtain out a' d' where e: "abs_dispatch (device_derive sdk) devnet_asset_transfer_policy a c ()
      = (out, a', d')" by (metis prod_cases3)
  then show ?thesis
    using abs_dispatch_awaits [of "device_derive sdk" devnet_asset_transfer_policy a c "()" _ a' d']
    by (cases out)
      (auto simp: wallet_step_def Inr wallet_answer_def confirmation_def review_ios_def Let_def
        split: sum.split)
qed (simp add: wallet_step_def)

text \<open>The SDK's \<open>sign\<close> returns a buffer of type \<open>[u8; 64]\<close>.\<close>

definition signature_buffers :: "'k ledger_sdk \<Rightarrow> bool" where
  "signature_buffers sdk \<longleftrightarrow>
     (\<forall>k frame signature n. sdk_sign sdk k frame = Some (signature, n) \<longrightarrow> length signature = 64)"

lemma device_signature_length:
  "signature_buffers sdk \<Longrightarrow> fst (device_sign sdk g path frame) = Some signature
     \<Longrightarrow> length signature = 64"
  unfolding signature_buffers_def
  by (auto simp: device_sign_def Let_def split: option.splits if_splits) blast

lemma abs_dispatch_public_key:
  assumes "abs_dispatch derive p a c d = (ReviewPublicKey path key, a', d')"
  shows "ac_ins c = ins_verify_public_key \<and> decode_path (ac_data c) = Inr path
    \<and> fst (derive d path) = Some key"
  using assms
  by (auto simp: abs_dispatch_def Let_def failed_def abs_first_def abs_continue_def abs_last_def
      accepted_def handle_get_configuration_def handle_verify_public_key_def
      split: if_splits prod.splits sum.splits option.splits abs_session.splits)

section \<open>What a response means\<close>

lemma configuration_answer:
  assumes "abs_dispatch derive p a c d = (Reply reply, a', d')" "rp_response reply = Configuration bs"
  shows "ac_ins c = ins_get_configuration \<and> bs = [0, 1, 0, 1, 0, 0]"
proof -
  have "to_be 2 configuration_profile = [0, 1]"
    by (simp add: to_be_def configuration_profile_def numeral_2_eq_2)
  with assms show ?thesis
    by (auto simp: abs_dispatch_def Let_def failed_def abs_first_def abs_continue_def abs_last_def
        accepted_def handle_get_configuration_def handle_verify_public_key_def reply_failure_def
        reply_success_def configuration_major_def configuration_minor_def configuration_patch_def
        configuration_flags_def
        split: if_splits prod.splits sum.splits option.splits abs_session.splits)
qed

text \<open>A response that carries data is the configuration, a confirmed key, or an approved signature.\<close>

lemma wallet_sends:
  assumes a: "resting a" and data: "data \<noteq> []"
    and sent: "Send data code \<in> set (fst (wallet_step sdk a env))"
  obtains (config) c where "next_apdu env = Inr c" "ac_ins c = ins_get_configuration"
      "data = [0, 1, 0, 1, 0, 0]" "code = 0x9000"
  | (key) c path where "next_apdu env = Inr c" "ac_ins c = ins_verify_public_key"
      "ac_data c = encode_path path" "path_wf path" "fst (device_derive sdk () path) = Some data"
      "length data = 32" "env_confirm env (display_bytes data)" "code = 0x9000"
      "fst (wallet_step sdk a env) = confirmation env data"
  | (signature) n path bs chunk r where "a = ACollecting n path bs"
      "next_apdu env = Inr (sign_command sign_p1_last chunk)" "chunk_ok chunk"
      "n = length bs + length chunk" "path_wf path" "review_ok devnet_asset_transfer_policy r"
      "bs @ chunk = review_frame devnet_asset_transfer_policy r"
      "fst (device_derive sdk () path) = Some (addr_bytes (rv_sender r))"
      "env_approve env (review_lines r)"
      "fst (device_sign sdk () path (review_frame devnet_asset_transfer_policy r)) = Some data"
      "code = 0x9000" "fst (wallet_step sdk a env) = review_ios sdk env path r"
proof (cases "next_apdu env")
  case (Inl reply)
  with sent data have False by (simp add: wallet_step_def)
  then show ?thesis ..
next
  case (Inr c)
  let ?derive = "device_derive sdk" and ?p = devnet_asset_transfer_policy
  obtain out a' where e: "abs_dispatch ?derive ?p a c () = (out, a', ())"
    by (cases "abs_dispatch ?derive ?p a c ()") (metis unit.exhaust)
  have w: "wallet_step sdk a env = wallet_answer sdk env out a'"
    by (simp add: wallet_step_def Inr e)
  from a have ok: "abs_ok a" by (simp add: resting_def)
  show ?thesis
  proof (cases out)
    case (Reply reply)
    with sent data have "rp_response reply = Configuration data" "code = 0x9000"
      by (auto simp: w wallet_answer_def reply_data_def Let_def sw_code_def
          split: if_splits immediate_response.splits)
    with configuration_answer [of ?derive ?p a c "()" reply a' "()" data] e Reply Inr config
    show ?thesis by simp
  next
    case (ReviewPublicKey path k)
    with e abs_dispatch_public_key [of ?derive ?p a c "()" path k a' "()"]
    have c: "ac_ins c = ins_verify_public_key" "path_wf path" "ac_data c = encode_path path"
      "fst (?derive () path) = Some k"
      by (simp_all add: decode_path_iff)
    have "dispatch ?derive ?p (conc a) c () = (ReviewPublicKey path k, conc a', ())"
      using dispatch_refines [OF ok e] ReviewPublicKey by simp
    then have len: "length k = 32" by (rule device.verified_key_length)
    from sent data have k: "k = data" "env_confirm env (display_bytes data)" "code = 0x9000"
      by (auto simp: w ReviewPublicKey wallet_answer_def confirmation_def Let_def split: if_splits)
    have "fst (wallet_step sdk a env) = confirmation env data"
      by (simp add: w ReviewPublicKey wallet_answer_def k(1))
    with Inr c len k show ?thesis by (intro key [of c path]) simp_all
  next
    case (ReviewTransaction r)
    with e have d: "abs_dispatch ?derive ?p a c () = (ReviewTransaction r, a', ())" by simp
    then obtain path' bs' where "a' = AAwaiting path' bs'" by (rule abs_dispatch_review)
    then have "a' \<noteq> AIdle" by simp
    from d this show ?thesis
    proof (cases rule: abs_dispatch_cases)
      case (final n path bs chunk r')
      then have r: "r' = r" by simp
      have ios: "fst (wallet_step sdk a env) = review_ios sdk env path r"
        unfolding w by (simp add: ReviewTransaction wallet_answer_def final(7))
      have approved: "env_approve env (review_lines r) \<and> code = 0x9000
          \<and> fst (device_sign sdk () path (review_frame ?p r)) = Some data"
        using sent data unfolding ios review_ios_def Let_def
        by (auto split: if_splits option.splits)
      have valid: "review_ok ?p r" "bs @ chunk = review_frame ?p r"
          "fst (?derive () path) = Some (addr_bytes (rv_sender r))"
        using final(5) unfolding r by (simp_all add: validate_frame_iff)
      have "path_wf path" using ok final(1) by simp
      with final(1-4) Inr ios approved valid show ?thesis
        by (intro signature [of n path bs chunk r]) simp_all
    qed (simp_all add: accepted_def)
  qed
qed

section \<open>What the host delivered\<close>

definition collect_commands :: "nat \<Rightarrow> derivation_path \<Rightarrow> bytes list \<Rightarrow> apdu_command list" where
  "collect_commands n path chunks =
     sign_command sign_p1_first (first_data n path (hd chunks))
     # map (sign_command sign_p1_continue) (tl chunks)"

text \<open>The last commands that the transport delivered were \<open>cs\<close>.\<close>

definition delivered :: "loop_env list \<Rightarrow> apdu_command list \<Rightarrow> bool" where
  "delivered envs cs \<longleftrightarrow>
     length cs \<le> length envs
     \<and> map next_apdu (drop (length envs - length cs) envs) = map Inr cs"

definition device_history :: "loop_env list \<Rightarrow> abs_session \<Rightarrow> bool" where
  "device_history envs a \<longleftrightarrow> resting a \<and>
     (case a of
        ACollecting n path bs \<Rightarrow>
          (\<exists>chunks. delivered envs (collect_commands n path chunks) \<and> chunks \<noteq> []
             \<and> list_all chunk_ok chunks \<and> bs = concat chunks)
      | _ \<Rightarrow> True)"

lemma delivered_snoc: "delivered envs cs \<Longrightarrow> next_apdu env = Inr c \<Longrightarrow> delivered (envs @ [env]) (cs @ [c])"
  by (simp add: delivered_def)

lemma delivered_one: "next_apdu env = Inr c \<Longrightarrow> delivered (envs @ [env]) [c]"
  by (simp add: delivered_def)

lemma collect_commands_snoc:
  "chunks \<noteq> [] \<Longrightarrow> collect_commands n path (chunks @ [chunk])
     = collect_commands n path chunks @ [sign_command sign_p1_continue chunk]"
  by (simp add: collect_commands_def)

lemma transfer_of_collect:
  "chunks \<noteq> [] \<Longrightarrow> transfer_commands path (chunks @ [chunk])
     = collect_commands (length (concat chunks) + length chunk) path chunks
       @ [sign_command sign_p1_last chunk]"
  by (cases chunks) (simp_all add: transfer_commands_def collect_commands_def add.assoc)

lemma wallet_collecting:
  assumes a: "resting a" and w: "wallet_step sdk a env = (ios, ACollecting n path bs)"
  shows "(\<exists>chunk. next_apdu env = Inr (sign_command sign_p1_first (first_data n path chunk))
      \<and> chunk_ok chunk \<and> bs = chunk)
    \<or> (\<exists>bs' chunk. a = ACollecting n path bs'
      \<and> next_apdu env = Inr (sign_command sign_p1_continue chunk) \<and> chunk_ok chunk
      \<and> bs = bs' @ chunk)"
proof (cases "next_apdu env")
  case (Inl reply)
  with w show ?thesis by (simp add: wallet_step_def)
next
  case (Inr c)
  let ?derive = "device_derive sdk" and ?p = devnet_asset_transfer_policy
  obtain out a' where e: "abs_dispatch ?derive ?p a c () = (out, a', ())"
    by (cases "abs_dispatch ?derive ?p a c ()") (metis unit.exhaust)
  with w Inr have "wallet_answer sdk env out a' = (ios, ACollecting n path bs)"
    by (simp add: wallet_step_def)
  then have a': "a' = ACollecting n path bs"
    by (auto simp: wallet_answer_def Let_def split: dispatch_outcome.splits if_splits abs_session.splits)
  then have "a' \<noteq> AIdle" by simp
  from e this show ?thesis by (cases rule: abs_dispatch_cases) (use Inr a' in auto)
qed

text \<open>Only a bare acknowledgement leaves anything of the session.\<close>

lemma wallet_forgets:
  assumes a: "resting a" and w: "wallet_step sdk a env = (ios, a')"
    and ios: "Send [] 0x9000 \<notin> set ios"
  shows "a' = AIdle"
proof (rule ccontr)
  assume idle: "a' \<noteq> AIdle"
  let ?derive = "device_derive sdk" and ?p = devnet_asset_transfer_policy
  from idle w obtain c where c: "next_apdu env = Inr c"
    by (auto simp: wallet_step_def split: sum.splits)
  obtain out b where e: "abs_dispatch ?derive ?p a c () = (out, b, ())"
    by (cases "abs_dispatch ?derive ?p a c ()") (metis unit.exhaust)
  with w c have s: "wallet_answer sdk env out b = (ios, a')" by (simp add: wallet_step_def)
  with idle have "b \<noteq> AIdle" "b = a'"
    by (auto simp: wallet_answer_def Let_def split: dispatch_outcome.splits if_splits abs_session.splits)
  from e this(1) show False
    by (cases rule: abs_dispatch_cases)
      (use s idle ios in \<open>auto simp: wallet_answer_def accepted_def reply_success_def reply_data_def
        sw_code_def Let_def split: if_splits\<close>)
qed

lemma device_history_step:
  assumes h: "device_history envs a" and w: "wallet_step sdk a env = (ios, a')"
  shows "device_history (envs @ [env]) a'"
proof -
  from h have a: "resting a" by (simp add: device_history_def)
  note rest = wallet.step_ok [OF a w]
  show ?thesis
  proof (cases a')
    case (ACollecting n path bs)
    from wallet_collecting [OF a w [unfolded ACollecting]] show ?thesis
    proof (elim disjE exE conjE)
      fix chunk assume c: "next_apdu env = Inr (sign_command sign_p1_first (first_data n path chunk))"
        "chunk_ok chunk" "bs = chunk"
      have "delivered (envs @ [env]) (collect_commands n path [chunk])"
        using delivered_one [OF c(1)] by (simp add: collect_commands_def)
      with rest c ACollecting show ?thesis
        by (auto simp: device_history_def intro!: exI [of _ "[chunk]"])
    next
      fix bs' chunk assume c: "a = ACollecting n path bs'"
        "next_apdu env = Inr (sign_command sign_p1_continue chunk)" "chunk_ok chunk" "bs = bs' @ chunk"
      with h obtain chunks where d: "delivered envs (collect_commands n path chunks)" "chunks \<noteq> []"
          "list_all chunk_ok chunks" "bs' = concat chunks"
        by (auto simp: device_history_def)
      from delivered_snoc [OF d(1) c(2)] have
        "delivered (envs @ [env]) (collect_commands n path (chunks @ [chunk]))"
        by (simp add: collect_commands_snoc [OF d(2)])
      moreover have "list_all chunk_ok (chunks @ [chunk])" "bs = concat (chunks @ [chunk])"
        "chunks @ [chunk] \<noteq> []"
        using c d by simp_all
      ultimately show ?thesis using rest ACollecting unfolding device_history_def by auto
    qed
  qed (use rest in \<open>simp_all add: device_history_def\<close>)
qed

lemma normal_main_iteration:
  assumes "normal_main sdk envs = Some (ioss, s)" "i < length envs"
  shows "\<exists>a. device_history (take i envs) a \<and> ioss ! Suc i = fst (wallet_step sdk a (envs ! i))"
proof -
  from assms(1) have "ioss = [Show ui_menu_main] # fst (run_steps (wallet_step sdk) AIdle envs)"
    by (auto simp: normal_main_wallet split: prod.splits)
  moreover have "device_history [] AIdle" by (simp add: device_history_def)
  ultimately show ?thesis
    using run_steps_nth [of device_history "[]" AIdle "wallet_step sdk" i envs]
      device_history_step assms(2) by fastforce
qed

text \<open>The commands up to the one that was answered with a signature.\<close>

lemma delivered_transfer:
  assumes h: "device_history envs (ACollecting n path bs)"
    and c: "next_apdu env = Inr (sign_command sign_p1_last chunk)" "chunk_ok chunk"
    and n: "n = length bs + length chunk"
  shows "\<exists>chunks. chunks_ok chunks \<and> concat chunks = bs @ chunk
    \<and> delivered (envs @ [env]) (transfer_commands path chunks)"
proof -
  from h obtain chunks where d: "delivered envs (collect_commands n path chunks)" "chunks \<noteq> []"
      "list_all chunk_ok chunks" "bs = concat chunks"
    by (auto simp: device_history_def)
  from h have "n \<le> max_frame_len" by (simp add: device_history_def resting_def)
  with d c(2) n have "chunks_ok (chunks @ [chunk])"
    by (cases chunks) (auto simp: chunks_ok_def chunk_ok_def list_all_iff)
  moreover have "delivered (envs @ [env]) (transfer_commands path (chunks @ [chunk]))"
    using delivered_snoc [OF d(1) c(1)] d(4) n by (simp add: transfer_of_collect [OF d(2)])
  ultimately show ?thesis using d(4) by (intro exI [of _ "chunks @ [chunk]"]) simp
qed

text \<open>The run after a command that left the session idle is the run of a fresh device.\<close>

lemma normal_main_restart:
  assumes run: "normal_main sdk (pre @ env # post) = Some (ioss, s)"
    and idle: "\<And>a ios a'. resting a \<Longrightarrow> wallet_step sdk a env = (ios, a') \<Longrightarrow>
      ioss ! Suc (length pre) = ios \<Longrightarrow> a' = AIdle"
  shows "normal_main sdk post = Some ([Show ui_menu_main] # drop (Suc (Suc (length pre))) ioss, s)"
proof -
  obtain ioss1 a where r: "run_steps (wallet_step sdk) AIdle pre = (ioss1, a)" by fastforce
  then have a: "resting a" and l: "length ioss1 = length pre"
    using app_loop_wallet [OF resting_idle r] length_run_steps [of "wallet_step sdk" AIdle pre]
    by simp_all
  obtain ios a' where w: "wallet_step sdk a env = (ios, a')" by fastforce
  obtain ioss2 b where t: "run_steps (wallet_step sdk) a' post = (ioss2, b)" by fastforce
  from run r w t have i: "ioss = [Show ui_menu_main] # ioss1 @ ios # ioss2" "s = conc b"
    by (simp_all add: normal_main_wallet run_steps_append)
  then have "ioss ! Suc (length pre) = ios" using l by (simp add: nth_append)
  from idle [OF a w this] t i l show ?thesis by (simp add: normal_main_wallet)
qed

end
