(* ===== verification/Device_Transfer.thy ===== *)
theory Device_Transfer
  imports Signing_Completeness Wallet
begin

text \<open>
  A transfer at the device: a host that delivers an allowed transfer is acknowledged chunk by chunk
  and reaches the review (\<open>transfer_loop\<close>), after RESET SIGNING whatever the device did before
  (\<open>transfer_after_reset\<close>).
\<close>

section \<open>Delivering a transfer to the event loop\<close>

definition friendly_env :: "apdu_command \<Rightarrow> loop_env" where
  "friendly_env c =
     \<lparr>env_command = received c, env_send_ok = \<lambda>_ _. True, env_confirm = \<lambda>_. True, env_approve = \<lambda>_. True\<rparr>"

lemma accepted_iteration:
  assumes "next_apdu env = Inr c" "env_send_ok env [] 0x9000"
    "dispatch (device_derive sdk) devnet_asset_transfer_policy s c () = (accepted, s', ())"
  shows "app_step sdk env s = Some ([Send [] 0x9000], s')"
  using assms
  by (simp add: app_step_def handle_outcome_def accepted_def handle_reply_def reply_success_def
      send_or_reset_def popup_screens_def app_sw_code_def)

lemma accepted_loop:
  assumes "run_steps (dispatch_step (device_derive sdk) devnet_asset_transfer_policy) (s, ()) cs
      = (replicate (length cs) accepted, s', ())"
    "\<And>c. c \<in> set cs \<Longrightarrow> next_apdu (env c) = Inr c \<and> env_send_ok (env c) [] 0x9000"
  shows "app_loop sdk (map env cs @ envs) s =
    (case app_loop sdk envs s' of None \<Rightarrow> None
     | Some (ioss, s'') \<Rightarrow> Some (replicate (length cs) [Send [] 0x9000] @ ioss, s''))"
  using assms
proof (induction cs arbitrary: s)
  case Nil
  then show ?case by (simp split: option.split)
next
  case (Cons c cs)
  obtain out s1 where c: "dispatch (device_derive sdk) devnet_asset_transfer_policy s c () = (out, s1, ())"
    by (cases "dispatch (device_derive sdk) devnet_asset_transfer_policy s c ()") (metis unit.exhaust)
  then have "dispatch_step (device_derive sdk) devnet_asset_transfer_policy (s, ()) c = (out, s1, ())"
    by (simp add: dispatch_step_def)
  with Cons.prems(1) have "out = accepted" and r: "run_steps
      (dispatch_step (device_derive sdk) devnet_asset_transfer_policy) (s1, ()) cs
      = (replicate (length cs) accepted, s', ())"
    by (auto split: prod.splits)
  with c have "app_step sdk (env c) s = Some ([Send [] 0x9000], s1)"
    using accepted_iteration [of "env c" c sdk s s1] Cons.prems(2) [of c] by simp
  moreover have "app_loop sdk (map env cs @ envs) s1 =
    (case app_loop sdk envs s' of None \<Rightarrow> None
     | Some (ioss, s'') \<Rightarrow> Some (replicate (length cs) [Send [] 0x9000] @ ioss, s''))"
    using Cons.IH [OF r] Cons.prems(2) by simp
  ultimately show ?case by (simp split: option.split)
qed

lemma transfer_commands_snoc:
  "transfer_commands path chunks = butlast (transfer_commands path chunks)
     @ [sign_command sign_p1_last (last chunks)]"
  by (simp add: transfer_commands_def)

lemma length_transfer_commands:
  "2 \<le> length chunks \<Longrightarrow> length (transfer_commands path chunks) = length chunks"
  by (simp add: transfer_commands_def)

lemma run_steps_split:
  assumes "run_steps step s (cs @ [c]) = (outs @ [out], s')" "length outs = length cs"
  obtains s1 where "run_steps step s cs = (outs, s1)" "step s1 c = (out, s')"
proof -
  have l: "length (fst (run_steps step s cs)) = length cs"
    by (induction cs arbitrary: s) (simp_all add: case_prod_beta)
  obtain outs1 s1 where r: "run_steps step s cs = (outs1, s1)" by fastforce
  obtain o1 s2 where c: "step s1 c = (o1, s2)" by fastforce
  from assms r c l have "outs1 = outs" "o1 = out" "s2 = s'"
    by (simp_all add: run_steps_append)
  with r c that show thesis by simp
qed

text \<open>The session before the last chunk of a transfer.\<close>

lemma transfer_last:
  assumes "review_ok p r" "path_wf path" "derive d path = (Some (addr_bytes (rv_sender r)), d')"
    and chunks: "chunks_ok chunks" "concat chunks = review_frame p r"
  obtains s1 d1 where
    "run_steps (dispatch_step derive p) (session_new, d) (butlast (transfer_commands path chunks))
       = (replicate (length chunks - 1) accepted, s1, d1)"
    "dispatch derive p s1 (sign_command sign_p1_last (last chunks)) d1
       = (ReviewTransaction r, conc (AAwaiting path (review_frame p r)), d')"
proof -
  let ?c = "sign_command sign_p1_last (last chunks)" and ?cs = "butlast (transfer_commands path chunks)"
  have n: "2 \<le> length chunks" using chunks(1) by (simp add: chunks_ok_def)
  have "run_steps (dispatch_step derive p) (session_new, d) (?cs @ [?c])
    = (replicate (length chunks - 1) accepted @ [ReviewTransaction r],
       conc (AAwaiting path (review_frame p r)), d')"
    using transfer_reviewed [of p r path derive d d' chunks, OF assms]
    unfolding transfer_commands_snoc [symmetric] .
  then obtain st where st: "run_steps (dispatch_step derive p) (session_new, d) ?cs
      = (replicate (length chunks - 1) accepted, st)"
      "dispatch_step derive p st ?c = (ReviewTransaction r, conc (AAwaiting path (review_frame p r)), d')"
    by (rule run_steps_split) (simp_all add: length_transfer_commands [OF n])
  obtain s1 d1 where "st = (s1, d1)" by (cases st)
  with st that show thesis by (simp add: dispatch_step_def)
qed

text \<open>A whole transfer at the device: every chunk is acknowledged, the last one is reviewed.\<close>

lemma transfer_loop:
  assumes ok: "review_ok devnet_asset_transfer_policy r" and path: "path_wf path"
    and key: "device_derive sdk () path = (Some (addr_bytes (rv_sender r)), ())"
    and chunks: "chunks_ok chunks" "concat chunks = review_frame devnet_asset_transfer_policy r"
    and env: "\<And>c. next_apdu (env c) = Inr c \<and> env_send_ok (env c) [] 0x9000"
  shows "app_loop sdk (map env (transfer_commands path chunks)) session_new
    = Some (replicate (length chunks - 1) [Send [] 0x9000]
        @ [review_ios sdk (env (sign_command sign_p1_last (last chunks))) path r], session_new)"
proof -
  let ?p = devnet_asset_transfer_policy and ?c = "sign_command sign_p1_last (last chunks)"
  let ?cs = "butlast (transfer_commands path chunks)"
  have n: "2 \<le> length chunks" using chunks(1) by (simp add: chunks_ok_def)
  note l = length_transfer_commands [OF n, of path]
  obtain s1 d1 where st: "run_steps (dispatch_step (device_derive sdk) ?p) (session_new, ()) ?cs
      = (replicate (length chunks - 1) accepted, s1, ())"
    and d: "dispatch (device_derive sdk) ?p s1 ?c ()
      = (ReviewTransaction r, conc (AAwaiting path (review_frame ?p r)), ())"
    using transfer_last [of ?p r path "device_derive sdk" "()" "()" chunks, OF ok path key chunks]
    by auto
  have "app_loop sdk (map env ?cs @ []) session_new
      = Some (replicate (length ?cs) [Send [] 0x9000], s1)"
    using accepted_loop [of sdk session_new ?cs s1 env "[]"] st env by (simp add: l)
  then have "between s1" using loop_total [OF between_new, of sdk "map env ?cs @ []"] by simp
  from review_iteration [OF this _ d] env
  have step: "app_step sdk (env ?c) s1 = Some (review_ios sdk (env ?c) path r, session_new)"
    by auto
  have "app_loop sdk (map env ?cs @ [env ?c]) session_new
      = Some (replicate (length chunks - 1) [Send [] 0x9000]
        @ [review_ios sdk (env ?c) path r], session_new)"
    using accepted_loop [of sdk session_new ?cs s1 env "[env ?c]"] st env step by (simp add: l)
  moreover have "map env ?cs @ [env ?c] = map env (transfer_commands path chunks)"
    by (subst (2) transfer_commands_snoc) simp
  ultimately show ?thesis by simp
qed

section \<open>After a reset\<close>

definition reset_command :: apdu_command where
  "reset_command = \<lparr>ac_cla = cla, ac_ins = ins_reset_signing, ac_p1 = 0, ac_p2 = 0, ac_data = []\<rparr>"

lemma wallet_reset_idle:
  "next_apdu env = Inr reset_command \<Longrightarrow> snd (wallet_step sdk a env) = AIdle"
  by (simp add: wallet_step_def abs_dispatch_def reset_command_def ins_defs accepted_def
      wallet_answer_def Let_def)

lemma wallet_reset:
  assumes "next_apdu env = Inr reset_command" "env_send_ok env [] 0x9000"
  shows "wallet_step sdk a env = ([Send [] 0x9000], AIdle)"
  using assms
  by (simp add: wallet_step_def abs_dispatch_def reset_command_def ins_defs accepted_def
      reply_success_def wallet_answer_def reply_data_def sw_code_def)

lemma transfer_after_reset:
  assumes ok: "review_ok devnet_asset_transfer_policy r" and path: "path_wf path"
    and key: "device_derive sdk () path = (Some (addr_bytes (rv_sender r)), ())"
    and chunks: "chunks_ok chunks" "concat chunks = review_frame devnet_asset_transfer_policy r"
    and env: "\<And>c. next_apdu (env c) = Inr c \<and> env_send_ok (env c) [] 0x9000"
  shows "\<exists>ioss s. normal_main sdk envs = Some (ioss, s)
    \<and> normal_main sdk (envs @ env reset_command # map env (transfer_commands path chunks))
      = Some (ioss @ [Send [] 0x9000] # replicate (length chunks - 1) [Send [] 0x9000]
          @ [review_ios sdk (env (sign_command sign_p1_last (last chunks))) path r], session_new)"
proof -
  let ?ts = "map env (transfer_commands path chunks)"
  obtain ioss a where r: "run_steps (wallet_step sdk) AIdle envs = (ioss, a)" by fastforce
  obtain tioss b where t: "run_steps (wallet_step sdk) AIdle ?ts = (tioss, b)" by fastforce
  from app_loop_wallet [OF resting_idle t] transfer_loop [OF ok path key chunks, of env] env
  have "tioss = replicate (length chunks - 1) [Send [] 0x9000]
      @ [review_ios sdk (env (sign_command sign_p1_last (last chunks))) path r]" "conc b = session_new"
    by simp_all
  with r t wallet_reset [of "env reset_command" sdk a] env show ?thesis
    by (simp add: normal_main_wallet run_steps_append)
qed

end
