(* ===== verification/Fixture_Device.thy ===== *)
theory Fixture_Device
  imports Recognized_Transfer Device_Transfer
begin

text \<open>
  A device for the fixture, as \<open>FixedDeriver\<close> and \<open>RecordingSigner\<close> of
  \<open>tests/conformance.rs\<close>: an SDK whose key is the sender of the fixture, and the sequence of
  iterations that delivers the fixture to the event loop with a user who approves.
\<close>

section \<open>The fixture's device\<close>

definition fixture_point :: bytes where
  "fixture_point = 4 # replicate 32 0 @ replicate 32 1"

definition fixture_signature :: bytes where
  "fixture_signature = replicate 64 7"

definition fixture_sdk :: "unit ledger_sdk" where
  "fixture_sdk =
     \<lparr>sdk_derive_slip10 = \<lambda>_. (), sdk_public_key = \<lambda>_. Some fixture_point,
      sdk_sign = \<lambda>_ _. Some (fixture_signature, 64)\<rparr>"

definition fixture_path :: derivation_path where
  "fixture_path = \<lparr>dp_account = 0\<rparr>"

definition fixture_chunks :: "bytes list" where
  "fixture_chunks = split_frame fixture_bytes"

lemma fixture_path_wf [simp]: "path_wf fixture_path"
  by (simp add: path_wf_iff fixture_path_def)

lemma fixture_compressed: "compress_ed25519_point fixture_point = Inr (replicate 32 1)"
proof -
  have "le_nat (replicate 32 1) < field_prime"
    using le_nat_less [of "replicate 31 1"]
    by (simp add: field_prime_def replicate_num)
  then show ?thesis
    by (simp add: compress_alt fixture_point_def point_x_def Let_def replicate_num)
qed

lemma fixture_derive: "device_derive fixture_sdk () fixture_path = (Some (replicate 32 1), ())"
  by (simp add: device_derive_def fixture_sdk_def fixture_compressed ok_opt_def Let_def)

lemma fixture_key:
  "device_derive fixture_sdk () fixture_path = (Some (addr_bytes (rv_sender recognized_transfer)), ())"
  by (simp add: fixture_derive recognized_transfer_def [THEN arg_cong [where f = rv_sender]])

lemma fixture_sign: "device_sign fixture_sdk () path frame = (Some fixture_signature, ())"
  by (simp add: device_sign_def fixture_sdk_def Let_def)

lemma fixture_chunks_ok:
  "chunks_ok fixture_chunks"
  "concat fixture_chunks = review_frame devnet_asset_transfer_policy recognized_transfer"
  by (simp_all add: fixture_chunks_def split_frame_ok fixture_length max_frame_len_def
      concat_split_frame fixture_frame)

lemma fixture_loop:
  "app_loop fixture_sdk (map friendly_env (transfer_commands fixture_path fixture_chunks)) session_new
   = Some (replicate (length fixture_chunks - 1) [Send [] 0x9000]
       @ [[Show (TransactionReview review_titles recognized_transfer_lines), Send fixture_signature 0x9000,
           Show (ReviewStatus TransactionStatus True), Show ui_menu_main]], session_new)"
  using transfer_loop [OF fixture_ok fixture_path_wf fixture_key fixture_chunks_ok, of friendly_env]
  by (simp add: friendly_env_def next_apdu_Inr review_ios_def fixture_sign fixture_lines)

lemma fixture_history:
  "\<exists>evs. signing_run (device_derive fixture_sdk) (device_sign fixture_sdk) devnet_asset_transfer_policy evs
     (conc (AAwaiting fixture_path fixture_bytes), (), ())"
  using transfer_history [of devnet_asset_transfer_policy recognized_transfer fixture_path
      "device_derive fixture_sdk" "()" "()", OF fixture_ok fixture_path_wf fixture_key]
  by (simp add: fixture_frame)

lemma fixture_review:
  "\<exists>evs s. signing_run (device_derive fixture_sdk) (device_sign fixture_sdk)
       devnet_asset_transfer_policy evs (s, (), ())
     \<and> dispatch (device_derive fixture_sdk) devnet_asset_transfer_policy s
         (sign_command sign_p1_last (last fixture_chunks)) ()
       = (ReviewTransaction recognized_transfer, conc (AAwaiting fixture_path fixture_bytes), ())"
proof -
  let ?derive = "device_derive fixture_sdk" and ?p = devnet_asset_transfer_policy
  obtain s1 d1 where r: "run_steps (dispatch_step ?derive ?p) (session_new, ())
        (butlast (transfer_commands fixture_path fixture_chunks))
      = (replicate (length fixture_chunks - 1) accepted, s1, d1)"
    and d: "dispatch ?derive ?p s1 (sign_command sign_p1_last (last fixture_chunks)) d1
      = (ReviewTransaction recognized_transfer, conc (AAwaiting fixture_path (review_frame ?p recognized_transfer)), ())"
    using transfer_last [of ?p recognized_transfer fixture_path ?derive "()" "()" fixture_chunks,
      OF fixture_ok fixture_path_wf fixture_key fixture_chunks_ok] by auto
  have "signing_run ?derive (device_sign fixture_sdk) ?p
      ([] @ map2 Dispatched (butlast (transfer_commands fixture_path fixture_chunks))
         (replicate (length fixture_chunks - 1) accepted)) (s1, d1, ())"
    by (rule run_history [OF r signing_run.start])
  with d show ?thesis by (auto simp: fixture_frame)
qed

end
