(* ===== verification/Canonical_Errors.thy ===== *)
theory Canonical_Errors
  imports Canonical
begin

text \<open>
  What the canonical decoder reports on a damaged frame. \<open>cut\<close> is the
  result of a read of a shortened input: the same value as long as the bytes are there, and
  \<open>Truncated\<close> when they are not. The scan inherits this, so that cutting an
  accepted frame gives \<open>Truncated\<close> and extending it gives \<open>TrailingBytes\<close>; fields that are not
  in strictly increasing order give \<open>NonCanonicalFieldOrder\<close>.
\<close>

section \<open>Reads of an input cut short\<close>

definition cut :: "nat \<Rightarrow> usize \<Rightarrow> 'a \<Rightarrow> canonical_error + 'a" where
  "cut m off r = (if off \<le> m then Inr r else Inl Truncated)"

lemma take_at_cut:
  assumes "take_at input off n = Inr (bs, off')" "m \<le> length input"
  shows "take_at (take m input) off n = cut m off' (bs, off')"
proof -
  from assms have "off' = off + n" "off + n \<le> length input" "off + n < usize_limit"
      "bs = take n (drop off input)"
    by (auto simp: take_at_iff sits_at_def)
  with assms(2) show ?thesis
    by (auto simp: take_at_def cut_def checked_add_usize_def slice_get_def take_drop min_def)
qed

lemma read_u16_cut:
  assumes "read_u16 input off = Inr (w, off')" "m \<le> length input"
  shows "read_u16 (take m input) off = cut m off' (w, off')"
proof -
  from assms(1) obtain bs where "take_at input off 2 = Inr (bs, off')" "to_array 2 bs = Some bs"
      "w = from_le bs"
    by (auto simp: read_u16_def result_simps to_array_def split: if_splits)
  with take_at_cut [OF this(1) assms(2)] show ?thesis
    by (simp add: read_u16_def cut_def)
qed

lemma read_u32_cut:
  assumes "read_u32 input off = Inr (w, off')" "m \<le> length input"
  shows "read_u32 (take m input) off = cut m off' (w, off')"
proof -
  from assms(1) obtain bs where "take_at input off 4 = Inr (bs, off')" "to_array 4 bs = Some bs"
      "w = from_le bs"
    by (auto simp: read_u32_def result_simps to_array_def split: if_splits)
  with take_at_cut [OF this(1) assms(2)] show ?thesis
    by (simp add: read_u32_def cut_def)
qed

lemma scan_fields_mono: "scan_fields input n off previous = Inr off' \<Longrightarrow> off \<le> off'"
proof (induction n arbitrary: off previous)
  case (Suc n)
  then show ?case by (fastforce simp: scan_fields_Suc read_entry_iff)
qed simp

lemma scan_fields_cut:
  assumes "scan_fields input n off previous = Inr off'" "m \<le> length input" "off \<le> m"
  shows "scan_fields (take m input) n off previous = cut m off' off'"
  using assms(1,3)
proof (induction n arbitrary: off previous)
  case 0
  then show ?case by (simp add: cut_def)
next
  case (Suc n)
  from Suc.prems(1) obtain fid off1 flen off2 k bs off3 where
      r: "read_u16 input off = Inr (fid, off1)" "read_u32 input off1 = Inr (flen, off2)"
        "usize_try_from_u32 flen = Some k" "take_at input off2 k = Inr (bs, off3)"
    and p: "\<not> (case previous of None \<Rightarrow> False | Some previous_id \<Rightarrow> fid \<le> previous_id)"
    and s: "scan_fields input n off3 (Some fid) = Inr off'"
    by (auto simp: scan_fields.simps(2) result_simps)
  have le: "off \<le> off1" "off1 \<le> off2" "off2 \<le> off3"
    using r by (auto simp: read_u16_iff read_u32_iff take_at_iff)
  note c = read_u16_cut [OF r(1) assms(2)] read_u32_cut [OF r(2) assms(2)]
    take_at_cut [OF r(4) assms(2)]
  show ?case
  proof (cases "off3 \<le> m")
    case True
    with Suc.IH [OF s] le p r(3) c show ?thesis
      by (simp add: scan_fields.simps(2) cut_def)
  next
    case False
    then have early: "\<not> off' \<le> m"
      using scan_fields_mono [OF s] by simp
    with False le p r(3) c scan_fields_mono [OF s] show ?thesis
      by (auto simp: scan_fields.simps(2) cut_def)
  qed
qed

lemma decode_canonical_frame_cut:
  assumes "decode_canonical_frame input = Inr f" "m < length input"
  shows "decode_canonical_frame (take m input) = Inl Truncated"
proof -
  from assms(1) obtain off0 t off1 v off2 n start where
      r: "take_at input 0 (length protocol_magic) = Inr (protocol_magic, off0)"
        "read_u16 input off0 = Inr (t, off1)" "read_u16 input off1 = Inr (v, off2)"
        "read_u16 input off2 = Inr (n, start)"
    and s: "scan_fields input (unat n) start None = Inr (length input)"
    by (auto simp: decode_canonical_frame_def result_simps)
  have le: "off0 \<le> off1" "off1 \<le> off2" "off2 \<le> start"
    using r by (auto simp: read_u16_iff)
  have m: "m \<le> length input" using assms(2) by simp
  note c = take_at_cut [OF r(1) m] read_u16_cut [OF r(2) m] read_u16_cut [OF r(3) m]
    read_u16_cut [OF r(4) m]
  show ?thesis
  proof (cases "start \<le> m")
    case True
    with c le scan_fields_cut [OF s m True] assms(2) show ?thesis
      by (simp add: decode_canonical_frame_def cut_def)
  next
    case False
    with c le show ?thesis
      by (auto simp: decode_canonical_frame_def cut_def)
  qed
qed

section \<open>Inputs with bytes to spare\<close>

lemma sits_at_extend: "sits_at input off bs \<Longrightarrow> sits_at (input @ x) off bs"
  by (simp add: sits_at_def)

lemma decode_canonical_frame_extended:
  assumes "decode_canonical_frame input = Inr f" "x \<noteq> []"
  shows "decode_canonical_frame (input @ x) = Inl TrailingBytes"
proof -
  from assms(1) obtain off0 t off1 v off2 n start where
      r: "take_at input 0 (length protocol_magic) = Inr (protocol_magic, off0)"
        "read_u16 input off0 = Inr (t, off1)" "read_u16 input off1 = Inr (v, off2)"
        "read_u16 input off2 = Inr (n, start)"
    and s: "scan_fields input (unat n) start None = Inr (length input)"
    by (auto simp: decode_canonical_frame_def result_simps)
  have start: "start < usize_limit" "start \<le> length input"
    using r(4) by (auto simp: read_u16_iff sits_at_def)
  with s have "scan_fields (input @ x) (unat n) start None = Inr (length input)"
    by (auto simp: scan_fields_iff intro: sits_at_extend)
  moreover have "take_at (input @ x) 0 (length protocol_magic) = Inr (protocol_magic, off0)"
      "read_u16 (input @ x) off0 = Inr (t, off1)" "read_u16 (input @ x) off1 = Inr (v, off2)"
      "read_u16 (input @ x) off2 = Inr (n, start)"
    using r by (auto simp: take_at_iff read_u16_iff intro: sits_at_extend)
  ultimately show ?thesis
    using assms(2) by (simp add: decode_canonical_frame_def)
qed

lemma decode_canonical_frame_prefix:
  assumes "decode_canonical_frame bs = Inr f" "decode_canonical_frame (bs @ x) = Inr f'"
  shows "x = []"
  using assms decode_canonical_frame_extended [OF assms(1), of x] by auto

section \<open>Fields out of order\<close>

lemma scan_fields_disorder:
  assumes "sits_at input off (encode_fields fs)" "off + length (encode_fields fs) < usize_limit"
    and "\<not> (sorted_wrt (<) (map fst fs) \<and> above previous (map fst fs))"
  shows "scan_fields input (length fs) off previous = Inl NonCanonicalFieldOrder"
  using assms
proof (induction fs arbitrary: off previous)
  case Nil
  then show ?case by (simp add: above_def split: option.splits)
next
  case (Cons f fs)
  let ?off3 = "off + 6 + length (snd f)"
  have "read_entry input off = Inr (fst f, snd f, ?off3)"
    using Cons.prems by (simp add: read_entry_iff sits_at_append)
  then obtain off1 flen off2 k where
      r: "read_u16 input off = Inr (fst f, off1)" "read_u32 input off1 = Inr (flen, off2)"
        "usize_try_from_u32 flen = Some k" "take_at input off2 k = Inr (snd f, ?off3)"
    by (auto simp: read_entry_def result_simps)
  show ?case
  proof (cases "above previous [fst f]")
    case True
    have "above previous (map fst (f # fs))" if "above (Some (fst f)) (map fst fs)"
      using that True by (auto simp: above_def list_all_iff split: option.splits intro: less_trans)
    with Cons.prems(3) have "\<not> (sorted_wrt (<) (map fst fs) \<and> above (Some (fst f)) (map fst fs))"
      by (auto simp: above_def list_all_iff)
    then have "scan_fields input (length fs) ?off3 (Some (fst f)) = Inl NonCanonicalFieldOrder"
      using Cons by (simp add: sits_at_append add.assoc)
    with r True show ?thesis
      by (auto simp: scan_fields.simps(2) above_def split: option.splits)
  next
    case False
    with r show ?thesis
      by (auto simp: scan_fields.simps(2) above_def split: option.splits)
  qed
qed

lemma decode_canonical_frame_disorder:
  assumes "length fs < 2 ^ 16" "length (encode_frame t v fs) < usize_limit"
    and "\<not> sorted_wrt (<) (map fst fs)"
  shows "decode_canonical_frame (encode_frame t v fs) = Inl NonCanonicalFieldOrder"
proof -
  let ?input = "encode_frame t v fs" and ?n = "of_nat (length fs) :: u16"
  have at: "sits_at ?input 0 ?input" by (simp add: sits_at_def)
  then have "sits_at ?input 0 protocol_magic" "sits_at ?input 4 (to_le 2 t)"
      "sits_at ?input 6 (to_le 2 v)" "sits_at ?input 8 (to_le 2 ?n)"
      "sits_at ?input 10 (encode_fields fs)"
    by (simp_all add: encode_frame_def sits_at_append)
  moreover have "10 < usize_limit" by (simp add: usize_limit_def)
  moreover have "unat ?n = length fs" using assms(1) by (simp add: u16_length)
  ultimately have
      "take_at ?input 0 (length protocol_magic) = Inr (protocol_magic, 4)"
      "read_u16 ?input 4 = Inr (t, 6)" "read_u16 ?input 6 = Inr (v, 8)"
      "read_u16 ?input 8 = Inr (?n, 10)"
      "scan_fields ?input (unat ?n) 10 None = Inl NonCanonicalFieldOrder"
    using assms scan_fields_disorder [of ?input 10 fs None]
    by (auto simp: take_at_iff read_u16_iff length_encode_frame)
  then show ?thesis
    by (simp add: decode_canonical_frame_def)
qed

section \<open>The errors of the decoder\<close>

lemma read_errors:
  "take_at input off n = Inl e \<Longrightarrow> e = Truncated"
  "read_u16 input off = Inl e \<Longrightarrow> e = Truncated"
  "read_u32 input off = Inl e \<Longrightarrow> e = Truncated"
  by (auto simp: take_at_def read_u16_def read_u32_def try_bind_def ok_or_def
      split: sum.splits option.splits)

lemma scan_errors:
  "scan_fields input n off previous = Inl e \<Longrightarrow> e = Truncated \<or> e = NonCanonicalFieldOrder"
proof (induction n arbitrary: off previous)
  case (Suc n)
  then show ?case
    unfolding scan_fields.simps
    by (auto simp: try_bind_def ok_or_def dest: read_errors
        split: sum.splits option.splits if_splits prod.splits)
qed simp

lemma decode_canonical_frame_magic:
  "decode_canonical_frame bs = Inl InvalidMagic \<longleftrightarrow> 4 \<le> length bs \<and> take 4 bs \<noteq> protocol_magic"
proof -
  have "take_at bs 0 4 = (if 4 \<le> length bs then Inr (take 4 bs, 4) else Inl Truncated)"
    by (simp add: take_at_def checked_add_usize_def slice_get_def usize_limit_def)
  then show ?thesis
    unfolding decode_canonical_frame_def
    by (auto simp: try_bind_def dest: read_errors scan_errors split: sum.splits prod.splits if_splits)
qed

end
