(* ===== verification/Rejections.thy ===== *)
theory Rejections
  imports Derivation_Path Policy Transaction_Codec
begin

text \<open>
  Which error a rejected input gets, for the decoders that promise one: \<open>decode_path\<close> by the
  components of the path, \<open>policy_recognize\<close> by the part of a recognized transaction that was
  changed, and \<open>decode_transaction_signable\<close> by the field that was replaced, removed or added.
\<close>

section \<open>Paths\<close>

definition path_u32 :: "bytes \<Rightarrow> nat \<Rightarrow> u32" where
  "path_u32 bs i = from_be (take 4 (drop (1 + i * 4) bs))"

abbreviation path_word :: "bytes \<Rightarrow> nat \<Rightarrow> nat" where
  "path_word bs i \<equiv> unat (path_u32 bs i)"

definition path_hardened :: "bytes \<Rightarrow> bool" where
  "path_hardened bs \<longleftrightarrow>
     length bs = 21 \<and> hd bs = 5 \<and> list_all (\<lambda>i. 2 ^ 31 \<le> path_word bs i) [0..<5]"

lemma unhardened_iff: "(w :: u32) AND hardened_bit = 0 \<longleftrightarrow> unat w < 2 ^ 31"
  using path_wf_iff [of "\<lparr>dp_account = w\<rparr>"] by (simp add: path_wf_def)

lemma hardened_value:
  fixes w v :: u32
  assumes "2 ^ 31 \<le> unat w" "v AND hardened_bit = 0"
  shows "w AND NOT hardened_bit = v \<longleftrightarrow> w = v OR hardened_bit"
  using hardened_eq_iff [of w v] unhardened_iff [of w] assms by auto

lemma list_all_upt_Suc:
  "list_all P [0..<Suc n] \<longleftrightarrow> P 0 \<and> list_all (\<lambda>i. P (Suc i)) [0..<n]"
  by (simp add: upt_conv_Cons list.pred_map o_def del: upt_Suc flip: map_Suc_upt)

lemma check_hardened_first:
  "check_hardened k ws = Inl e \<longleftrightarrow>
     (\<exists>i < length ws. e = NotHardened (k + i) \<and> ws ! i AND hardened_bit = 0
        \<and> list_all (\<lambda>j. ws ! j AND hardened_bit \<noteq> 0) [0..<i])"
proof (induction ws arbitrary: k)
  case (Cons w ws)
  show ?case
  proof (cases "w AND hardened_bit = 0")
    case True
    then show ?thesis
      by (auto simp: Ex_less_Suc2 list_all_upt_Suc simp del: upt_Suc)
  next
    case False
    then show ?thesis
      by (simp add: Cons.IH Ex_less_Suc2 list_all_upt_Suc del: upt_Suc)
  qed
qed simp

lemma path_component_word:
  assumes "length bs = 21" "i < 5"
  shows "path_component bs i = Inr (path_u32 bs i)"
  using assms by (simp add: path_component_def path_u32_def Let_def slice_get_def)

definition path_words :: "bytes \<Rightarrow> u32 list" where
  "path_words bs = map (path_u32 bs) [0..<5]"

lemma path_words_hardened:
  "check_hardened 0 (path_words bs) = Inr u \<longleftrightarrow> list_all (\<lambda>i. 2 ^ 31 \<le> path_word bs i) [0..<5]"
  by (simp add: check_hardened_Inr path_words_def unhardened_iff list.pred_map o_def
      not_less del: upt_Suc)

lemma path_words_unhardened:
  "check_hardened 0 (path_words bs) = Inl e \<longleftrightarrow>
     (\<exists>i < 5. e = NotHardened i \<and> path_word bs i < 2 ^ 31
        \<and> list_all (\<lambda>j. 2 ^ 31 \<le> path_word bs j) [0..<i])"
  by (auto simp: check_hardened_first path_words_def unhardened_iff list_all_iff
      not_less simp del: upt_Suc)

lemma decode_path_words:
  "decode_path bs =
    (if length bs \<noteq> 21 then Inl (WrongLength (length bs))
     else if hd bs \<noteq> 5 then Inl (WrongDepth (hd bs))
     else case check_hardened 0 (path_words bs) of
       Inl e \<Rightarrow> Inl e
     | Inr _ \<Rightarrow>
         if path_word bs 0 \<noteq> 2 ^ 31 + 44 then Inl WrongPurpose
         else if path_word bs 1 \<noteq> 2 ^ 31 + 21333 then Inl WrongCoinType
         else if path_word bs 3 \<noteq> 2 ^ 31 then Inl WrongChange
         else if path_word bs 4 \<noteq> 2 ^ 31 then Inl WrongAddressIndex
         else Inr \<lparr>dp_account = path_words bs ! 2 AND NOT hardened_bit\<rparr>)"
proof (cases "length bs = 21 \<and> hd bs = 5")
  case False
  then show ?thesis
    by (cases bs) (auto simp: decode_path_def path_encoded_len_def path_depth_def)
next
  case True
  then obtain r where bs: "bs = 5 # r" by (cases bs) auto
  with True have len: "length r = 20" by simp
  let ?bs = "5 # r"
  have w: "path_words ?bs = [path_u32 ?bs 0, path_u32 ?bs 1, path_u32 ?bs 2, path_u32 ?bs 3,
      path_u32 ?bs 4]"
    by (simp add: path_words_def numeral_eq_Suc)
  have c: "path_component ?bs i = Inr (path_u32 ?bs i)" if "i < 5" for i
    using path_component_word [of ?bs i] len that by simp
  show ?thesis
  proof (cases "check_hardened 0 (path_words ?bs)")
    case (Inl e)
    with len show ?thesis
      unfolding decode_path_def bs
      by (simp add: path_encoded_len_def path_depth_def c w del: check_hardened.simps)
  next
    case (Inr u)
    then have "list_all (\<lambda>i. 2 ^ 31 \<le> path_word ?bs i) [0..<5]" by (simp only: path_words_hardened)
    then have "2 ^ 31 \<le> path_word ?bs i" if "i < 5" for i using that by (simp add: list_all_iff)
    note v = hardened_value [OF this]
    show ?thesis
      using Inr len v [of 0 purpose_component] v [of 1 coin_type_component] v [of 3 0] v [of 4 0]
      unfolding decode_path_def bs
      by (simp add: path_encoded_len_def path_depth_def c w word_unat_eq_iff
          purpose_component_def coin_type_component_def hardened_bit_def del: check_hardened.simps)
  qed
qed

lemma path_shape_errors:
  "(decode_path bs = Inl (WrongLength n) \<longleftrightarrow> length bs = n \<and> n \<noteq> 21)
   \<and> (decode_path bs = Inl (WrongDepth d) \<longleftrightarrow> length bs = 21 \<and> hd bs = d \<and> d \<noteq> 5)
   \<and> (decode_path bs = Inl (NotHardened i) \<longleftrightarrow> length bs = 21 \<and> hd bs = 5 \<and> i < 5
     \<and> path_word bs i < 2 ^ 31 \<and> list_all (\<lambda>j. 2 ^ 31 \<le> path_word bs j) [0..<i])"
proof (cases "check_hardened 0 (path_words bs)")
  case (Inl e)
  then obtain k where "e = NotHardened k" by (auto simp: path_words_unhardened)
  with Inl path_words_unhardened [of bs "NotHardened i"] show ?thesis
    by (simp add: decode_path_words del: upt_Suc) blast
next
  case (Inr u)
  then have "\<forall>j \<in> {0..<5}. \<not> path_word bs j < 2 ^ 31"
    by (simp add: path_words_hardened list_all_iff not_less del: upt_Suc)
  then have "\<not> (i < 5 \<and> path_word bs i < 2 ^ 31)" by simp
  with Inr show ?thesis by (auto simp: decode_path_words)
qed

lemma path_value_errors:
  "(decode_path bs = Inl WrongPurpose \<longleftrightarrow> path_hardened bs \<and> path_word bs 0 \<noteq> 2 ^ 31 + 44)
   \<and> (decode_path bs = Inl WrongCoinType \<longleftrightarrow> path_hardened bs \<and> path_word bs 0 = 2 ^ 31 + 44
     \<and> path_word bs 1 \<noteq> 2 ^ 31 + 21333)
   \<and> (decode_path bs = Inl WrongChange \<longleftrightarrow> path_hardened bs \<and> path_word bs 0 = 2 ^ 31 + 44
     \<and> path_word bs 1 = 2 ^ 31 + 21333 \<and> path_word bs 3 \<noteq> 2 ^ 31)
   \<and> (decode_path bs = Inl WrongAddressIndex \<longleftrightarrow> path_hardened bs \<and> path_word bs 0 = 2 ^ 31 + 44
     \<and> path_word bs 1 = 2 ^ 31 + 21333 \<and> path_word bs 3 = 2 ^ 31 \<and> path_word bs 4 \<noteq> 2 ^ 31)"
proof -
  have h: "path_hardened bs \<longleftrightarrow> length bs = 21 \<and> hd bs = 5
      \<and> (\<exists>u. check_hardened 0 (path_words bs) = Inr u)"
    by (simp add: path_hardened_def path_words_hardened del: upt_Suc)
  show ?thesis
  proof (cases "check_hardened 0 (path_words bs)")
    case (Inl e)
    then obtain k where "e = NotHardened k" by (auto simp: path_words_unhardened)
    with Inl show ?thesis by (simp add: h decode_path_words)
  next
    case (Inr u)
    then show ?thesis by (simp add: h decode_path_words)
  qed
qed

section \<open>The policy\<close>

lemma policy_facts:
  assumes "policy_recognize p tx = Inr amount"
  obtains fee source frame where
    "bs_as_str (tx_chain_id tx) = pol_chain_id p" "tx_protocol_version tx = pol_protocol_version p"
    "tx_epoch tx = pol_epoch p" "tx_module_ref tx = policy_module_ref p"
    "bs_as_str (tx_entrypoint tx) = pol_entrypoint p" "am_len (tx_access_manifest tx) = 3"
    "list_all (\<lambda>e. ae_mode e = WriteMode) (am_iter (tx_access_manifest tx))"
    "tx_fee_payment tx = Some fee" "am_get (tx_access_manifest tx) 0 = Some source"
    "fp_fee_object fee = ae_object_ref source" "fp_asset_id fee = AssetId (pol_fee_asset_id p)"
    "decode_canonical_frame (tx_args tx) = Inr frame" "cf_type_id frame = pol_args_type_id p"
    "cf_version frame = pol_args_version p"
    "cf_require_only_fields frame [pol_args_field_id p] = Inr ()"
    "cf_required_u64 frame (pol_args_field_id p) = Inr amount" "amount \<noteq> 0"
  using assms unfolding policy_recognize_iff policy_matches_def
  unfolding policy_args_decode_iff [symmetric] by blast

lemma no_other_mode: "list_all (\<lambda>e. ae_mode e = m) es \<Longrightarrow> \<not> list_ex (\<lambda>e. ae_mode e \<noteq> m) es"
  by (simp add: list_all_iff list_ex_iff)

lemmas policy_eval = policy_recognize_def policy_module_ref_def no_other_mode result_simps

lemma policy_context_change:
  assumes "policy_recognize p tx = Inr amount"
  shows "policy_recognize p (tx\<lparr>tx_chain_id := c\<rparr>)
      = (if bs_as_str c = bs_as_str (tx_chain_id tx) then Inr amount else Inl PolChainId)"
    and "policy_recognize p (tx\<lparr>tx_protocol_version := v\<rparr>)
      = (if v = tx_protocol_version tx then Inr amount else Inl PolProtocolVersion)"
    and "policy_recognize p (tx\<lparr>tx_epoch := e\<rparr>)
      = (if e = tx_epoch tx then Inr amount else Inl PolEpoch)"
    and "policy_recognize p (tx\<lparr>tx_entrypoint := s\<rparr>)
      = (if bs_as_str s = bs_as_str (tx_entrypoint tx) then Inr amount else Inl PolEntrypoint)"
    and "policy_recognize p (tx\<lparr>tx_sender := a, tx_nonce := n, tx_gas_limit := g\<rparr>) = Inr amount"
  using assms by (rule policy_facts; simp add: policy_eval)+

lemma policy_module_change:
  assumes "policy_recognize p tx = Inr amount"
  shows "policy_recognize p (tx\<lparr>tx_module_ref := r\<rparr>)
    = (if or_id r \<noteq> or_id (tx_module_ref tx) then Inl PolModuleId
       else if or_version r \<noteq> or_version (tx_module_ref tx) then Inl PolModuleVersion
       else if dg_algorithm (or_digest r) \<noteq> dg_algorithm (or_digest (tx_module_ref tx))
         then Inl PolModuleDigestAlgorithm
       else if dg_bytes (or_digest r) \<noteq> dg_bytes (or_digest (tx_module_ref tx))
         then Inl PolModuleDigest
       else Inr amount)"
  using assms by (rule policy_facts) (simp add: policy_eval)

lemma policy_manifest_change:
  assumes "policy_recognize p tx = Inr amount" "tx_fee_payment tx = Some fee"
  shows "policy_recognize p (tx\<lparr>tx_access_manifest := am_of_list es\<rparr>)
    = (if length es \<noteq> 3 \<or> list_ex (\<lambda>e. ae_mode e \<noteq> WriteMode) es then Inl PolAccessShape
       else if ae_object_ref (hd es) \<noteq> fp_fee_object fee then Inl PolFeeObjectMismatch
       else Inr amount)"
proof -
  have "hd es = es ! 0" if "length es = 3" using that by (intro hd_conv_nth) auto
  with assms(2) show ?thesis
    by - (rule policy_facts [OF assms(1)], auto simp: policy_eval)
qed

lemma policy_fee_change:
  assumes "policy_recognize p tx = Inr amount"
  shows "policy_recognize p (tx\<lparr>tx_fee_payment := f\<rparr>)
    = (case f of None \<Rightarrow> Inl PolFeeRequired
       | Some fee' \<Rightarrow>
           if fp_fee_object fee' \<noteq> fp_fee_object (the (tx_fee_payment tx)) then Inl PolFeeObjectMismatch
           else if fp_asset_id fee' \<noteq> fp_asset_id (the (tx_fee_payment tx)) then Inl PolFeeAsset
           else Inr amount)"
  using assms by (rule policy_facts) (simp add: policy_eval split: option.split)

lemma policy_args_damaged:
  assumes "policy_recognize p tx = Inr amount" "decode_canonical_frame args = Inl e"
  shows "policy_recognize p (tx\<lparr>tx_args := args\<rparr>) = Inl PolArgumentsEncoding"
  using assms(2) by - (rule policy_facts [OF assms(1)], simp add: policy_eval)

lemma only_field:
  assumes "fields_ok fs" "fst ` set fs \<subseteq> {k}"
  shows "fs = [] \<or> (\<exists>b. fs = [(k, b)])"
proof (cases fs)
  case (Cons f gs)
  with assms have "gs = []" by (cases gs) (auto simp: fields_ok_def)
  with Cons assms(2) show ?thesis by (cases f) auto
qed simp

lemma policy_args_change:
  assumes "policy_recognize p tx = Inr amount" "fields_ok fs"
  shows "policy_recognize p (tx\<lparr>tx_args := encode_frame t v fs\<rparr>)
    = (if t \<noteq> pol_args_type_id p then Inl (PolArgumentsTypeId t)
       else if v \<noteq> pol_args_version p then Inl (PolArgumentsVersion v)
       else if map fst fs \<noteq> [pol_args_field_id p] \<or> length (snd (hd fs)) \<noteq> 8
         then Inl PolArgumentsShape
       else if from_le (snd (hd fs)) = (0 :: u64) then Inl PolZeroAmount
       else Inr (from_le (snd (hd fs))))"
proof -
  let ?k = "pol_args_field_id p" and ?f = "mk_frame (pol_args_type_id p) (pol_args_version p) fs"
  have d: "decode_canonical_frame (encode_frame t v fs) = Inr (mk_frame t v fs)" for t v
    by (rule decode_canonical_frame_mk [OF assms(2)])
  show ?thesis
  proof (cases "t = pol_args_type_id p \<and> v = pol_args_version p")
    case other: False
    then show ?thesis by - (rule policy_facts [OF assms(1)], auto simp: policy_eval d)
  next
    case tv: True
    show ?thesis
    proof (cases "fst ` set fs \<subseteq> {?k}")
      case False
      then obtain e where e: "cf_require_only_fields ?f [?k] = Inl e"
        using assms(2) by (cases "cf_require_only_fields ?f [?k]") auto
      from False have "map fst fs \<noteq> [?k]" by (metis empty_set list.simps(15) set_map subset_refl)
      with tv e show ?thesis by - (rule policy_facts [OF assms(1)], simp add: policy_eval d)
    next
      case True
      then have only: "cf_require_only_fields ?f [?k] = Inr ()" using assms(2) by simp
      from only_field [OF assms(2) True] consider "fs = []" | b where "fs = [(?k, b)]" by blast
      then have "cf_required_u64 ?f ?k
          = (if map fst fs \<noteq> [?k] then Inl (MissingField ?k)
             else if length (snd (hd fs)) \<noteq> 8
               then Inl (InvalidFieldLength ?k 8 (length (snd (hd fs))))
             else Inr (from_le (snd (hd fs))))"
        using assms(2)
        by cases (simp_all add: cf_required_u64_def cf_required_field_def to_array_def)
      with tv only show ?thesis by - (rule policy_facts [OF assms(1)], simp add: policy_eval d)
    qed
  qed
qed

section \<open>Fields replaced, left out, added\<close>

text \<open>
  A field list with the value of field \<open>k\<close> replaced (\<open>replace_field\<close>) or with the field left out
  (\<open>drop_field\<close>), and what a decoder with \<open>require_only_fields\<close> sees of the frame of such a list.
\<close>

definition replace_field :: "u16 \<Rightarrow> bytes \<Rightarrow> (u16 \<times> bytes) list \<Rightarrow> (u16 \<times> bytes) list" where
  "replace_field k b fs = map (\<lambda>(i, x). (i, if i = k then b else x)) fs"

definition drop_field :: "u16 \<Rightarrow> (u16 \<times> bytes) list \<Rightarrow> (u16 \<times> bytes) list" where
  "drop_field k fs = filter (\<lambda>(i, x). i \<noteq> k) fs"

lemma map_fst_replace_field [simp]: "map fst (replace_field k b fs) = map fst fs"
  by (induction fs) (auto simp: replace_field_def)

lemma map_of_replace_field:
  "map_of (replace_field k b fs) i = (if i = k then map_option (\<lambda>_. b) (map_of fs k) else map_of fs i)"
  by (induction fs) (auto simp: replace_field_def)

lemma map_of_drop_field: "map_of (drop_field k fs) i = (if i = k then None else map_of fs i)"
  by (induction fs) (auto simp: drop_field_def)

lemma length_replace_field:
  "distinct (map fst fs) \<Longrightarrow>
     length (encode_fields (replace_field k b fs)) \<le> length (encode_fields fs) + length b"
proof (induction fs)
  case (Cons f fs)
  obtain i x where f: "f = (i, x)" by (cases f)
  have "replace_field k b fs = fs" if "k \<notin> fst ` set fs"
    using that by (induction fs) (auto simp: replace_field_def)
  with Cons f show ?case by (cases "i = k") (auto simp: replace_field_def)
qed (simp add: replace_field_def)

lemma length_drop_field: "length (encode_fields (drop_field k fs)) \<le> length (encode_fields fs)"
  by (induction fs) (auto simp: drop_field_def)

text \<open>The schema of a frame: sorted fields, all allowed, with room for another value.\<close>

definition schema :: "u16 list \<Rightarrow> (u16 \<times> bytes) list \<Rightarrow> bool" where
  "schema allowed fs \<longleftrightarrow> sorted_wrt (<) (map fst fs) \<and> length fs < 2 ^ 15
     \<and> length (encode_fields fs) < 2 ^ 29 \<and> fst ` set fs \<subseteq> set allowed"

text \<open>A frame with this header, whose fields are allowed and are looked up in \<open>look\<close>.\<close>

definition frame_view ::
    "u16 \<Rightarrow> u16 \<Rightarrow> u16 list \<Rightarrow> (u16 \<Rightarrow> bytes option) \<Rightarrow> canonical_frame \<Rightarrow> bool" where
  "frame_view t v allowed look f \<longleftrightarrow> cf_type_id f = t \<and> cf_version f = v
     \<and> cf_require_only_fields f allowed = Inr () \<and> cf_field f = look"

lemma replaced_frame:
  assumes "schema allowed fs" "length b < 2 ^ 30"
  obtains frame where "decode_canonical_frame (encode_frame t v (replace_field k b fs)) = Inr frame"
    "frame_view t v allowed
       (\<lambda>i. if i = k then map_option (\<lambda>_. b) (map_of fs k) else map_of fs i) frame"
proof -
  let ?fs = "replace_field k b fs"
  from assms(1) have "distinct (map fst fs)" by (simp add: schema_def strict_sorted_iff)
  from length_replace_field [OF this, of k b] assms have ok: "fields_ok ?fs"
    by (intro fields_ok_short) (simp_all add: schema_def, simp add: replace_field_def)
  have "fst ` set ?fs \<subseteq> set allowed"
    using assms(1) by (metis map_fst_replace_field list.set_map schema_def)
  with ok have "frame_view t v allowed
      (\<lambda>i. if i = k then map_option (\<lambda>_. b) (map_of fs k) else map_of fs i) (mk_frame t v ?fs)"
    by (simp add: frame_view_def fun_eq_iff map_of_replace_field)
  with decode_canonical_frame_mk [OF ok] show ?thesis by (rule that)
qed

lemma dropped_frame:
  assumes "schema allowed fs"
  obtains frame where "decode_canonical_frame (encode_frame t v (drop_field k fs)) = Inr frame"
    "frame_view t v allowed (\<lambda>i. if i = k then None else map_of fs i) frame"
proof -
  let ?fs = "drop_field k fs"
  have ok: "fields_ok ?fs"
  proof (rule fields_ok_short)
    have "map fst ?fs = filter (\<lambda>i. i \<noteq> k) (map fst fs)"
      by (simp add: drop_field_def filter_map o_def case_prod_beta')
    then show "sorted_wrt (<) (map fst ?fs)"
      using assms by (simp add: schema_def sorted_wrt_filter)
    have "length ?fs \<le> length fs" by (simp add: drop_field_def)
    then show "length ?fs < 2 ^ 16" using assms by (simp add: schema_def)
    show "length (encode_fields ?fs) < 2 ^ 31"
      using length_drop_field [of k fs] assms by (simp add: schema_def)
  qed
  have "fst ` set ?fs \<subseteq> set allowed" using assms by (auto simp: drop_field_def schema_def)
  with ok have "frame_view t v allowed (\<lambda>i. if i = k then None else map_of fs i) (mk_frame t v ?fs)"
    by (simp add: frame_view_def fun_eq_iff map_of_drop_field)
  with decode_canonical_frame_mk [OF ok] show ?thesis by (rule that)
qed

lemma extended_frame:
  assumes "schema allowed fs" "length b < 2 ^ 30" "list_all (\<lambda>i. i < k) allowed"
  obtains frame where "decode_canonical_frame (encode_frame t v (fs @ [(k, b)])) = Inr frame"
    "cf_type_id frame = t" "cf_version frame = v"
    "cf_require_only_fields frame allowed = Inl (UnexpectedField k)"
proof -
  let ?fs = "fs @ [(k, b)]"
  have ok: "fields_ok ?fs"
  proof (rule fields_ok_short)
    from assms(1,3) show "sorted_wrt (<) (map fst ?fs)"
      by (auto simp: schema_def sorted_wrt_append list_all_iff)
    from assms(1) show "length ?fs < 2 ^ 16" by (simp add: schema_def)
    have "encode_fields ?fs = encode_fields fs @ encode_field (k, b)"
      by (simp add: encode_fields_def)
    then show "length (encode_fields ?fs) < 2 ^ 31" using assms(1,2) by (simp add: schema_def)
  qed
  have "find (\<lambda>i. i \<notin> set allowed) (map fst fs) = None"
    using assms(1) by (auto simp: find_None_iff schema_def)
  then have "find (\<lambda>i. i \<notin> set allowed) (map fst fs @ [k]) = Some k"
    using assms(3) by (induction fs) (auto simp: list_all_iff)
  with ok have "cf_require_only_fields (mk_frame t v ?fs) allowed = Inl (UnexpectedField k)"
    by (simp add: cf_require_only_fields_mk)
  with decode_canonical_frame_mk [OF ok] show ?thesis by (intro that) simp_all
qed

lemmas field_eval = frame_view_def cf_require_type_def cf_require_version_def cf_required_field_def
  cf_required_u16_def cf_required_u32_def cf_required_u64_def cf_required_array_def to_array_def

section \<open>Transactions\<close>

definition transaction_frame :: "(u16 \<times> bytes) list \<Rightarrow> bytes" where
  "transaction_frame fs = encode_frame transaction_type_id encoding_version fs"

lemma tx_schema:
  assumes "tx_wf tx"
  shows "schema tx_allowed_fields (tx_fields tx)"
  using tx_fields_length [OF assms] tx_fields_sorted [of tx]
  by (auto simp: schema_def encode_transaction_signable_def length_encode_frame)
    (auto simp: tx_fields_def tx_allowed_fields_def split: option.splits)

lemma tx_parts:
  assumes "tx_wf tx"
  shows "bs_from_utf8_slice max_chain_id_bytes (bs_as_str (tx_chain_id tx)) = Inr (tx_chain_id tx)"
    and "bs_from_utf8_slice max_entrypoint_bytes (bs_as_str (tx_entrypoint tx))
      = Inr (tx_entrypoint tx)"
    and "\<not> bs_is_empty (tx_entrypoint tx)"
    and "decode_access_manifest (encode_access_manifest (tx_access_manifest tx)) max_access_entries
      = Inr (tx_access_manifest tx)"
    and "decode_object_ref (encode_object_ref (tx_module_ref tx)) = Inr (tx_module_ref tx)"
    and "address_new (addr_bytes (tx_sender tx)) = tx_sender tx"
    and "length (addr_bytes (tx_sender tx)) = 32" and "\<not> max_args_bytes < length (tx_args tx)"
    and "(case map_of (case tx_fee_payment tx of None \<Rightarrow> []
            | Some f \<Rightarrow> [(11 :: u16, encode_fee_payment f)]) 11 of
          Some bs \<Rightarrow> try_bind (decode_fee_payment bs) (\<lambda>fp. Inr (Some fp)) | None \<Rightarrow> Inr None)
        = Inr (tx_fee_payment tx)"
  using assms manifest_codec.decode_encode object_ref_codec.decode_encode fee_codec.decode_encode
  by (auto simp: tx_wf_def addr_wf_def bs_from_utf8_slice_iff bs_is_empty_iff split: option.splits)

lemmas replaced_tx_frame = replaced_frame
  [OF tx_schema, where t = transaction_type_id and v = encoding_version]
lemmas dropped_tx_frame = dropped_frame
  [OF tx_schema, where t = transaction_type_id and v = encoding_version]

lemmas transaction_eval = decode_transaction_signable_def tx_fields_def transaction_frame_def field_eval

lemmas tx_bounds = max_chain_id_bytes_def max_frame_chain_id_bytes_def max_entrypoint_bytes_def
  max_args_bytes_def

lemmas tx_parts_eval = tx_parts [unfolded tx_bounds]

lemma bs_from_utf8_slice_empty: "bs_from_utf8_slice n b = Inr s \<Longrightarrow> bs_is_empty s \<longleftrightarrow> b = []"
  by (auto simp: bs_from_utf8_slice_iff bs_is_empty_iff)

lemma replaced_text_field:
  assumes "tx_wf tx" "length b < 2 ^ 30"
  shows "decode_transaction_signable (transaction_frame (replace_field 1 b (tx_fields tx)))
      = (case bs_from_utf8_slice 64 b of
           Inl e \<Rightarrow> Inl (TxChainId e) | Inr c \<Rightarrow> Inr (tx\<lparr>tx_chain_id := c\<rparr>))"
    and "decode_transaction_signable (transaction_frame (replace_field 8 b (tx_fields tx)))
      = (case bs_from_utf8_slice 64 b of
           Inl e \<Rightarrow> Inl (TxEntrypoint e)
         | Inr s \<Rightarrow> if b = [] then Inl TxEmptyEntrypoint else Inr (tx\<lparr>tx_entrypoint := s\<rparr>))"
    and "decode_transaction_signable (transaction_frame (replace_field 9 b (tx_fields tx)))
      = (if length b > 40 then Inl (TxArgs \<lparr>ce_actual = length b, ce_maximum = 40\<rparr>)
         else Inr (tx\<lparr>tx_args := b\<rparr>))"
  by - (rule replaced_tx_frame [OF assms, where k = 1],
      simp add: transaction_eval tx_parts_eval [OF assms(1)] tx_bounds split: sum.split,
    rule replaced_tx_frame [OF assms, where k = 8],
      simp add: transaction_eval tx_parts_eval [OF assms(1)] tx_bounds bs_from_utf8_slice_empty
        split: sum.split,
    rule replaced_tx_frame [OF assms, where k = 9],
      simp add: transaction_eval tx_parts_eval [OF assms(1)] tx_bounds)

lemma replaced_number_field:
  assumes "tx_wf tx" "length b < 2 ^ 30"
  shows "decode_transaction_signable (transaction_frame (replace_field 2 b (tx_fields tx)))
      = (if length b = 4 then Inr (tx\<lparr>tx_protocol_version := from_le b\<rparr>)
         else Inl (TxCanonical (InvalidFieldLength 2 4 (length b))))"
    and "decode_transaction_signable (transaction_frame (replace_field 3 b (tx_fields tx)))
      = (if length b = 8 then Inr (tx\<lparr>tx_epoch := from_le b\<rparr>)
         else Inl (TxCanonical (InvalidFieldLength 3 8 (length b))))"
    and "decode_transaction_signable (transaction_frame (replace_field 4 b (tx_fields tx)))
      = (if length b = 32 then Inr (tx\<lparr>tx_sender := Address b\<rparr>) else Inl TxSender)"
    and "decode_transaction_signable (transaction_frame (replace_field 5 b (tx_fields tx)))
      = (if length b = 8 then Inr (tx\<lparr>tx_nonce := from_le b\<rparr>)
         else Inl (TxCanonical (InvalidFieldLength 5 8 (length b))))"
    and "decode_transaction_signable (transaction_frame (replace_field 10 b (tx_fields tx)))
      = (if length b = 8 then Inr (tx\<lparr>tx_gas_limit := from_le b\<rparr>)
         else Inl (TxCanonical (InvalidFieldLength 10 8 (length b))))"
  by - (rule replaced_tx_frame [OF assms, where k = 2],
      simp add: transaction_eval tx_parts_eval [OF assms(1)] tx_bounds,
    rule replaced_tx_frame [OF assms, where k = 3],
      simp add: transaction_eval tx_parts_eval [OF assms(1)] tx_bounds,
    rule replaced_tx_frame [OF assms, where k = 4],
      simp add: transaction_eval tx_parts_eval [OF assms(1)] tx_bounds,
    rule replaced_tx_frame [OF assms, where k = 5],
      simp add: transaction_eval tx_parts_eval [OF assms(1)] tx_bounds,
    rule replaced_tx_frame [OF assms, where k = 10],
      simp add: transaction_eval tx_parts_eval [OF assms(1)] tx_bounds)

lemma replaced_nested_field:
  assumes "tx_wf tx" "length b < 2 ^ 30"
  shows "decode_transaction_signable (transaction_frame (replace_field 6 b (tx_fields tx)))
      = (case decode_access_manifest b max_access_entries of
           Inl e \<Rightarrow> Inl e | Inr m \<Rightarrow> Inr (tx\<lparr>tx_access_manifest := m\<rparr>))"
    and "decode_transaction_signable (transaction_frame (replace_field 7 b (tx_fields tx)))
      = (case decode_object_ref b of Inl e \<Rightarrow> Inl e | Inr r \<Rightarrow> Inr (tx\<lparr>tx_module_ref := r\<rparr>))"
    and "decode_transaction_signable (transaction_frame (replace_field 11 b (tx_fields tx)))
      = (if tx_fee_payment tx = None then Inr tx
         else case decode_fee_payment b of
           Inl e \<Rightarrow> Inl e | Inr f \<Rightarrow> Inr (tx\<lparr>tx_fee_payment := Some f\<rparr>))"
  by - (rule replaced_tx_frame [OF assms, where k = 6],
      simp add: transaction_eval tx_parts_eval [OF assms(1)] tx_bounds split: sum.split,
    rule replaced_tx_frame [OF assms, where k = 7],
      simp add: transaction_eval tx_parts_eval [OF assms(1)] tx_bounds split: sum.split,
    rule replaced_tx_frame [OF assms, where k = 11],
      cases "tx_fee_payment tx",
      simp_all add: transaction_eval tx_parts_eval [OF assms(1)] tx_bounds split: sum.split)

lemma missing_transaction_field:
  assumes "tx_wf tx"
  shows "k \<in> {1, 2, 3, 5, 6, 7, 8, 9, 10} \<Longrightarrow>
      decode_transaction_signable (transaction_frame (drop_field k (tx_fields tx)))
        = Inl (TxCanonical (MissingField k))"
    and "decode_transaction_signable (transaction_frame (drop_field 4 (tx_fields tx))) = Inl TxSender"
    and "decode_transaction_signable (transaction_frame (drop_field 11 (tx_fields tx)))
      = Inr (tx\<lparr>tx_fee_payment := None\<rparr>)"
    apply (rule dropped_tx_frame [OF assms, where k = k], elim insertE emptyE;
      simp add: transaction_eval tx_parts_eval [OF assms] tx_bounds)
   apply (rule dropped_tx_frame [OF assms, where k = 4],
      simp add: transaction_eval tx_parts_eval [OF assms] tx_bounds)
  apply (rule dropped_tx_frame [OF assms, where k = 11], cases "tx_fee_payment tx",
      simp_all add: transaction_eval tx_parts_eval [OF assms] tx_bounds)
  done

lemma unknown_transaction_field:
  assumes "tx_wf tx" "length b < 2 ^ 30" "11 < k"
  shows "decode_transaction_signable (transaction_frame (tx_fields tx @ [(k, b)]))
      = Inl (TxCanonical (UnexpectedField k))"
proof -
  from assms(3) have "list_all (\<lambda>i. i < k) tx_allowed_fields" 
    by (auto simp: tx_allowed_fields_def intro: less_trans [OF _ assms(3)])
  from tx_schema [OF assms(1)] assms(2) this show ?thesis
    by (rule extended_frame [where t = transaction_type_id and v = encoding_version])
      (simp add: decode_transaction_signable_def transaction_frame_def field_eval)
qed

section \<open>Signature frames\<close>

definition signature_frame_bytes :: "(u16 \<times> bytes) list \<Rightarrow> bytes" where
  "signature_frame_bytes fs = encode_frame signature_frame_type_id signature_frame_version fs"

definition sf_small :: "signature_frame \<Rightarrow> bool" where
  "sf_small f \<longleftrightarrow> sf_wf f \<and> length (encode_signature_frame f) < 2 ^ 29"

lemma sf_schema: "sf_small f \<Longrightarrow> schema sf_allowed_fields (sf_fields f)"
  by (simp add: sf_small_def schema_def encode_signature_frame_def length_encode_frame)
    (simp add: sf_fields_def sf_allowed_fields_def)

lemma sf_parts:
  assumes "sf_small f"
  shows "bs_from_utf8_slice 64 (bs_as_str (sf_chain_id f)) = Inr (sf_chain_id f)"
    and "bs_from_utf8_slice 32 (bs_as_str (sf_message_type f)) = Inr (sf_message_type f)"
    and "\<not> str_trim_is_empty (bs_as_str (sf_chain_id f))"
    and "\<not> str_trim_is_empty (bs_as_str (sf_message_type f))"
  using assms
  by (simp_all add: sf_small_def sf_wf_def bs_from_utf8_slice_iff max_frame_chain_id_bytes_def
      max_message_type_bytes_def)

lemmas replaced_sf_frame = replaced_frame
  [OF sf_schema, where t = signature_frame_type_id and v = signature_frame_version]
lemmas dropped_sf_frame = dropped_frame
  [OF sf_schema, where t = signature_frame_type_id and v = signature_frame_version]

lemmas sf_eval = decode_signature_frame_def sf_fields_def signature_frame_bytes_def field_eval
  scheme_id.try_from_as_wire max_frame_chain_id_bytes_def max_message_type_bytes_def

lemma bs_from_utf8_slice_text: "bs_from_utf8_slice n b = Inr s \<Longrightarrow> bs_as_str s = b"
  by (simp add: bs_from_utf8_slice_iff)

lemma replaced_sf_text:
  assumes "sf_small f" "length b < 2 ^ 30"
  shows "decode_signature_frame (signature_frame_bytes (replace_field 1 b (sf_fields f)))
      = (case bs_from_utf8_slice 64 b of
           Inl e \<Rightarrow> Inl (FrChainId e)
         | Inr c \<Rightarrow> if str_trim_is_empty b then Inl FrEmptyChainId else Inr (f\<lparr>sf_chain_id := c\<rparr>))"
    and "decode_signature_frame (signature_frame_bytes (replace_field 4 b (sf_fields f)))
      = (case bs_from_utf8_slice 32 b of
           Inl e \<Rightarrow> Inl (FrMessageType e)
         | Inr m \<Rightarrow> if str_trim_is_empty b then Inl FrEmptyMessageType
             else Inr (f\<lparr>sf_message_type := m\<rparr>))"
    and "decode_signature_frame (signature_frame_bytes (replace_field 6 b (sf_fields f)))
      = Inr (f\<lparr>sf_payload := b\<rparr>)"
  by - (rule replaced_sf_frame [OF assms, where k = 1],
      simp add: sf_eval sf_parts [OF assms(1)] bs_from_utf8_slice_text split: sum.split,
    rule replaced_sf_frame [OF assms, where k = 4],
      simp add: sf_eval sf_parts [OF assms(1)] bs_from_utf8_slice_text split: sum.split,
    rule replaced_sf_frame [OF assms, where k = 6],
      simp add: sf_eval sf_parts [OF assms(1)])

lemma replaced_sf_number:
  assumes "sf_small f" "length b < 2 ^ 30"
  shows "decode_signature_frame (signature_frame_bytes (replace_field 2 b (sf_fields f)))
      = (if length b = 4 then Inr (f\<lparr>sf_protocol_version := from_le b\<rparr>)
         else Inl (FrCanonical (InvalidFieldLength 2 4 (length b))))"
    and "decode_signature_frame (signature_frame_bytes (replace_field 3 b (sf_fields f)))
      = (if length b = 8 then Inr (f\<lparr>sf_epoch := from_le b\<rparr>)
         else Inl (FrCanonical (InvalidFieldLength 3 8 (length b))))"
    and "decode_signature_frame (signature_frame_bytes (replace_field 5 b (sf_fields f)))
      = (if length b \<noteq> 2 then Inl (FrCanonical (InvalidFieldLength 5 2 (length b)))
         else case scheme_try_from_u16 (from_le b) of
           None \<Rightarrow> Inl (FrUnknownSignatureScheme (from_le b))
         | Some s \<Rightarrow> Inr (f\<lparr>sf_signature_scheme_id := s\<rparr>))"
  by - (rule replaced_sf_frame [OF assms, where k = 2],
      simp add: sf_eval sf_parts [OF assms(1)],
    rule replaced_sf_frame [OF assms, where k = 3],
      simp add: sf_eval sf_parts [OF assms(1)],
    rule replaced_sf_frame [OF assms, where k = 5],
      simp add: sf_eval sf_parts [OF assms(1)] split: option.split)

lemma missing_sf_field:
  assumes "sf_small f" "k \<in> {1, 2, 3, 4, 5, 6}"
  shows "decode_signature_frame (signature_frame_bytes (drop_field k (sf_fields f)))
    = Inl (FrCanonical (MissingField k))"
  using assms(2)
  by - (rule dropped_sf_frame [OF assms(1), where k = k], elim insertE emptyE;
    simp add: sf_eval sf_parts [OF assms(1)])

lemma unknown_sf_field:
  assumes "sf_small f" "length b < 2 ^ 30" "6 < k"
  shows "decode_signature_frame (signature_frame_bytes (sf_fields f @ [(k, b)]))
      = Inl (FrCanonical (UnexpectedField k))"
proof -
  from assms(3) have "list_all (\<lambda>i. i < k) sf_allowed_fields"
    by (auto simp: sf_allowed_fields_def intro: less_trans [OF _ assms(3)])
  from sf_schema [OF assms(1)] assms(2) this show ?thesis
    by (rule extended_frame [where t = signature_frame_type_id and v = signature_frame_version])
      (simp add: decode_signature_frame_def signature_frame_bytes_def field_eval)
qed

end
