(* ===== verification/Core_Properties.thy ===== *)
theory Core_Properties
  imports Fixture_Device Canonical_Errors Rejections
begin

text \<open>
  The properties of the wire formats, the policy and the review of the core crate, each over the
  lemmas of its component's theory. Witnesses use the fixture of the repository.
\<close>

section \<open>Canonical frames\<close>

text \<open>C25: \<open>decode_canonical_frame\<close> accepts exactly the encodings of field lists with
  strictly increasing ids that fit the format, and the frame it returns is that of the list.\<close>

theorem canonical_decode_exact:
  "decode_canonical_frame input = Inr f \<longleftrightarrow>
     (\<exists>t v fs. fields_ok fs \<and> input = encode_frame t v fs \<and> f = mk_frame t v fs)"
  by (rule decode_canonical_frame_iff)

text \<open>C27: the errors of damaged frames: an accepted frame that loses bytes at its end is \<open>Truncated\<close>,
  one that gains any has \<open>TrailingBytes\<close>, so that no accepted input is a prefix of another; fields
  whose ids are not strictly increasing, because one is repeated or out of order, are
  \<open>NonCanonicalFieldOrder\<close>; and \<open>InvalidMagic\<close> means exactly that the first four bytes are
  there and are not the magic.\<close>

theorem canonical_errors:
  assumes "decode_canonical_frame bs = Inr f" "m < length bs" "x \<noteq> []"
    and "length fs < 2 ^ 16" "length (encode_frame t v fs) < usize_limit"
    and "\<not> sorted_wrt (<) (map fst fs)"
  shows "decode_canonical_frame (take m bs) = Inl Truncated
    \<and> decode_canonical_frame (bs @ x) = Inl TrailingBytes
    \<and> decode_canonical_frame (encode_frame t v fs) = Inl NonCanonicalFieldOrder
    \<and> (decode_canonical_frame y = Inl InvalidMagic \<longleftrightarrow> 4 \<le> length y \<and> take 4 y \<noteq> ascii ''SNRE'')"
  using decode_canonical_frame_cut [OF assms(1,2)] decode_canonical_frame_extended [OF assms(1,3)]
    decode_canonical_frame_disorder [OF assms(4-6)] decode_canonical_frame_magic [of y]
  by (simp add: protocol_magic_def)

theorem canonical_errors_witness:
  "decode_canonical_frame (take 1220 fixture_bytes) = Inl Truncated
   \<and> decode_canonical_frame (fixture_bytes @ [0]) = Inl TrailingBytes
   \<and> decode_canonical_frame (encode_frame 5 1 [(1, [7]), (1, [8])]) = Inl NonCanonicalFieldOrder
   \<and> decode_canonical_frame [0, 0, 0, 0] = Inl InvalidMagic"
proof -
  let ?fs = "sf_fields (review_signature_frame devnet_asset_transfer_policy recognized_transfer)"
  have "fields_ok ?fs"
    using fixture_ok by (simp add: review_ok_def sf_wf_def flip: sf_fields_ok)
  from decode_canonical_frame_mk [OF this] obtain f where
    f: "decode_canonical_frame fixture_bytes = Inr f"
    by (simp add: fixture_frame [symmetric] review_frame_alt encode_signature_frame_def)
  have n: "1220 < length fixture_bytes" "[0 :: u8] \<noteq> []" by (simp_all add: fixture_length)
  have d: "length [(1 :: u16, [7 :: u8]), (1, [8])] < 2 ^ 16"
    "length (encode_frame 5 1 [(1, [7]), (1, [8])]) < usize_limit"
    "\<not> sorted_wrt (<) (map fst [(1 :: u16, [7 :: u8]), (1, [8])])"
    by (simp_all add: length_encode_frame usize_limit_def)
  show ?thesis
    using canonical_errors [OF f n d, of "[0, 0, 0, 0]"] by (simp add: ascii_def)
qed

text \<open>C26: looking a field up in a decoded frame is the lookup in the field list, and
  \<open>require_only_fields\<close> passes exactly when every id is allowed.\<close>

theorem canonical_field_lookup:
  assumes "fields_ok fs" "decode_canonical_frame (encode_frame t v fs) = Inr f"
  shows "cf_field f k = map_of fs k
    \<and> (cf_require_only_fields f allowed = Inr () \<longleftrightarrow> fst ` set fs \<subseteq> set allowed)"
proof -
  from assms have "f = mk_frame t v fs" by (simp add: decode_canonical_frame_mk)
  with assms(1) show ?thesis by simp
qed

theorem canonical_field_lookup_witness:
  "fields_ok [(1, [7]), (2, [8, 9])]
   \<and> decode_canonical_frame (encode_frame 5 1 [(1, [7]), (2, [8, 9])])
       = Inr (mk_frame 5 1 [(1, [7]), (2, [8, 9])])
   \<and> cf_field (mk_frame 5 1 [(1, [7]), (2, [8, 9])]) 2 = Some [8, 9]"
proof -
  have ok: "fields_ok [(1, [7]), (2, [8, 9])]" by (rule fields_ok_short) simp_all
  note d = decode_canonical_frame_mk [OF ok, of 5 1]
  show ?thesis using ok d canonical_field_lookup [OF ok d, of 2] by simp
qed

section \<open>Text and paths\<close>

text \<open>C34: the UTF-8 validation accepts exactly the encodings of sequences of Unicode scalar values,
  and a bounded string is built from exactly the slices that it accepts and that fit the capacity,
  and holds their bytes.\<close>

theorem bounded_str_exact:
  "(utf8_chars s = Some cs \<longleftrightarrow> list_all is_scalar cs \<and> s = utf8_encode cs)
   \<and> (bs_from_utf8_slice n s = Inr b \<longleftrightarrow>
     length s \<le> n \<and> utf8_chars s \<noteq> None
     \<and> b = \<lparr>bs_bytes = \<lparr>bb_buf = s @ replicate (n - length s) 0, bb_len = length s\<rparr>\<rparr>)"
  using utf8_chars_iff [of s cs]
  by (auto simp: bs_from_utf8_slice_def result_simps bb_from_slice_Inr bb_as_bytes_def slice_get_def
      from_utf8_ok_def)

text \<open>C33: \<open>decode_path\<close> accepts exactly one byte string for each account below \<open>2^31\<close>, its
  provisional path \<open>m/44'/21333'/account'/0'/0'\<close>, and reports the first check that any other input
  fails: the length, the depth byte, the hardened bits, where the first component without one is
  named, then purpose, coin type, change and address index.\<close>

theorem path_decode_exact:
  "(decode_path bs = Inr p \<longleftrightarrow> unat (dp_account p) < 2 ^ 31
     \<and> bs = 5 # to_be 4 (0x8000002C :: u32) @ to_be 4 (0x80005355 :: u32)
         @ to_be 4 (dp_account p OR 0x80000000) @ to_be 4 (0x80000000 :: u32)
         @ to_be 4 (0x80000000 :: u32))
   \<and> (decode_path bs = Inl (WrongLength n) \<longleftrightarrow> length bs = n \<and> n \<noteq> 21)
   \<and> (decode_path bs = Inl (WrongDepth d) \<longleftrightarrow> length bs = 21 \<and> hd bs = d \<and> d \<noteq> 5)
   \<and> (decode_path bs = Inl (NotHardened i) \<longleftrightarrow> length bs = 21 \<and> hd bs = 5 \<and> i < 5
     \<and> path_word bs i < 2 ^ 31 \<and> list_all (\<lambda>j. 2 ^ 31 \<le> path_word bs j) [0..<i])
   \<and> (decode_path bs = Inl WrongPurpose \<longleftrightarrow> path_hardened bs \<and> path_word bs 0 \<noteq> 2 ^ 31 + 44)
   \<and> (decode_path bs = Inl WrongCoinType \<longleftrightarrow> path_hardened bs \<and> path_word bs 0 = 2 ^ 31 + 44
     \<and> path_word bs 1 \<noteq> 2 ^ 31 + 21333)
   \<and> (decode_path bs = Inl WrongChange \<longleftrightarrow> path_hardened bs \<and> path_word bs 0 = 2 ^ 31 + 44
     \<and> path_word bs 1 = 2 ^ 31 + 21333 \<and> path_word bs 3 \<noteq> 2 ^ 31)
   \<and> (decode_path bs = Inl WrongAddressIndex \<longleftrightarrow> path_hardened bs \<and> path_word bs 0 = 2 ^ 31 + 44
     \<and> path_word bs 1 = 2 ^ 31 + 21333 \<and> path_word bs 3 = 2 ^ 31 \<and> path_word bs 4 \<noteq> 2 ^ 31)"
proof -
  have "decode_path bs = Inr p \<longleftrightarrow> unat (dp_account p) < 2 ^ 31
     \<and> bs = 5 # to_be 4 (0x8000002C :: u32) @ to_be 4 (0x80005355 :: u32)
         @ to_be 4 (dp_account p OR 0x80000000) @ to_be 4 (0x80000000 :: u32)
         @ to_be 4 (0x80000000 :: u32)"
    unfolding decode_path_iff path_wf_iff
    by (simp add: encode_path_def to_bip32_components_def path_depth_def hardened_bit_def
        purpose_component_def coin_type_component_def)
  then show ?thesis using path_shape_errors [of bs n d i] path_value_errors [of bs] by blast
qed

section \<open>Frames and transactions\<close>

text \<open>C29: \<open>decode_signature_frame\<close> accepts exactly the encodings of well-formed frames: non-blank
  chain id and message type within their capacities, a known scheme, any payload.\<close>

theorem signature_frame_roundtrip:
  "decode_signature_frame bs = Inr f \<longleftrightarrow> sf_wf f \<and> bs = encode_signature_frame f"
  by (rule frame_codec.decode_iff)

text \<open>C30: the frame decoder is local in its fields: when the value of one field of an accepted frame is
  replaced, the decoder returns the frame with that field changed, or the error of that field; a
  missing field and a field it does not know are named.\<close>

theorem signature_frame_errors:
  assumes f: "sf_small f" and b: "length b < 2 ^ 30" and k: "6 < k" and j: "j \<in> {1, 2, 3, 4, 5, 6}"
  shows "decode_signature_frame (signature_frame_bytes (replace_field 1 b (sf_fields f)))
      = (case bs_from_utf8_slice 64 b of
           Inl e \<Rightarrow> Inl (FrChainId e)
         | Inr c \<Rightarrow> if str_trim_is_empty b then Inl FrEmptyChainId else Inr (f\<lparr>sf_chain_id := c\<rparr>))
    \<and> decode_signature_frame (signature_frame_bytes (replace_field 2 b (sf_fields f)))
      = (if length b = 4 then Inr (f\<lparr>sf_protocol_version := from_le b\<rparr>)
         else Inl (FrCanonical (InvalidFieldLength 2 4 (length b))))
    \<and> decode_signature_frame (signature_frame_bytes (replace_field 3 b (sf_fields f)))
      = (if length b = 8 then Inr (f\<lparr>sf_epoch := from_le b\<rparr>)
         else Inl (FrCanonical (InvalidFieldLength 3 8 (length b))))
    \<and> decode_signature_frame (signature_frame_bytes (replace_field 4 b (sf_fields f)))
      = (case bs_from_utf8_slice 32 b of
           Inl e \<Rightarrow> Inl (FrMessageType e)
         | Inr m \<Rightarrow> if str_trim_is_empty b then Inl FrEmptyMessageType
             else Inr (f\<lparr>sf_message_type := m\<rparr>))
    \<and> decode_signature_frame (signature_frame_bytes (replace_field 5 b (sf_fields f)))
      = (if length b \<noteq> 2 then Inl (FrCanonical (InvalidFieldLength 5 2 (length b)))
         else case scheme_try_from_u16 (from_le b) of
           None \<Rightarrow> Inl (FrUnknownSignatureScheme (from_le b))
         | Some s \<Rightarrow> Inr (f\<lparr>sf_signature_scheme_id := s\<rparr>))
    \<and> decode_signature_frame (signature_frame_bytes (replace_field 6 b (sf_fields f)))
      = Inr (f\<lparr>sf_payload := b\<rparr>)
    \<and> decode_signature_frame (signature_frame_bytes (drop_field j (sf_fields f)))
      = Inl (FrCanonical (MissingField j))
    \<and> decode_signature_frame (signature_frame_bytes (sf_fields f @ [(k, b)]))
      = Inl (FrCanonical (UnexpectedField k))"
  using replaced_sf_text [OF f b] replaced_sf_number [OF f b] missing_sf_field [OF f j]
    unknown_sf_field [OF f b k]
  by (intro conjI)

lemma fixture_sf_small: "sf_small (review_signature_frame devnet_asset_transfer_policy recognized_transfer)"
  using fixture_ok fixture_length
  by (simp add: sf_small_def review_ok_def fixture_frame [symmetric] review_frame_alt)

theorem signature_frame_errors_witness:
  "decode_signature_frame (signature_frame_bytes (drop_field 6
       (sf_fields (review_signature_frame devnet_asset_transfer_policy recognized_transfer))))
     = Inl (FrCanonical (MissingField 6))
   \<and> decode_signature_frame (signature_frame_bytes (replace_field 5 [7]
       (sf_fields (review_signature_frame devnet_asset_transfer_policy recognized_transfer))))
     = Inl (FrCanonical (InvalidFieldLength 5 2 1))"
  using signature_frame_errors [OF fixture_sf_small, of "[7]" 7 6] by simp

text \<open>A frame with the other known scheme decodes; it is the review that refuses it.\<close>

lemma decoder_accepts_secp256k1:
  "\<exists>bs f. decode_signature_frame bs = Inr f \<and> sf_signature_scheme_id f = Secp256k1
     \<and> build_review f (review_transaction devnet_asset_transfer_policy recognized_transfer)
         devnet_asset_transfer_policy = Inl UnsupportedSignatureScheme"
proof -
  let ?f = "review_signature_frame devnet_asset_transfer_policy recognized_transfer"
  let ?b = "to_le 2 (scheme_as_u16 Secp256k1)"
  have "decode_signature_frame (signature_frame_bytes (replace_field 5 ?b (sf_fields ?f)))
      = Inr (?f\<lparr>sf_signature_scheme_id := Secp256k1\<rparr>)"
    using replaced_sf_number(3) [OF fixture_sf_small, of ?b] by (simp add: scheme_id.try_from_as_wire)
  moreover have "bs_as_str (sf_message_type ?f) = transaction_v1_message_type"
    using fixture_ok by (simp add: review_ok_def review_signature_frame_def)
  ultimately show ?thesis by (intro exI conjI) (auto simp: build_review_def)
qed

text \<open>C11: \<open>decode_transaction_signable\<close> accepts exactly the encodings of well-formed transactions,
  with every nested frame, the access manifest and the optional fee.\<close>

theorem transaction_roundtrip:
  "decode_transaction_signable bs = Inr tx \<longleftrightarrow> tx_wf tx \<and> bs = encode_transaction_signable tx"
  by (rule tx_codec.decode_iff)

text \<open>C32: every transaction that decodes has at most 2168 bytes, so the bound of 3072 bytes that
  LAST checks on the payload before decoding rejects nothing that would decode.\<close>

theorem decodable_payload_bounded:
  assumes "decode_transaction_signable payload = Inr tx"
  shows "length payload \<le> 2168 \<and> length payload \<le> max_transaction_payload_len"
  using assms tx_fields_length [of tx]
  by (auto simp: tx_codec.decode_iff max_transaction_payload_len_def)

theorem decodable_payload_bounded_witness:
  "\<exists>payload tx. decode_transaction_signable payload = Inr tx \<and> length payload = 1127
     \<and> length payload \<le> 2168"
proof -
  let ?tx = "review_transaction devnet_asset_transfer_policy recognized_transfer"
  have d: "decode_transaction_signable (encode_transaction_signable ?tx) = Inr ?tx"
    by (rule tx_codec.decode_encode [OF fixture_tx_wf])
  show ?thesis using decodable_payload_bounded [OF d] d fixture_payload_length by blast
qed

text \<open>C31: an accepted access manifest has at most eight entries with pairwise different object
  ids, holds exactly them, and is the only input with these entries.\<close>

theorem access_manifest_exact:
  "decode_access_manifest bs max_access_entries = Inr m \<longleftrightarrow>
     (\<exists>es. length es \<le> 8 \<and> distinct (map (\<lambda>e. or_id (ae_object_ref e)) es)
        \<and> list_all entry_wf es \<and> m = am_of_list es \<and> bs = encode_access_manifest m)"
proof -
  have "manifest_wf m \<longleftrightarrow> (\<exists>es. length es \<le> 8 \<and> distinct (map (\<lambda>e. or_id (ae_object_ref e)) es)
        \<and> list_all entry_wf es \<and> m = am_of_list es)"
    by (auto simp: manifest_wf_def am_wf_def entry_id_def [abs_def] max_access_entries_def)
  then show ?thesis unfolding manifest_codec.decode_iff by blast
qed

text \<open>C28: a manifest of at most eight well-formed entries in which an object id occurs twice is
  rejected with \<open>DuplicateObjectId\<close>, naming the first entry whose id occurs again.\<close>

theorem duplicate_object_error:
  assumes "length (xs @ e # ys) \<le> 8" "list_all entry_wf (xs @ e # ys)"
    and "distinct (map entry_id xs)" "entry_id ` set xs \<inter> entry_id ` set (e # ys) = {}"
    and "entry_id e \<in> entry_id ` set ys"
  shows "decode_access_manifest (encode_access_manifest (am_of_list (xs @ e # ys))) max_access_entries
    = Inl (TxDuplicateObjectId (or_id (ae_object_ref e)))"
proof -
  have "duplicate_scan (xs @ e # ys) 0 (xs @ e # ys) = Some (entry_id e)"
    using duplicate_scan_first [of "xs @ e # ys" "[]" xs e ys] assms
    by (simp add: usize_limit_def)
  then show ?thesis
    using decode_manifest_entries [OF _ assms(2)] assms(1)
    by (simp add: max_access_entries_def entry_id_def)
qed

theorem duplicate_object_error_witness:
  "decode_access_manifest (encode_access_manifest
       (am_of_list [fixture_entry 1 1, fixture_entry 2 1, fixture_entry 2 9])) max_access_entries
     = Inl (TxDuplicateObjectId (ObjectId (replicate 32 2)))"
  using duplicate_object_error [of "[fixture_entry 1 1]" "fixture_entry 2 1" "[fixture_entry 2 9]"]
  by (simp add: fixture_entry_def entry_id_def entry_wf_def ref_wf_def oid_wf_def digest_wf_def
      fixture_digest_def)

text \<open>C21: the transaction decoder is local in its fields. When the value of one field of a well-formed
  transaction is replaced, the decoder returns the transaction with that field changed, or the
  error of that field; a missing field and a field it does not know are reported as such.\<close>

theorem transaction_field_errors:
  assumes wf: "tx_wf tx" and b: "length b < 2 ^ 30"
  shows "decode_transaction_signable (transaction_frame (replace_field 1 b (tx_fields tx)))
      = (case bs_from_utf8_slice 64 b of
           Inl e \<Rightarrow> Inl (TxChainId e) | Inr c \<Rightarrow> Inr (tx\<lparr>tx_chain_id := c\<rparr>))
    \<and> decode_transaction_signable (transaction_frame (replace_field 2 b (tx_fields tx)))
      = (if length b = 4 then Inr (tx\<lparr>tx_protocol_version := from_le b\<rparr>)
         else Inl (TxCanonical (InvalidFieldLength 2 4 (length b))))
    \<and> decode_transaction_signable (transaction_frame (replace_field 3 b (tx_fields tx)))
      = (if length b = 8 then Inr (tx\<lparr>tx_epoch := from_le b\<rparr>)
         else Inl (TxCanonical (InvalidFieldLength 3 8 (length b))))
    \<and> decode_transaction_signable (transaction_frame (replace_field 4 b (tx_fields tx)))
      = (if length b = 32 then Inr (tx\<lparr>tx_sender := Address b\<rparr>) else Inl TxSender)
    \<and> decode_transaction_signable (transaction_frame (replace_field 5 b (tx_fields tx)))
      = (if length b = 8 then Inr (tx\<lparr>tx_nonce := from_le b\<rparr>)
         else Inl (TxCanonical (InvalidFieldLength 5 8 (length b))))
    \<and> decode_transaction_signable (transaction_frame (replace_field 6 b (tx_fields tx)))
      = (case decode_access_manifest b max_access_entries of
           Inl e \<Rightarrow> Inl e | Inr m \<Rightarrow> Inr (tx\<lparr>tx_access_manifest := m\<rparr>))
    \<and> decode_transaction_signable (transaction_frame (replace_field 7 b (tx_fields tx)))
      = (case decode_object_ref b of Inl e \<Rightarrow> Inl e | Inr r \<Rightarrow> Inr (tx\<lparr>tx_module_ref := r\<rparr>))
    \<and> decode_transaction_signable (transaction_frame (replace_field 8 b (tx_fields tx)))
      = (case bs_from_utf8_slice 64 b of
           Inl e \<Rightarrow> Inl (TxEntrypoint e)
         | Inr s \<Rightarrow> if b = [] then Inl TxEmptyEntrypoint else Inr (tx\<lparr>tx_entrypoint := s\<rparr>))
    \<and> decode_transaction_signable (transaction_frame (replace_field 9 b (tx_fields tx)))
      = (if length b > 40 then Inl (TxArgs \<lparr>ce_actual = length b, ce_maximum = 40\<rparr>)
         else Inr (tx\<lparr>tx_args := b\<rparr>))
    \<and> decode_transaction_signable (transaction_frame (replace_field 10 b (tx_fields tx)))
      = (if length b = 8 then Inr (tx\<lparr>tx_gas_limit := from_le b\<rparr>)
         else Inl (TxCanonical (InvalidFieldLength 10 8 (length b))))
    \<and> decode_transaction_signable (transaction_frame (replace_field 11 b (tx_fields tx)))
      = (if tx_fee_payment tx = None then Inr tx
         else case decode_fee_payment b of
           Inl e \<Rightarrow> Inl e | Inr f \<Rightarrow> Inr (tx\<lparr>tx_fee_payment := Some f\<rparr>))"
  using replaced_text_field [OF assms] replaced_number_field [OF assms]
    replaced_nested_field [OF assms]
  by (intro conjI)

theorem transaction_field_errors_witness:
  "decode_transaction_signable (transaction_frame (replace_field 4 [1]
       (tx_fields (review_transaction devnet_asset_transfer_policy recognized_transfer))))
     = Inl TxSender"
  using transaction_field_errors [OF fixture_tx_wf, of "[1]"] by simp

text \<open>C22: the field set of a transaction: every field but the fee is required, a missing one is named
  (the sender by its own error), and any field after the eleventh is refused by its id.\<close>

theorem transaction_field_set:
  assumes "tx_wf tx" "length b < 2 ^ 30" "11 < k" "j \<in> {1, 2, 3, 5, 6, 7, 8, 9, 10}"
  shows "decode_transaction_signable (transaction_frame (drop_field j (tx_fields tx)))
      = Inl (TxCanonical (MissingField j))
    \<and> decode_transaction_signable (transaction_frame (drop_field 4 (tx_fields tx))) = Inl TxSender
    \<and> decode_transaction_signable (transaction_frame (drop_field 11 (tx_fields tx)))
      = Inr (tx\<lparr>tx_fee_payment := None\<rparr>)
    \<and> decode_transaction_signable (transaction_frame (tx_fields tx @ [(k, b)]))
      = Inl (TxCanonical (UnexpectedField k))"
  using missing_transaction_field [OF assms(1)] unknown_transaction_field [OF assms(1-3)] assms(4)
  by (intro conjI)

theorem transaction_field_set_witness:
  "decode_transaction_signable (transaction_frame (tx_fields
       (review_transaction devnet_asset_transfer_policy recognized_transfer) @ [(12, [0])]))
     = Inl (TxCanonical (UnexpectedField 12))"
  using transaction_field_set [OF fixture_tx_wf, of "[0]" 12 1] by simp

text \<open>C35: the wire identifiers of the hash algorithms, signature schemes and access modes are
  distinct, and every other identifier is rejected; the application puts on the wire the code of
  the core's status word, and different status words have different codes.\<close>

theorem wire_codes_exact:
  "(hash_try_from_u16 w = Some h \<longleftrightarrow> w = hash_as_u16 h)
   \<and> (scheme_try_from_u16 w = Some s \<longleftrightarrow> w = scheme_as_u16 s)
   \<and> (mode_try_from_u8 b = Some m \<longleftrightarrow> b = mode_as_u8 m)
   \<and> app_sw_code (app_sw_from x) = sw_code x \<and> (sw_code x = sw_code y \<longleftrightarrow> x = y)"
  using hash_id.try_from_iff scheme_id.try_from_iff mode_id.try_from_iff app_sw_from_code sw_code_inj
  by auto

text \<open>
  What the transaction decoder leaves to the policy: an empty chain id and a blank entrypoint
  decode, unlike the blank chain id that the outer frame rejects.
\<close>

lemma decoder_accepts_empty_chain_id:
  "\<exists>bs tx. decode_transaction_signable bs = Inr tx \<and> bs_as_str (tx_chain_id tx) = []"
proof -
  let ?tx = "review_transaction devnet_asset_transfer_policy recognized_transfer
    \<lparr>tx_chain_id := bounded_text 64 []\<rparr>"
  have "tx_wf ?tx"
    using fixture_tx_wf bounded_text_wf [of "[]" 64]
    by (simp add: tx_wf_def max_chain_id_bytes_def max_frame_chain_id_bytes_def ascii_def str_is_ascii_def)
  then have "decode_transaction_signable (encode_transaction_signable ?tx) = Inr ?tx"
    by (rule tx_codec.decode_encode)
  moreover have "bs_as_str (tx_chain_id ?tx) = []"
    using bounded_text_as_str [of "[]" 64] by (simp add: ascii_def str_is_ascii_def)
  ultimately show ?thesis by blast
qed

lemma decoder_accepts_blank_entrypoint:
  "\<exists>bs tx. decode_transaction_signable bs = Inr tx \<and> str_trim_is_empty (bs_as_str (tx_entrypoint tx))"
proof -
  let ?tx = "review_transaction devnet_asset_transfer_policy recognized_transfer
    \<lparr>tx_entrypoint := bounded_text 64 '' ''\<rparr>"
  have a: "str_is_ascii (ascii '' '')" by (simp add: ascii_def str_is_ascii_def)
  have t: "bs_as_str (bounded_text 64 '' '') = ascii '' ''"
    using bounded_text_as_str [OF a, of 64] by simp
  have "tx_wf ?tx"
    using fixture_tx_wf bounded_text_wf [OF a, of 64] t
    by (simp add: tx_wf_def max_entrypoint_bytes_def ascii_def)
  then have "decode_transaction_signable (encode_transaction_signable ?tx) = Inr ?tx"
    by (rule tx_codec.decode_encode)
  moreover have "str_trim_is_empty (ascii '' '')"
    by (simp add: str_trim_is_empty_iff str_chars_ascii str_is_ascii_def ascii_def
        char_is_whitespace_def)
  ultimately show ?thesis using t by (intro exI conjI) auto
qed

section \<open>Policy and review\<close>

text \<open>C12: the policy recognizes a transaction, with an amount, exactly when every field of its
  allowlist matches and the arguments are the one encoding of that non-zero amount.\<close>

theorem policy_recognizes_exactly:
  "policy_recognize p tx = Inr amount \<longleftrightarrow>
     bs_as_str (tx_chain_id tx) = pol_chain_id p
     \<and> tx_protocol_version tx = pol_protocol_version p \<and> tx_epoch tx = pol_epoch p
     \<and> tx_module_ref tx = policy_module_ref p
     \<and> bs_as_str (tx_entrypoint tx) = pol_entrypoint p
     \<and> am_len (tx_access_manifest tx) = 3
     \<and> list_all (\<lambda>e. ae_mode e = WriteMode) (am_iter (tx_access_manifest tx))
     \<and> (\<exists>fee source. tx_fee_payment tx = Some fee
          \<and> am_get (tx_access_manifest tx) 0 = Some source
          \<and> fp_fee_object fee = ae_object_ref source
          \<and> fp_asset_id fee = AssetId (pol_fee_asset_id p))
     \<and> tx_args tx = encode_frame (pol_args_type_id p) (pol_args_version p)
         [(pol_args_field_id p, to_le 8 amount)]
     \<and> amount \<noteq> 0"
  unfolding policy_recognize_iff policy_matches_def policy_args_def by blast

text \<open>C20: what the policy pins: when one part of a recognized transaction is changed, the policy
  still recognizes it if the change is to the sender, the nonce, the gas limit or the fee limit,
  and otherwise refuses it with the error of that part, the arguments field by field.\<close>

theorem policy_rejects_each_change:
  assumes rec: "policy_recognize p tx = Inr amount" and fee: "tx_fee_payment tx = Some fee"
    and args: "fields_ok fs" and damaged: "decode_canonical_frame bs = Inl x"
  shows "policy_recognize p (tx\<lparr>tx_sender := a, tx_nonce := n, tx_gas_limit := g,
        tx_fee_payment := Some (fee\<lparr>fp_max_fee := l\<rparr>)\<rparr>) = Inr amount
    \<and> policy_recognize p (tx\<lparr>tx_chain_id := c\<rparr>)
      = (if bs_as_str c = bs_as_str (tx_chain_id tx) then Inr amount else Inl PolChainId)
    \<and> policy_recognize p (tx\<lparr>tx_protocol_version := v\<rparr>)
      = (if v = tx_protocol_version tx then Inr amount else Inl PolProtocolVersion)
    \<and> policy_recognize p (tx\<lparr>tx_epoch := e\<rparr>)
      = (if e = tx_epoch tx then Inr amount else Inl PolEpoch)
    \<and> policy_recognize p (tx\<lparr>tx_module_ref := r\<rparr>)
      = (if or_id r \<noteq> or_id (tx_module_ref tx) then Inl PolModuleId
         else if or_version r \<noteq> or_version (tx_module_ref tx) then Inl PolModuleVersion
         else if dg_algorithm (or_digest r) \<noteq> dg_algorithm (or_digest (tx_module_ref tx))
           then Inl PolModuleDigestAlgorithm
         else if dg_bytes (or_digest r) \<noteq> dg_bytes (or_digest (tx_module_ref tx))
           then Inl PolModuleDigest
         else Inr amount)
    \<and> policy_recognize p (tx\<lparr>tx_entrypoint := s\<rparr>)
      = (if bs_as_str s = bs_as_str (tx_entrypoint tx) then Inr amount else Inl PolEntrypoint)
    \<and> policy_recognize p (tx\<lparr>tx_access_manifest := am_of_list es\<rparr>)
      = (if length es \<noteq> 3 \<or> list_ex (\<lambda>e. ae_mode e \<noteq> WriteMode) es then Inl PolAccessShape
         else if ae_object_ref (hd es) \<noteq> fp_fee_object fee then Inl PolFeeObjectMismatch
         else Inr amount)
    \<and> policy_recognize p (tx\<lparr>tx_fee_payment := None\<rparr>) = Inl PolFeeRequired
    \<and> policy_recognize p (tx\<lparr>tx_fee_payment := Some fee'\<rparr>)
      = (if fp_fee_object fee' \<noteq> fp_fee_object fee then Inl PolFeeObjectMismatch
         else if fp_asset_id fee' \<noteq> fp_asset_id fee then Inl PolFeeAsset
         else Inr amount)
    \<and> policy_recognize p (tx\<lparr>tx_args := bs\<rparr>) = Inl PolArgumentsEncoding
    \<and> policy_recognize p (tx\<lparr>tx_args := encode_frame t u fs\<rparr>)
      = (if t \<noteq> pol_args_type_id p then Inl (PolArgumentsTypeId t)
         else if u \<noteq> pol_args_version p then Inl (PolArgumentsVersion u)
         else if map fst fs \<noteq> [pol_args_field_id p] \<or> length (snd (hd fs)) \<noteq> 8
           then Inl PolArgumentsShape
         else if from_le (snd (hd fs)) = (0 :: u64) then Inl PolZeroAmount
         else Inr (from_le (snd (hd fs))))"
proof -
  let ?tx = "tx\<lparr>tx_sender := a, tx_nonce := n, tx_gas_limit := g\<rparr>"
  have "policy_recognize p ?tx = Inr amount" by (rule policy_context_change(5) [OF rec])
  from policy_fee_change [OF this, of "Some (fee\<lparr>fp_max_fee := l\<rparr>)"]
  have free: "policy_recognize p (tx\<lparr>tx_sender := a, tx_nonce := n, tx_gas_limit := g,
      tx_fee_payment := Some (fee\<lparr>fp_max_fee := l\<rparr>)\<rparr>) = Inr amount"
    using fee by simp
  have fees: "policy_recognize p (tx\<lparr>tx_fee_payment := None\<rparr>) = Inl PolFeeRequired"
    "policy_recognize p (tx\<lparr>tx_fee_payment := Some fee'\<rparr>)
      = (if fp_fee_object fee' \<noteq> fp_fee_object fee then Inl PolFeeObjectMismatch
         else if fp_asset_id fee' \<noteq> fp_asset_id fee then Inl PolFeeAsset
         else Inr amount)"
    using policy_fee_change [OF rec] fee by simp_all
  show ?thesis
    by (intro conjI free fees policy_context_change(1-4) [OF rec] policy_module_change [OF rec]
        policy_manifest_change [OF rec fee] policy_args_damaged [OF rec damaged]
        policy_args_change [OF rec args])
qed

theorem policy_rejects_each_change_witness:
  "policy_recognize devnet_asset_transfer_policy
      (review_transaction devnet_asset_transfer_policy recognized_transfer\<lparr>tx_epoch := 7\<rparr>)
    = Inl PolEpoch"
proof -
  let ?tx = "review_transaction devnet_asset_transfer_policy recognized_transfer"
  have m: "policy_matches devnet_asset_transfer_policy ?tx (rv_amount recognized_transfer)"
    using fixture_ok by (simp add: review_ok_def)
  then have rec: "policy_recognize devnet_asset_transfer_policy ?tx
      = Inr (rv_amount recognized_transfer)"
    unfolding policy_recognize_iff .
  from m obtain fee where fee: "tx_fee_payment ?tx = Some fee" by (auto simp: policy_matches_def)
  have ok: "fields_ok []" by (rule fields_ok_short) simp_all
  have "decode_canonical_frame [0, 0, 0, 0] = Inl InvalidMagic"
    by (simp add: decode_canonical_frame_magic protocol_magic_def ascii_def)
  from policy_rejects_each_change [OF rec fee ok this, where e = 7] m show ?thesis
    by (simp add: policy_matches_def devnet_asset_transfer_policy_def)
qed

text \<open>C10: a frame leads to a review exactly when it is the frame rebuilt from that review, and the
  review is one the policy can produce: no signed byte is left undetermined by the review.\<close>

theorem review_rebuilds_frame:
  "(\<exists>frame tx. decode_signature_frame bs = Inr frame
      \<and> decode_transaction_signable (sf_payload frame) = Inr tx \<and> build_review frame tx p = Inr r)
   \<longleftrightarrow> review_ok p r \<and> bs = review_frame p r"
  by (rule build_review_exact)

end
