(* ===== verification/App_Properties.thy ===== *)
theory App_Properties
  imports Fixture_Device
begin

text \<open>
  The properties of the application crate's components below the event loop: key compression, the
  formatting of the review, and the device keys.
\<close>

section \<open>Keys\<close>

text \<open>C36: the compressed key of an uncompressed point is the 32-byte little-endian \<open>Y\<close>, below
  the field prime, with the parity of \<open>X\<close> in bit 255. Compression fails in exactly two ways: a
  header byte other than 4, reported as such, and a \<open>Y\<close> of at least the field prime.\<close>

theorem compression_exact:
  assumes "length raw = 65"
  shows "(compress_ed25519_point raw = Inr c \<longleftrightarrow>
      raw ! 0 = 4 \<and> point_y raw < 2 ^ 255 - 19 \<and> length c = 32
      \<and> le_nat c = point_y raw + 2 ^ 255 * (point_x raw mod 2))
    \<and> (compress_ed25519_point raw = Inl (InvalidPointHeader b) \<longleftrightarrow> raw ! 0 = b \<and> b \<noteq> 4)
    \<and> (compress_ed25519_point raw = Inl FieldOverflow \<longleftrightarrow>
      raw ! 0 = 4 \<and> 2 ^ 255 - 19 \<le> point_y raw)"
proof (intro conjI)
  show "compress_ed25519_point raw = Inr c \<longleftrightarrow>
      raw ! 0 = 4 \<and> point_y raw < 2 ^ 255 - 19 \<and> length c = 32
      \<and> le_nat c = point_y raw + 2 ^ 255 * (point_x raw mod 2)"
    using compress_iff [OF assms] by (simp add: field_prime_def)
  show "compress_ed25519_point raw = Inl (InvalidPointHeader b) \<longleftrightarrow> raw ! 0 = b \<and> b \<noteq> 4"
  proof (cases "raw ! 0 = 4")
    case True
    with assms show ?thesis by (auto simp: compress_alt Let_def)
  qed (auto simp: compress_ed25519_point_def)
  show "compress_ed25519_point raw = Inl FieldOverflow \<longleftrightarrow>
      raw ! 0 = 4 \<and> 2 ^ 255 - 19 \<le> point_y raw"
  proof (cases "raw ! 0 = 4")
    case True
    with assms show ?thesis by (auto simp: compress_alt Let_def point_y_def field_prime_def)
  qed (simp add: compress_ed25519_point_def)
qed

theorem compression_exact_witness:
  "length fixture_point = 65
   \<and> compress_ed25519_point (replicate 65 0xFF) = Inl (InvalidPointHeader 0xFF)
   \<and> (compress_ed25519_point fixture_point = Inr (replicate 32 1) \<longleftrightarrow>
     fixture_point ! 0 = 4 \<and> point_y fixture_point < 2 ^ 255 - 19
     \<and> length (replicate 32 (1 :: u8)) = 32
     \<and> le_nat (replicate 32 1) = point_y fixture_point + 2 ^ 255 * (point_x fixture_point mod 2))"
proof -
  have l: "length fixture_point = 65" by (simp add: fixture_point_def)
  show ?thesis
    using l compression_exact [OF l, of "replicate 32 1"]
      compression_exact [of "replicate 65 0xFF" _ "0xFF"] by simp
qed

text \<open>C24: the sender of a transaction under review is the key that VERIFY PUBLIC KEY would show
  for the path captured on FIRST.\<close>

theorem review_sender_is_verified_key:
  assumes run: "signing_run (device_derive sdk) sign p evs (s, (), g)"
    and d: "dispatch (device_derive sdk) p s c () = (ReviewTransaction r, s', ())"
  shows "\<exists>path. ss_path s' = Some path
    \<and> dispatch (device_derive sdk) p session_new
        \<lparr>ac_cla = cla, ac_ins = ins_verify_public_key, ac_p1 = 1, ac_p2 = 0,
         ac_data = encode_path path\<rparr> ()
      = (ReviewPublicKey path (addr_bytes (rv_sender r)), session_new, ())"
proof -
  from run_inv [OF run] obtain a where a: "abs_ok a" "s = conc a" by auto
  obtain out a' where e: "abs_dispatch (device_derive sdk) p a c () = (out, a', ())"
    by (cases "abs_dispatch (device_derive sdk) p a c ()") (metis unit.exhaust)
  from dispatch_refines [OF a(1) e] d a(2) have o: "out = ReviewTransaction r" "s' = conc a'"
    by simp_all
  with e have "abs_dispatch (device_derive sdk) p a c () = (ReviewTransaction r, a', ())" by simp
  then obtain path bs where v: "a' = AAwaiting path bs"
      "validate_frame (device_derive sdk) p path bs () = (Inr r, ())"
    by (rule abs_dispatch_review)
  have wf: "path_wf path" using abs_dispatch_ok [OF a(1) e] v(1) by simp
  have "handle_verify_public_key (device_derive sdk) 1 0 (encode_path path) ()
      = (ReviewPublicKey path (addr_bytes (rv_sender r)), ())"
    using device.reviewed_sender [OF v(2) wf] by (simp add: prod_eq_iff)
  then have "dispatch (device_derive sdk) p session_new
        \<lparr>ac_cla = cla, ac_ins = ins_verify_public_key, ac_p1 = 1, ac_p2 = 0,
         ac_data = encode_path path\<rparr> ()
      = (ReviewPublicKey path (addr_bytes (rv_sender r)), session_new, ())"
    by (simp add: dispatch_def dispatch_ins_def conflicts_with_session_def ins_defs)
  moreover have "ss_path s' = Some path" by (simp add: o(2) v(1))
  ultimately show ?thesis by blast
qed

theorem review_sender_is_verified_key_witness:
  "\<exists>evs s path. signing_run (device_derive fixture_sdk) (device_sign fixture_sdk)
       devnet_asset_transfer_policy evs (s, (), ())
     \<and> dispatch (device_derive fixture_sdk) devnet_asset_transfer_policy session_new
        \<lparr>ac_cla = cla, ac_ins = ins_verify_public_key, ac_p1 = 1, ac_p2 = 0,
         ac_data = encode_path path\<rparr> ()
      = (ReviewPublicKey path (addr_bytes (rv_sender recognized_transfer)), session_new, ())"
proof -
  obtain evs s where r: "signing_run (device_derive fixture_sdk) (device_sign fixture_sdk)
       devnet_asset_transfer_policy evs (s, (), ())"
    and d: "dispatch (device_derive fixture_sdk) devnet_asset_transfer_policy s
         (sign_command sign_p1_last (last fixture_chunks)) ()
       = (ReviewTransaction recognized_transfer, conc (AAwaiting fixture_path fixture_bytes), ())"
    using fixture_review by blast
  show ?thesis using r review_sender_is_verified_key [OF r d] by blast
qed

section \<open>Formatting\<close>

text \<open>C38: \<open>from_u64\<close> does not panic, and its text is at most 20 decimal digits whose value is
  the number.\<close>

theorem from_u64_decimal:
  "\<exists>s. bf_from_u64 v = Some (fact_of s) \<and> bf_as_str (fact_of s) = Some (Inr s)
     \<and> length s \<le> 20 \<and> list_all (\<lambda>b. 48 \<le> unat b \<and> unat b < 58) s
     \<and> decimal_value s = unat v"
proof -
  have digits: "list_all (\<lambda>b. 48 \<le> unat b \<and> unat b < 58) (low_digits n)" for n
  proof (induction n rule: low_digits.induct)
    case (1 n)
    have "n mod 10 < 10" by simp
    then have "48 \<le> unat (of_nat (48 + n mod 10) :: u8)" "unat (of_nat (48 + n mod 10) :: u8) < 58"
      unfolding unat_digit by linarith+
    with 1 show ?case by (subst low_digits.simps) simp
  qed
  have "length (decimal (unat v)) \<le> max_fact_len"
    using decimal_u64_short [of v] by (simp add: max_fact_len_def)
  then have "bf_as_str (fact_of (decimal (unat v))) = Some (Inr (decimal (unat v)))"
    by (rule as_str_fact_of) (rule decimal_ascii)
  then show ?thesis
    using from_u64_eq [of v] decimal_length [of v] digits [of "unat v"]
      decimal_value_decimal [of "unat v"]
    by (intro exI [of _ "decimal (unat v)"]) (auto simp: decimal_def list_all_iff)
qed

text \<open>C39: facts are made without truncation. \<open>try_from_hex\<close> and \<open>try_from_digest\<close> produce the
  \<open>Display\<close> text of the bytes and of the digest and refuse only values that do not fit;
  \<open>try_from_str\<close> refuses exactly the strings that are not ASCII or longer than 96 bytes, and
  every other string is read back unchanged.\<close>

theorem fact_texts_exact:
  assumes "digest_wf d"
  shows "bf_try_from_hex bs = Some (if 2 * length bs > 96 then Inl ValueTooLong
       else Inr (fact_of (display_bytes bs)))
    \<and> bf_try_from_digest d = Some (Inr (fact_of (display_digest d)))
    \<and> (bf_try_from_str s = Some (Inr f) \<longleftrightarrow>
       str_is_ascii s \<and> length s \<le> 96 \<and> f = fact_of s \<and> bf_as_str f = Some (Inr s))"
  using try_from_hex_eq [of bs] try_from_digest_eq [OF assms] as_str_fact_of [of s]
  by (auto simp: max_fact_len_def try_from_str_eq)

theorem fact_texts_exact_witness:
  "digest_wf (fixture_digest (replicate 32 0x12))
   \<and> bf_try_from_hex [0xAB] = Some (Inr (fact_of (ascii ''ab'')))
   \<and> bf_try_from_digest (fixture_digest (replicate 32 0x12))
       = Some (Inr (fact_of (display_digest (fixture_digest (replicate 32 0x12)))))"
proof -
  have wf: "digest_wf (fixture_digest (replicate 32 0x12))"
    by (simp add: digest_wf_def fixture_digest_def)
  have "display_bytes [0xAB] = ascii ''ab''"
    by (simp add: display_bytes_def fmt_02x_def hex_digit_def ascii_def)
  then show ?thesis using wf fact_texts_exact [OF wf, of "[0xAB]"] by simp
qed

text \<open>C37: every review the policy can produce is formatted without error or panic as 32 lines; the
  text of each is ASCII, has at most 96 bytes and is read back unchanged, and all 32 fit the array
  of fields given to the screen.\<close>

theorem review_formats:
  assumes "review_ok p r" "policy_ascii p"
  shows "format_review_facts r = Some (Inr (map line_fact (review_lines r)))
    \<and> length (review_lines r) = 32
    \<and> list_all (\<lambda>l. str_is_ascii (snd l) \<and> length (snd l) \<le> 96
         \<and> bf_as_str (rf_value (line_fact l)) = Some (Inr (snd l))) (review_lines r)
    \<and> push_fields (map line_fact (review_lines r)) [] = Some (Inr (review_lines r))"
proof -
  note l = review_lines_ascii [OF assms]
  have "list_all (\<lambda>l. str_is_ascii (snd l) \<and> length (snd l) \<le> 96
      \<and> bf_as_str (rf_value (line_fact l)) = Some (Inr (snd l))) (review_lines r)"
    using l(2) by (auto simp: list_all_iff line_fact_def as_str_fact_of max_fact_len_def)
  then show ?thesis
    using format_review_ok [OF assms] push_fields_ok [of "[]" "review_lines r"] l by simp
qed

theorem review_formats_witness:
  "review_ok devnet_asset_transfer_policy recognized_transfer
   \<and> policy_ascii devnet_asset_transfer_policy
   \<and> format_review_facts recognized_transfer = Some (Inr (map line_fact recognized_transfer_lines))
   \<and> list_all (\<lambda>l. str_is_ascii (snd l) \<and> length (snd l) \<le> 96) recognized_transfer_lines
   \<and> push_fields (map line_fact recognized_transfer_lines) [] = Some (Inr recognized_transfer_lines)"
  using fixture_ok devnet_policy_ascii
    review_formats [OF fixture_ok devnet_policy_ascii, unfolded fixture_lines]
  by (simp add: list_all_iff)

text \<open>C9: two reviews of one policy that are formatted to the same facts are built from the same
  signed bytes.\<close>

theorem shown_facts_determine_frame:
  assumes ok: "review_ok p r" "review_ok p r'" and p: "policy_ascii p"
    and same: "format_review_facts r = format_review_facts r'"
  shows "review_frame p r = review_frame p r'"
proof -
  note l = review_lines_ascii(2) [OF ok(1) p] and l' = review_lines_ascii(2) [OF ok(2) p]
  from same have "map line_fact (review_lines r) = map line_fact (review_lines r')"
    by (simp add: format_review_ok [OF ok(1) p] format_review_ok [OF ok(2) p])
  then have "list_all2 (\<lambda>x y. line_fact x = line_fact y) (review_lines r) (review_lines r')"
    by (simp add: list_all2_conv_all_nth list_eq_iff_nth_eq)
  with l l' have "list_all2 (\<lambda>x y. snd x = snd y) (review_lines r) (review_lines r')"
    by (auto simp: list_all2_conv_all_nth line_fact_def intro!: fact_of_inj)
  then have "map snd (review_lines r) = map snd (review_lines r')"
    by (simp add: list_all2_conv_all_nth list_eq_iff_nth_eq)
  with ok have "r = r'" by (intro review_lines_inj)
  then show ?thesis by simp
qed

text \<open>The facts of the fixture are shown for the bytes of the fixture and for no others.\<close>

theorem shown_facts_determine_frame_witness:
  "review_ok devnet_asset_transfer_policy recognized_transfer
   \<and> policy_ascii devnet_asset_transfer_policy
   \<and> format_review_facts recognized_transfer = Some (Inr (map line_fact recognized_transfer_lines))
   \<and> {bs. \<exists>r. review_ok devnet_asset_transfer_policy r
         \<and> format_review_facts r = Some (Inr (map line_fact recognized_transfer_lines))
         \<and> bs = review_frame devnet_asset_transfer_policy r} = {fixture_bytes}"
proof -
  have f: "format_review_facts recognized_transfer
      = Some (Inr (map line_fact recognized_transfer_lines))"
    using format_review_ok [OF fixture_ok devnet_policy_ascii] by (simp add: fixture_lines)
  have "review_frame devnet_asset_transfer_policy r = fixture_bytes"
    if "review_ok devnet_asset_transfer_policy r"
      "format_review_facts r = Some (Inr (map line_fact recognized_transfer_lines))" for r
    using shown_facts_determine_frame [OF that(1) fixture_ok devnet_policy_ascii] that(2) f
    by (simp add: fixture_frame)
  with fixture_ok devnet_policy_ascii f fixture_frame show ?thesis by auto
qed

text \<open>C40: under the devnet policy a frame is decoded, reviewed and shown exactly when it is the
  frame of a transfer of a non-zero amount over three different objects; the screen then has the 32
  lines of \<open>devnet_lines\<close>, the fixed ones and those of the transfer, and the answer of the user to
  them is the result. No other byte string gets to an answer of the user.\<close>

theorem devnet_transfers_shown:
  "(\<exists>frame tx r. decode_signature_frame bs = Inr frame
      \<and> decode_transaction_signable (sf_payload frame) = Inr tx
      \<and> build_review frame tx devnet_asset_transfer_policy = Inr r
      \<and> ui_display_transaction approve r = Some (Inr answer, screens))
   \<longleftrightarrow> (\<exists>t. devnet_transfer_wf t \<and> bs = devnet_frame t \<and> answer = approve (devnet_lines t)
      \<and> screens = [TransactionReview review_titles (devnet_lines t)])"
proof -
  have "(\<exists>frame tx r. decode_signature_frame bs = Inr frame
      \<and> decode_transaction_signable (sf_payload frame) = Inr tx
      \<and> build_review frame tx devnet_asset_transfer_policy = Inr r
      \<and> ui_display_transaction approve r = Some (Inr answer, screens))
    \<longleftrightarrow> (\<exists>r. review_ok devnet_asset_transfer_policy r
      \<and> bs = review_frame devnet_asset_transfer_policy r
      \<and> ui_display_transaction approve r = Some (Inr answer, screens))"
    using build_review_exact [of bs devnet_asset_transfer_policy] by blast
  also have "\<dots> \<longleftrightarrow> (\<exists>t. devnet_transfer_wf t \<and> bs = devnet_frame t
      \<and> ui_display_transaction approve (devnet_review t) = Some (Inr answer, screens))"
    unfolding devnet_review_ok_iff by (auto simp: devnet_frame_encodes)
  also have "\<dots> \<longleftrightarrow> (\<exists>t. devnet_transfer_wf t \<and> bs = devnet_frame t
      \<and> answer = approve (devnet_lines t)
      \<and> screens = [TransactionReview review_titles (devnet_lines t)])"
    using show_transaction [OF devnet_review_ok devnet_policy_ascii]
    by (auto simp: devnet_review_lines)
  finally show ?thesis .
qed

text \<open>The fixture of the repository is one of these frames, and has the lines pinned in the
  conformance test.\<close>

theorem devnet_transfers_shown_witness:
  "devnet_transfer_wf fixture_transfer \<and> devnet_frame fixture_transfer = fixture_bytes
   \<and> devnet_lines fixture_transfer = recognized_transfer_lines
   \<and> (\<exists>frame tx r. decode_signature_frame fixture_bytes = Inr frame
      \<and> decode_transaction_signable (sf_payload frame) = Inr tx
      \<and> build_review frame tx devnet_asset_transfer_policy = Inr r
      \<and> ui_display_transaction (\<lambda>ls. ls = recognized_transfer_lines) r
          = Some (Inr True, [TransactionReview review_titles recognized_transfer_lines]))"
proof -
  have f: "devnet_frame fixture_transfer = fixture_bytes"
      "devnet_lines fixture_transfer = recognized_transfer_lines"
    using devnet_frame_encodes [of fixture_transfer] devnet_review_lines [of fixture_transfer]
    by (simp_all add: fixture_is_devnet fixture_frame fixture_lines)
  moreover from f fixture_transfer_wf have "\<exists>frame tx r. decode_signature_frame fixture_bytes = Inr frame
      \<and> decode_transaction_signable (sf_payload frame) = Inr tx
      \<and> build_review frame tx devnet_asset_transfer_policy = Inr r
      \<and> ui_display_transaction (\<lambda>ls. ls = recognized_transfer_lines) r
          = Some (Inr True, [TransactionReview review_titles recognized_transfer_lines])"
    by (intro devnet_transfers_shown [THEN iffD2] exI [of _ fixture_transfer]) simp
  ultimately show ?thesis using fixture_transfer_wf by simp
qed

end
