(* ===== verification/Spec2Isabelle.thy ===== *)
theory Spec2Isabelle
  imports Core_Properties App_Properties Wallet
begin

text \<open>
  The clear-signing Ledger application of Sunrise Edge: the crates \<open>sunrise-edge-ledger-core\<close>
  (decoders, policy, review, APDU state machine) and \<open>sunrise-edge-ledger-app\<close> (key
  compression, formatting, screens, event loop), and what a signature of the device means.

  \<^bold>\<open>The program.\<close> The host sends APDU commands. \<open>normal_main\<close> (\<open>main.rs\<close>) passes each to
  \<open>dispatch\<close> (\<open>apdu.rs\<close>), which keeps a \<open>SigningSession\<close>: FIRST captures a declared
  length and a derivation path, CONTINUE and LAST fill a 4096-byte buffer, and LAST decodes the buffer
  as a signature frame (\<open>frame.rs\<close>) holding a transaction (\<open>transaction.rs\<close>), both canonical
  frames (\<open>canonical.rs\<close>), derives the key of the path, compares it with the sender, and builds a
  review (\<open>review.rs\<close>) if the clear-signing policy (\<open>policy.rs\<close>) recognizes the transaction.
  The loop shows the review as 32 lines (\<open>review_ui.rs\<close>, \<open>app_ui.rs\<close>), and on approval signs
  the buffered frame (\<open>derivation.rs\<close>). Every failure, rejection and signature wipes the session.

  \<^bold>\<open>The theories and the code.\<close> Definitions have the names of the code, methods with a prefix for
  their type (\<open>bb_\<close> BoundedBytes, \<open>bs_\<close> BoundedStr, \<open>cf_\<close> CanonicalFrame, \<open>am_\<close>
  AccessManifest, \<open>bf_\<close> BoundedFactStr, \<open>sf_\<close> SignatureFrame, \<open>tx_\<close> TransactionSignable,
  \<open>rv_\<close> ClearSigningReview, \<open>ss_\<close> SigningSession).
  \<^item> \<open>Prelude\<close>: machine integers, \<open>Result\<close>, slices, byte order; the locales \<open>codec\<close> (a decoder
    that accepts exactly the encodings of well-formed values) and \<open>wire_enum\<close>.
  \<^item> \<open>Utf8\<close> and \<open>Decimal\<close>: \<open>str::from_utf8\<close>, \<open>trim\<close>, \<open>is_ascii\<close> and the decimal text of the
    standard library.
  \<^item> \<open>Ledger_Types\<close> (\<open>types.rs\<close>), \<open>Canonical\<close> and \<open>Canonical_Errors\<close>
    (\<open>canonical.rs\<close>), \<open>Signature_Frame\<close> (\<open>frame.rs\<close>), \<open>Transaction\<close> and
    \<open>Transaction_Codec\<close> (\<open>transaction.rs\<close>), \<open>Policy\<close> (\<open>policy.rs\<close>), \<open>Review\<close>
    (\<open>review.rs\<close>), \<open>Derivation_Path\<close> (\<open>path.rs\<close>), \<open>Apdu\<close> (\<open>apdu.rs\<close>). \<open>Rejections\<close>: which error
    a rejected path, transaction or frame gets.
  \<^item> \<open>Apdu_Spec\<close>: the protocol over sessions without buffer and counters; \<open>Apdu_Refinement\<close>: the
    code implements it; \<open>Signing_Run\<close>: runs and histories of a session (locale
    \<open>machine_refinement\<close>, the step relation \<open>signing_step\<close>); \<open>Signing_Safety\<close> and
    \<open>Signing_Completeness\<close>: what a signature implies, and which frames get one.
  \<^item> \<open>Status\<close> (\<open>status.rs\<close>), \<open>Compression\<close> (\<open>compression.rs\<close>), \<open>Review_UI\<close> and
    \<open>Review_Facts\<close> (\<open>review_ui.rs\<close>), \<open>App_UI\<close> (\<open>app_ui.rs\<close>), \<open>Device_Keys\<close>
    (\<open>derivation.rs\<close>, locale \<open>key_device\<close>), \<open>Device_Main\<close> (\<open>main.rs\<close>). \<open>Wallet\<close>: the device as its
    user sees it, an abstract machine that the event loop implements, and what its responses mean;
    \<open>Device_Transfer\<close>: a transfer at the device.
  \<^item> \<open>Devnet_Transfer\<close>: the transfers that the devnet policy allows, their frames and their lines.
    \<open>Recognized_Transfer\<close> and \<open>Fixture_Device\<close>: the one of the repository's conformance fixture,
    byte for byte, and a device that signs it; the concrete input of the witnesses.
  \<^item> \<open>Core_Properties\<close>, \<open>App_Properties\<close> and this theory: the properties.

  \<^bold>\<open>State.\<close> A \<open>&mut\<close> argument is passed in and returned. An error is the left side of a sum with the
  constructors of the source; in the application crate a possible panic (an index out of range) is
  \<open>None\<close>. \<open>signing_session\<close> has the fields of the struct, the buffer as its 4096 bytes. The key
  deriver and the signer of the core are arbitrary functions with a state of their own, so that the
  calls made are visible; the traits' implementations for closures are therefore the identity. The
  application's are \<open>device_derive\<close> and \<open>device_sign\<close>.

  \<^bold>\<open>What is shown.\<close>
  \<^item> Every decoder is a \<open>codec\<close>: it accepts exactly one byte string per well-formed value, so a
    signed frame determines, and is determined by, what was decoded from it. What is rejected gets
    the error the code promises: damaged frames, disordered, missing, unknown and malformed fields,
    duplicate objects, every other path.
  \<^item> The policy and \<open>build_review\<close> are characterized exactly, the policy also by the error of every
    single change (\<open>policy_rejects_each_change\<close>); a review rebuilds the frame
    (\<open>review_rebuilds_frame\<close>), and so do its formatted lines (\<open>shown_facts_determine_frame\<close>):
    nothing that is signed is hidden from the screen. For the devnet policy the accepted byte strings
    and what is shown for each are written out (\<open>devnet_transfers_shown\<close>).
  \<^item> \<open>dispatch\<close> refines the abstract protocol, from which follow the invariant of the session,
    the wiping on failure, and the exact conditions under which each command of a transfer is
    accepted, for every chunking.
  \<^item> In every history a signature follows a reviewed transfer of exactly the frame signed
    (\<open>signature_follows_review\<close>); the device sends one only when the commands it received last are
    such a transfer and the user approved its lines (\<open>device_signature_is_approved\<close>), and it does
    sign every transfer the policy allows, whatever happened before
    (\<open>device_signs_allowed_transfer\<close>).
  \<^item> The event loop is a run of the abstract wallet (\<open>device_implements_wallet\<close>): it never panics
    and answers every command once (\<open>event_loop_total\<close>), gives out a public key only after the user
    confirmed it (\<open>public_key_is_confirmed\<close>), sends no data but the configuration, such a key and
    such a signature (\<open>every_response_explained\<close>), and remembers nothing but a transfer in progress
    (\<open>device_forgets\<close>).

  \<^bold>\<open>Bounds.\<close> \<open>usize\<close> is a natural number whose checked operations fail at \<open>usize_limit\<close>, \<open>2 ^ 32\<close>
  on the 32-bit targets; a slice is not longer than that. No fuel is used: the loops of the code are
  bounded and the model's recursions terminate, by structure or by a measure. The event loop is a
  function of the finite list of commands delivered so far, for every such list.

  \<^bold>\<open>Not modelled.\<close> The Ledger SDK is not part of the repository: its key
  derivation, public key and signature functions are the parameter \<open>ledger_sdk\<close>, total
  functions of their arguments (a key and a signature depend on the path and the message only),
  and the transport and the user are the record
  \<open>loop_env\<close>. Nothing is assumed of them but, in \<open>public_key_is_confirmed\<close>
  and \<open>every_response_explained\<close>, that the signature function returns a buffer of 64
  bytes, its type in \<open>derivation.rs\<close> (\<open>signature_buffers\<close>). Of the SDK's
  \<open>decode\<close> the model uses that it converts the header with \<open>try_from\<close> or
  answers with a reply. The glyphs are images chosen for the target at build time and are left out,
  as are the panic handler, the communication buffers and the entry symbol. That the SDK's Ed25519
  is a signature scheme, and that BOLOS isolates the key, are outside the model. The Rust tests, the
  Python emulator tests, scripts, build files and assets are not program code of the device.
\<close>

section \<open>What a signature means\<close>

text \<open>C1: in every history of the signing session, a signature is produced only directly after a
  complete transfer FIRST, CONTINUE, ..., LAST whose chunks concatenate to the frame of the review
  shown last; the signer gets exactly that frame and the path captured on FIRST, the sender is the
  key derived from that path, and nothing remains of the session.\<close>

theorem signature_follows_review:
  assumes "signing_run derive sign p evs (s, d, g)"
    and "approve_and_sign sign s g = (Inr signature, s', g')"
  shows "\<exists>pre path chunks r d0 d1. evs = pre @ transfer_events path chunks r \<and> chunks_ok chunks
     \<and> path_wf path \<and> review_ok p r \<and> concat chunks = review_frame p r
     \<and> derive d0 path = (Some (addr_bytes (rv_sender r)), d1)
     \<and> sign g path (review_frame p r) = (Some signature, g') \<and> s' = session_new"
  by (rule signed_transfer [OF assms])

theorem signature_follows_review_witness:
  "\<exists>evs s pre path chunks r. signing_run (device_derive fixture_sdk) (device_sign fixture_sdk)
        devnet_asset_transfer_policy evs (s, (), ())
     \<and> approve_and_sign (device_sign fixture_sdk) s () = (Inr fixture_signature, session_new, ())
     \<and> evs = pre @ transfer_events path chunks r
     \<and> concat chunks = review_frame devnet_asset_transfer_policy r"
proof -
  obtain evs where run: "signing_run (device_derive fixture_sdk) (device_sign fixture_sdk)
      devnet_asset_transfer_policy evs (conc (AAwaiting fixture_path fixture_bytes), (), ())"
    using fixture_history by blast
  have "approve_and_sign (device_sign fixture_sdk) (conc (AAwaiting fixture_path fixture_bytes)) ()
      = (Inr fixture_signature, session_new, ())"
    using transfer_signed(2) [of devnet_asset_transfer_policy recognized_transfer fixture_path
        "device_sign fixture_sdk" "()" fixture_signature "()",
        OF fixture_ok fixture_path_wf fixture_sign]
    by (simp add: fixture_frame)
  from run this signature_follows_review [OF run this] show ?thesis by blast
qed

text \<open>C2: the device sends a 64-byte response with status 9000 only when the commands it received last,
  up to and including this one, are a transfer FIRST, CONTINUE, ..., LAST whose chunks concatenate to
  the frame of a review that the policy allows; it showed the lines of that review first, the user
  approved exactly these lines, and the response is the device's signature of exactly that frame under
  the path of FIRST, whose key is the sender.\<close>

theorem device_signature_is_approved:
  assumes run: "normal_main sdk envs = Some (ioss, s)" and i: "i < length envs"
    and sent: "Send signature 0x9000 \<in> set (ioss ! Suc i)" and len: "length signature = 64"
  shows "\<exists>path chunks r. path_wf path \<and> chunks_ok chunks \<and> review_ok devnet_asset_transfer_policy r
    \<and> concat chunks = review_frame devnet_asset_transfer_policy r
    \<and> delivered (take (Suc i) envs) (transfer_commands path chunks)
    \<and> env_approve (envs ! i) (review_lines r)
    \<and> ioss ! Suc i = [Show (TransactionReview review_titles (review_lines r)), Send signature 0x9000,
        Show (ReviewStatus TransactionStatus True), Show ui_menu_main]
    \<and> fst (device_derive sdk () path) = Some (addr_bytes (rv_sender r))
    \<and> fst (device_sign sdk () path (review_frame devnet_asset_transfer_policy r)) = Some signature"
proof -
  from normal_main_iteration [OF run i] obtain a where
    a: "device_history (take i envs) a" "ioss ! Suc i = fst (wallet_step sdk a (envs ! i))" by blast
  then have "resting a" "signature \<noteq> []" using len by (auto simp: device_history_def)
  moreover from a sent have "Send signature 0x9000 \<in> set (fst (wallet_step sdk a (envs ! i)))" by simp
  ultimately show ?thesis
  proof (cases rule: wallet_sends)
    case (signature n path bs chunk r)
    from delivered_transfer [OF a(1) [unfolded signature(1)] signature(2-4)]
    obtain chunks where c: "chunks_ok chunks" "concat chunks = bs @ chunk"
      "delivered (take (Suc i) envs) (transfer_commands path chunks)"
      by (auto simp: take_Suc_conv_app_nth [OF i])
    have "review_ios sdk (envs ! i) path r
      = [Show (TransactionReview review_titles (review_lines r)), Send signature 0x9000,
         Show (ReviewStatus TransactionStatus True), Show ui_menu_main]"
      using signature(9,10) by (simp add: review_ios_def)
    with c signature a(2) show ?thesis
      by (intro exI [of _ path] exI [of _ chunks] exI [of _ r]) simp
  qed (use len in auto)
qed

text \<open>C4: whatever the device received before, a host that resets it and delivers a transfer that
  the policy allows and whose sender is the key of the path gets it signed, however it cuts the frame,
  when the user approves and the transport works: reset and every chunk but the last are acknowledged,
  and the last response is the signature of exactly that frame.\<close>

theorem device_signs_allowed_transfer:
  assumes ok: "review_ok devnet_asset_transfer_policy r" and path: "path_wf path"
    and key: "device_derive sdk () path = (Some (addr_bytes (rv_sender r)), ())"
    and sig: "device_sign sdk () path (review_frame devnet_asset_transfer_policy r) = (Some signature, ())"
    and chunks: "chunks_ok chunks" "concat chunks = review_frame devnet_asset_transfer_policy r"
  shows "\<exists>ioss s. normal_main sdk envs = Some (ioss, s)
    \<and> normal_main sdk (envs @ map friendly_env (reset_command # transfer_commands path chunks))
    = Some (ioss @ replicate (length chunks) [Send [] 0x9000]
        @ [[Show (TransactionReview review_titles (review_lines r)), Send signature 0x9000,
            Show (ReviewStatus TransactionStatus True), Show ui_menu_main]], session_new)"
proof -
  have "2 \<le> length chunks" using chunks(1) by (simp add: chunks_ok_def)
  then have "length chunks = Suc (length chunks - 1)" by simp
  then have n: "[Send [] 0x9000] # replicate (length chunks - 1) [Send [] 0x9000]
      = replicate (length chunks) [Send [] 0x9000]"
    by (metis replicate_Suc)
  have "next_apdu (friendly_env c) = Inr c \<and> env_send_ok (friendly_env c) [] 0x9000" for c
    by (simp add: friendly_env_def next_apdu_Inr)
  from transfer_after_reset [OF ok path key chunks this, of envs]
  have "\<exists>ioss s. normal_main sdk envs = Some (ioss, s)
    \<and> normal_main sdk (envs @ map friendly_env (reset_command # transfer_commands path chunks))
      = Some (ioss @ replicate (length chunks) [Send [] 0x9000]
          @ [review_ios sdk (friendly_env (sign_command sign_p1_last (last chunks))) path r], session_new)"
    unfolding n [symmetric] by simp
  moreover have "review_ios sdk (friendly_env c) path r
      = [Show (TransactionReview review_titles (review_lines r)), Send signature 0x9000,
         Show (ReviewStatus TransactionStatus True), Show ui_menu_main]" for c
    using sig by (simp add: review_ios_def friendly_env_def)
  ultimately show ?thesis by simp
qed

theorem device_signs_allowed_transfer_witness:
  "normal_main fixture_sdk (map friendly_env (reset_command # transfer_commands fixture_path fixture_chunks))
    = Some ([Show ui_menu_main] # replicate (length fixture_chunks) [Send [] 0x9000]
        @ [[Show (TransactionReview review_titles recognized_transfer_lines), Send fixture_signature 0x9000,
            Show (ReviewStatus TransactionStatus True), Show ui_menu_main]], session_new)"
proof -
  have "normal_main fixture_sdk [] = Some ([[Show ui_menu_main]], session_new)"
    by (simp add: normal_main_def)
  with device_signs_allowed_transfer
    [OF fixture_ok fixture_path_wf fixture_key fixture_sign fixture_chunks_ok, of "[]"]
  show ?thesis by (simp add: fixture_lines)
qed

theorem device_signature_is_approved_witness:
  "\<exists>ioss path r. normal_main fixture_sdk
        (map friendly_env (transfer_commands fixture_path fixture_chunks)) = Some (ioss, session_new)
     \<and> Send fixture_signature 0x9000 \<in> set (ioss ! length fixture_chunks)
     \<and> fst (device_sign fixture_sdk () path (review_frame devnet_asset_transfer_policy r))
         = Some fixture_signature"
proof -
  let ?envs = "map friendly_env (transfer_commands fixture_path fixture_chunks)"
  let ?last = "[Show (TransactionReview review_titles recognized_transfer_lines), Send fixture_signature 0x9000,
    Show (ReviewStatus TransactionStatus True), Show ui_menu_main]"
  let ?n = "length fixture_chunks"
  let ?ioss = "[Show ui_menu_main] # replicate (?n - 1) [Send [] 0x9000] @ [?last]"
  have n: "2 \<le> ?n" using fixture_chunks_ok(1) by (simp add: chunks_ok_def)
  have run: "normal_main fixture_sdk ?envs = Some (?ioss, session_new)"
    using fixture_loop by (simp add: normal_main_def)
  have i: "?n - 1 < length ?envs" using n length_transfer_commands [OF n] by simp
  have e: "?ioss ! Suc (?n - 1) = ?last" by (simp add: nth_append)
  have sent: "Send fixture_signature 0x9000 \<in> set (?ioss ! Suc (?n - 1))" unfolding e by simp
  have "length fixture_signature = 64" by (simp add: fixture_signature_def)
  from device_signature_is_approved [OF run i sent this]
  obtain path chunks r where "fst (device_sign fixture_sdk () path
      (review_frame devnet_asset_transfer_policy r)) = Some fixture_signature" by blast
  moreover have "Suc (?n - 1) = ?n" using n by simp
  ultimately show ?thesis using run sent by metis
qed

section \<open>The protocol\<close>

text \<open>C8: \<open>dispatch\<close> implements the APDU protocol: on the concrete form of an abstract session
  it gives the outcome and the deriver calls of \<open>abs_dispatch\<close>, and the concrete form of its
  session, which again represents a well-formed abstract session.\<close>

theorem dispatch_implements_protocol:
  assumes "abs_ok a" "abs_dispatch derive p a c d = (out, a', d')"
  shows "dispatch derive p (conc a) c d = (out, conc a', d') \<and> abs_ok a'"
  using dispatch_refines [OF assms] abs_dispatch_ok [OF assms] by simp

theorem dispatch_implements_protocol_witness:
  "dispatch (device_derive fixture_sdk) devnet_asset_transfer_policy
      (conc (ACollecting 3 fixture_path [1]))
      \<lparr>ac_cla = 0xE0, ac_ins = 4, ac_p1 = 1, ac_p2 = 0, ac_data = [2]\<rparr> ()
    = (accepted, conc (ACollecting 3 fixture_path [1, 2]), ())"
proof -
  have ok: "abs_ok (ACollecting 3 fixture_path [1])" by (simp add: max_frame_len_def)
  have st: "abs_dispatch (device_derive fixture_sdk) devnet_asset_transfer_policy
      (ACollecting 3 fixture_path [1])
      \<lparr>ac_cla = 0xE0, ac_ins = 4, ac_p1 = 1, ac_p2 = 0, ac_data = [2]\<rparr> ()
    = (accepted, ACollecting 3 fixture_path [1, 2], ())"
    by (simp add: abs_dispatch_def abs_continue_def check_chunk_def max_chunk_len_def cla_def
        ins_defs sign_p1_first_def sign_p1_continue_def)
  show ?thesis using dispatch_implements_protocol [OF ok st] by simp
qed

text \<open>C16: whatever the chunking, a transfer has the outcome of validating the whole frame at once:
  every chunk but the last is acknowledged, and LAST answers what \<open>validate_frame\<close> says of the
  concatenation.\<close>

theorem chunking_is_invisible:
  assumes "chunks_ok chunks" "path_wf path"
    and "validate_frame derive p path (concat chunks) d = (res, d')"
  shows "run_steps (dispatch_step derive p) (session_new, d) (transfer_commands path chunks)
    = (replicate (length chunks - 1) accepted @ [review_outcome res],
       conc (review_session path (concat chunks) res), d')"
  by (rule chunked_delivery [OF assms])

theorem chunking_is_invisible_witness:
  "run_steps (dispatch_step (device_derive fixture_sdk) devnet_asset_transfer_policy) (session_new, ())
      (transfer_commands fixture_path [[1], [2, 3], [4]])
    = (replicate 2 accepted @ [failed InvalidData], session_new, ())"
proof -
  have c: "chunks_ok [[1], [2, 3], [4]]"
    by (simp add: chunks_ok_def max_chunk_len_def max_frame_len_def)
  have "\<not> is_ok (decode_signature_frame [1, 2, 3, 4])"
    by (auto simp: frame_codec.decode_error length_encode_signature_frame
        dest!: arg_cong [of _ _ length])
  then obtain e where "decode_signature_frame [1, 2, 3, 4] = Inl e"
    by (cases "decode_signature_frame [1, 2, 3, 4]") simp_all
  then have v: "validate_frame (device_derive fixture_sdk) devnet_asset_transfer_policy fixture_path
      (concat [[1], [2, 3], [4]]) () = (Inl InvalidData, ())"
    by (simp add: validate_frame_def)
  show ?thesis
    using chunking_is_invisible [OF c fixture_path_wf v]
    by (simp add: review_outcome_def review_session_def numeral_2_eq_2)
qed

text \<open>C7: with a transfer in progress, LAST shows a review exactly when its chunk completes the
  declared length, the whole is the frame of a review the policy can produce, and the key derived
  from the captured path is the sender of that review.\<close>

theorem last_reviews_exactly:
  assumes "abs_ok (ACollecting n path bs)"
  shows "(\<exists>s'. dispatch derive p (conc (ACollecting n path bs)) (sign_command sign_p1_last chunk) d
        = (ReviewTransaction r, s', d'))
    \<longleftrightarrow> chunk_ok chunk \<and> length bs + length chunk = n \<and> review_ok p r \<and> bs @ chunk = review_frame p r
      \<and> derive d path = (Some (addr_bytes (rv_sender r)), d')"
proof -
  obtain out a' d2 where e: "abs_dispatch derive p (ACollecting n path bs)
      (sign_command sign_p1_last chunk) d = (out, a', d2)"
    by (cases "abs_dispatch derive p (ACollecting n path bs) (sign_command sign_p1_last chunk) d")
  then have l: "abs_last derive p (ACollecting n path bs) chunk d = (out, a', d2)"
    by (simp add: abs_dispatch_sign)
  have "out = ReviewTransaction r \<and> d2 = d' \<longleftrightarrow> chunk_ok chunk \<and> length bs + length chunk = n
      \<and> validate_frame derive p path (bs @ chunk) d = (Inr r, d')"
    using l by (auto simp: abs_last_def check_chunk_def chunk_ok_def failed_def
        split: if_splits prod.splits sum.splits)
  then show ?thesis
    using dispatch_refines [OF assms e] unfolding validate_frame_iff by auto
qed

theorem last_reviews_exactly_witness:
  "\<exists>s'. dispatch (device_derive fixture_sdk) devnet_asset_transfer_policy
        (conc (ACollecting 1221 fixture_path (take 1000 fixture_bytes)))
        (sign_command sign_p1_last (drop 1000 fixture_bytes)) ()
      = (ReviewTransaction recognized_transfer, s', ())"
proof -
  have l: "length (take 1000 fixture_bytes) = 1000" "length (drop 1000 fixture_bytes) = 221"
    by (simp_all add: fixture_length)
  then have ok: "abs_ok (ACollecting 1221 fixture_path (take 1000 fixture_bytes))"
    by (simp add: max_frame_len_def fixture_length del: length_take)
  have "drop 1000 fixture_bytes \<noteq> []" by (simp add: fixture_length)
  then have c: "chunk_ok (drop 1000 fixture_bytes)"
    by (simp add: chunk_ok_def max_chunk_len_def fixture_length)
  have "length (take 1000 fixture_bytes) + length (drop 1000 fixture_bytes) = 1221"
    by (simp only: l)
  with c fixture_ok fixture_key show ?thesis
    unfolding last_reviews_exactly [OF ok] by (simp add: fixture_frame)
qed

text \<open>C15: which chunks are accepted before LAST: FIRST, on an idle session, exactly the data made of a
  length of at most 4096, the encoding of a provisional path, and a non-empty chunk of at most 230 bytes
  that is shorter than the length; CONTINUE exactly a non-empty chunk of at most 230 bytes that
  leaves something for LAST. The session then holds that length, path and the bytes so far.\<close>

theorem transfer_accepts_exactly:
  assumes "abs_ok (ACollecting n path bs)"
  shows "(dispatch derive p session_new (sign_command sign_p1_first data) d = (accepted, s', d') \<longleftrightarrow>
        (\<exists>m q c. m \<le> 4096 \<and> path_wf q \<and> chunk_ok c \<and> length c < m \<and> data = first_data m q c
           \<and> s' = conc (ACollecting m q c) \<and> d' = d))
    \<and> (dispatch derive p (conc (ACollecting n path bs)) (sign_command sign_p1_continue c) d
          = (accepted, t', d') \<longleftrightarrow>
        chunk_ok c \<and> length bs + length c < n \<and> t' = conc (ACollecting n path (bs @ c)) \<and> d' = d)"
proof (rule conjI)
  obtain out a' where f: "abs_first AIdle data = (out, a')" by (cases "abs_first AIdle data")
  then have "abs_dispatch derive p AIdle (sign_command sign_p1_first data) d = (out, a', d)"
    by (simp add: abs_dispatch_sign)
  then have e: "dispatch derive p session_new (sign_command sign_p1_first data) d = (out, conc a', d)"
    using dispatch_refines [of AIdle] by simp
  have accepts: "(\<exists>m q c. m \<le> 4096 \<and> path_wf q \<and> chunk_ok c \<and> length c < m \<and> data = first_data m q c
           \<and> s' = conc (ACollecting m q c) \<and> d' = d)
      \<longleftrightarrow> (\<exists>m q c. parse_first data = Inr (m, q, c) \<and> s' = conc (ACollecting m q c) \<and> d' = d)"
    unfolding parse_first_iff max_frame_len_def by blast
  show "dispatch derive p session_new (sign_command sign_p1_first data) d = (accepted, s', d')
    \<longleftrightarrow> (\<exists>m q c. m \<le> 4096 \<and> path_wf q \<and> chunk_ok c \<and> length c < m \<and> data = first_data m q c
           \<and> s' = conc (ACollecting m q c) \<and> d' = d)"
    unfolding accepts e using f parse_first_error [of data]
    by (cases "parse_first data") (auto simp: abs_first_def split: prod.splits)
next
  obtain out a' where f: "abs_continue (ACollecting n path bs) c = (out, a')"
    by (cases "abs_continue (ACollecting n path bs) c")
  then have "abs_dispatch derive p (ACollecting n path bs) (sign_command sign_p1_continue c) d
      = (out, a', d)"
    by (simp add: abs_dispatch_sign)
  with dispatch_refines [OF assms] have e: "dispatch derive p (conc (ACollecting n path bs))
      (sign_command sign_p1_continue c) d = (out, conc a', d)" by simp
  have "if chunk_ok c \<and> length bs + length c < n
      then out = accepted \<and> a' = ACollecting n path (bs @ c) else out \<noteq> accepted"
    using f by (auto simp: abs_continue_def check_chunk_def chunk_ok_def split: if_splits)
  with e show "dispatch derive p (conc (ACollecting n path bs)) (sign_command sign_p1_continue c) d
      = (accepted, t', d')
    \<longleftrightarrow> chunk_ok c \<and> length bs + length c < n \<and> t' = conc (ACollecting n path (bs @ c)) \<and> d' = d"
    by (auto split: if_splits)
qed

theorem transfer_accepts_exactly_witness:
  "dispatch (device_derive fixture_sdk) devnet_asset_transfer_policy session_new
      (sign_command sign_p1_first (first_data 3 fixture_path [1])) ()
    = (accepted, conc (ACollecting 3 fixture_path [1]), ())
   \<and> dispatch (device_derive fixture_sdk) devnet_asset_transfer_policy
      (conc (ACollecting 3 fixture_path [1])) (sign_command sign_p1_continue [2]) ()
    = (accepted, conc (ACollecting 3 fixture_path [1, 2]), ())"
proof -
  have ok: "abs_ok (ACollecting 3 fixture_path [1])" by (simp add: max_frame_len_def)
  have c: "chunk_ok [b]" for b by (simp add: chunk_ok_def max_chunk_len_def)
  note t = transfer_accepts_exactly [OF ok, of "device_derive fixture_sdk" devnet_asset_transfer_policy]
  show ?thesis
  proof (rule conjI)
    show "dispatch (device_derive fixture_sdk) devnet_asset_transfer_policy session_new
        (sign_command sign_p1_first (first_data 3 fixture_path [1])) ()
      = (accepted, conc (ACollecting 3 fixture_path [1]), ())"
      unfolding t [THEN conjunct1] by (intro exI [of _ 3] exI [of _ fixture_path] exI [of _ "[1]"])
        (simp add: c)
    show "dispatch (device_derive fixture_sdk) devnet_asset_transfer_policy
        (conc (ACollecting 3 fixture_path [1])) (sign_command sign_p1_continue [2]) ()
      = (accepted, conc (ACollecting 3 fixture_path [1, 2]), ())"
      unfolding t [THEN conjunct2] by (simp add: c)
  qed
qed

section \<open>The session\<close>

text \<open>C13: in every reachable session the buffer has its 4096 bytes, is zero beyond the bytes
  received, and the counters agree; an idle session is the new session byte for byte; a collecting
  one has fewer bytes than declared, at most 4096; one awaiting approval has exactly the declared
  number and a path.\<close>

theorem session_invariant:
  assumes "signing_run derive sign p evs (s, d, g)"
  shows "length (ss_buffer s) = 4096
    \<and> unat (ss_received_len s) = ss_buffered_len s
    \<and> drop (ss_buffered_len s) (ss_buffer s) = replicate (4096 - ss_buffered_len s) 0
    \<and> (case ss_state s of
         Idle \<Rightarrow> s = session_new
       | Collecting \<Rightarrow> ss_path s \<noteq> None \<and> 0 < ss_buffered_len s
           \<and> ss_buffered_len s < unat (ss_declared_total s) \<and> unat (ss_declared_total s) \<le> 4096
       | AwaitingApproval \<Rightarrow> ss_path s \<noteq> None \<and> 0 < ss_buffered_len s
           \<and> ss_buffered_len s = unat (ss_declared_total s) \<and> unat (ss_declared_total s) \<le> 4096)"
proof -
  from run_inv [OF assms] obtain a where a: "abs_ok a" "s = conc a" by auto
  show ?thesis
  proof (cases a)
    case AIdle
    then show ?thesis by (simp add: a session_new_def max_frame_len_def)
  next
    case (ACollecting n path bs)
    then have "length bs \<le> 4096" "n \<le> 4096" "length bs < n" "bs \<noteq> []"
      using a(1) by (simp_all add: max_frame_len_def)
    then show ?thesis
      using unat_u32 [of n] unat_u32 [of "length bs"]
      by (simp add: a(2) ACollecting max_frame_len_def) (simp add: stored_def max_frame_len_def)
  next
    case (AAwaiting path bs)
    then have "length bs \<le> 4096" "bs \<noteq> []" using a(1) by (simp_all add: max_frame_len_def)
    then show ?thesis
      using unat_u32 [of "length bs"]
      by (simp add: a(2) AAwaiting max_frame_len_def) (simp add: stored_def max_frame_len_def)
  qed
qed

theorem session_invariant_witness:
  "\<exists>evs. signing_run (device_derive fixture_sdk) (device_sign fixture_sdk)
       devnet_asset_transfer_policy evs (conc (AAwaiting fixture_path fixture_bytes), (), ())
     \<and> length (ss_buffer (conc (AAwaiting fixture_path fixture_bytes))) = 4096"
  using fixture_history session_invariant by metis

text \<open>C17: any command of a reachable session that is answered with a failure leaves the new
  session, with the buffer zeroed: no signing material survives an error.\<close>

theorem failure_wipes_session:
  assumes "signing_run derive sign p evs (s, d, g)"
    and "dispatch derive p s c d = (out, s', d')" "outcome_failed out"
  shows "s' = session_new"
proof -
  from run_inv [OF assms(1)] obtain a where a: "abs_ok a" "s = conc a" by auto
  obtain out2 a' d2 where e: "abs_dispatch derive p a c d = (out2, a', d2)"
    by (cases "abs_dispatch derive p a c d")
  from dispatch_refines [OF a(1) e] assms(2) a(2) have "out2 = out" "s' = conc a'" by simp_all
  with abs_dispatch_failed [OF e] assms(3) show ?thesis by simp
qed

theorem failure_wipes_session_witness:
  "\<exists>evs. signing_run (device_derive fixture_sdk) (device_sign fixture_sdk)
       devnet_asset_transfer_policy evs (conc (AAwaiting fixture_path fixture_bytes), (), ())
     \<and> dispatch (device_derive fixture_sdk) devnet_asset_transfer_policy
         (conc (AAwaiting fixture_path fixture_bytes))
         \<lparr>ac_cla = 0, ac_ins = 0, ac_p1 = 0, ac_p2 = 0, ac_data = []\<rparr> ()
       = (failed UnsupportedCla, session_new, ())"
proof -
  obtain evs where run: "signing_run (device_derive fixture_sdk) (device_sign fixture_sdk)
      devnet_asset_transfer_policy evs (conc (AAwaiting fixture_path fixture_bytes), (), ())"
    using fixture_history by blast
  let ?c = "\<lparr>ac_cla = 0, ac_ins = 0, ac_p1 = 0, ac_p2 = 0, ac_data = []\<rparr> :: apdu_command"
  let ?s = "conc (AAwaiting fixture_path fixture_bytes)"
  have d: "dispatch (device_derive fixture_sdk) devnet_asset_transfer_policy ?s ?c ()
      = (failed UnsupportedCla, session_wipe ?s, ())"
    by (simp add: dispatch_def cla_def failed_def)
  have "outcome_failed (failed UnsupportedCla)" by simp
  from run d failure_wipes_session [OF run d this] show ?thesis by auto
qed

text \<open>C14: whatever the session and the signer, after \<open>approve_and_sign\<close> the session is idle with
  no pending frame, and a second call gives \<open>InvalidState\<close> without calling the signer: a
  review is signed at most once.\<close>

theorem signed_at_most_once:
  assumes "approve_and_sign sign s g = (res, s', g')"
  shows "is_idle s' \<and> ss_path s' = None \<and> pending_frame s' = None
    \<and> fst (approve_and_sign sign s' g') = Inl InvalidState
    \<and> snd (snd (approve_and_sign sign s' g')) = g'"
proof -
  have "s' = session_wipe s"
    using assms by (auto simp: approve_and_sign_def split: if_splits option.splits prod.splits)
  then show ?thesis
    by (simp add: is_idle_def session_wipe_def pending_frame_def approve_and_sign_def Let_def)
qed

theorem signed_at_most_once_witness:
  "fst (approve_and_sign (device_sign fixture_sdk) session_new ()) = Inl InvalidState"
proof -
  have a: "approve_and_sign (device_sign fixture_sdk)
      (conc (AAwaiting fixture_path fixture_bytes)) () = (Inr fixture_signature, session_new, ())"
    using transfer_signed(2) [of devnet_asset_transfer_policy recognized_transfer fixture_path
        "device_sign fixture_sdk" "()" fixture_signature "()",
        OF fixture_ok fixture_path_wf fixture_sign]
    by (simp add: fixture_frame)
  from signed_at_most_once [OF a] show ?thesis by blast
qed

text \<open>C23: a command calls the deriver at most once, and only with the path just decoded from a
  VERIFY PUBLIC KEY command or with the path captured on FIRST; every such path is one of the
  provisional paths.\<close>

theorem deriver_gets_validated_path:
  assumes "signing_run derive sign p evs (s, d, g)"
    and "dispatch derive p s c d = (out, s', d')"
  shows "d' = d \<or> (\<exists>path. path_wf path \<and> d' = snd (derive d path)
    \<and> (ac_ins c = ins_verify_public_key \<and> decode_path (ac_data c) = Inr path
       \<or> ac_ins c = ins_sign_transaction \<and> ss_path s = Some path))"
proof -
  from run_inv [OF assms(1)] obtain a where a: "abs_ok a" "s = conc a" by auto
  obtain out2 a' d2 where e: "abs_dispatch derive p a c d = (out2, a', d2)"
    by (cases "abs_dispatch derive p a c d")
  from dispatch_refines [OF a(1) e] assms(2) a(2) have d2: "d2 = d'" by simp
  show ?thesis
  proof (cases "ac_ins c = ins_verify_public_key")
    case True
    with e d2 show ?thesis
      by (auto simp: abs_dispatch_def Let_def handle_verify_public_key_def ins_defs path_codec.decode_iff
          split: if_splits sum.splits prod.splits option.splits)
  next
    case False
    show ?thesis
    proof (cases "ac_ins c = ins_sign_transaction \<and> ac_p1 c = sign_p1_last \<and> d' \<noteq> d")
      case True
      with e d2 have l: "abs_last derive p a (ac_data c) d = (out2, a', d')"
        by (auto simp: abs_dispatch_def ins_defs Let_def split: if_splits)
      with True obtain n path bs where "a = ACollecting n path bs" by (cases a) (auto simp: abs_last_def)
      moreover from this l True have "d' = snd (derive d path)"
        by (auto simp: abs_last_def validate_frame_def Let_def
            split: option.splits if_splits prod.splits sum.splits)
      ultimately show ?thesis using a True by auto
    next
      case other: False
      with e d2 False show ?thesis
        by (auto simp: abs_dispatch_def Let_def ins_defs split: if_splits prod.splits)
    qed
  qed
qed

text \<open>A deriver that counts its calls, on a VERIFY PUBLIC KEY command.\<close>

theorem deriver_gets_validated_path_witness:
  "\<exists>path. path_wf path \<and> decode_path (encode_path fixture_path) = Inr path
     \<and> snd (snd (dispatch (\<lambda>n q. (Some (replicate 32 1), Suc n)) devnet_asset_transfer_policy session_new
         \<lparr>ac_cla = cla, ac_ins = ins_verify_public_key, ac_p1 = 1, ac_p2 = 0,
          ac_data = encode_path fixture_path\<rparr> 0)) = Suc 0"
proof -
  let ?c = "\<lparr>ac_cla = cla, ac_ins = ins_verify_public_key, ac_p1 = 1, ac_p2 = 0,
    ac_data = encode_path fixture_path\<rparr>"
  let ?derive = "\<lambda>n q. (Some (replicate 32 1), Suc n)"
  have r: "signing_run ?derive (device_sign fixture_sdk) devnet_asset_transfer_policy []
      (session_new, 0, ())" by (rule start)
  have d: "dispatch ?derive devnet_asset_transfer_policy session_new ?c 0
      = (ReviewPublicKey fixture_path (replicate 32 1), session_new, Suc 0)"
    by (simp add: dispatch_def dispatch_ins_def conflicts_with_session_def ins_defs
        handle_verify_public_key_def path_codec.decode_encode)
  from deriver_gets_validated_path [OF r d] d show ?thesis by (auto simp: ins_defs)
qed

text \<open>On an idle session GET CONFIGURATION answers the six pinned bytes, and RESET SIGNING
  succeeds in every reachable session and leaves the new one.\<close>

lemma configuration_and_reset:
  assumes "signing_run derive sign p evs (s, d, g)"
  shows "dispatch derive p session_new
        \<lparr>ac_cla = 0xE0, ac_ins = 0, ac_p1 = 0, ac_p2 = 0, ac_data = []\<rparr> d
      = (Reply (reply_success (Configuration [0, 1, 0, 1, 0, 0])), session_new, d)
    \<and> dispatch derive p s
        \<lparr>ac_cla = 0xE0, ac_ins = 6, ac_p1 = 0, ac_p2 = 0, ac_data = []\<rparr> d
      = (Reply (reply_success EmptyResponse), session_new, d)"
proof -
  from run_inv [OF assms] obtain a where a: "abs_ok a" "s = conc a" by auto
  have "to_be 2 configuration_profile = [0, 1]"
    by (simp add: to_be_def configuration_profile_def nat_le_numeral)
  then show ?thesis
    using a by (simp add: dispatch_def dispatch_ins_def conflicts_with_session_def ins_defs cla_def
        handle_get_configuration_def handle_reset_signing_def session_reset_def
        configuration_major_def configuration_minor_def configuration_patch_def
        configuration_flags_def)
qed

section \<open>The event loop\<close>

text \<open>C6: the device implements the wallet: its event loop is the run of \<open>wallet_step\<close> over the
  delivered commands, which answers each command from the abstract session, the lines of the review
  and the key's digits, with no buffer, no formatting and no error path; the session at the end is
  the concrete form of the abstract one.\<close>

theorem device_implements_wallet:
  "normal_main sdk envs
    = (case run_steps (wallet_step sdk) AIdle envs of
         (ioss, a) \<Rightarrow> Some ([Show ui_menu_main] # ioss, conc a))"
  by (rule normal_main_wallet)

text \<open>C19: for every sequence of commands, user answers and transport results, the event loop does not
  panic, sends exactly one response to every command and none before the first, and leaves no review
  pending between commands.\<close>

theorem event_loop_total:
  "\<exists>ioss s. normal_main sdk envs = Some (ioss, s) \<and> length ioss = Suc (length envs)
     \<and> responses (hd ioss) = [] \<and> list_all (\<lambda>ios. length (responses ios) = 1) (tl ioss)
     \<and> pending_frame s = None"
proof -
  obtain ioss a where r: "run_steps (wallet_step sdk) AIdle envs = (ioss, a)" by fastforce
  then have "resting a" using app_loop_wallet [OF resting_idle r] by simp
  then have "pending_frame (conc a) = None"
    using pending_conc [of a] by (cases a) (simp_all add: resting_def)
  moreover have "list_all (\<lambda>ios. length (responses ios) = 1) ioss"
    using run_steps_all [of "\<lambda>ios. length (responses ios) = 1" "wallet_step sdk" AIdle envs]
      wallet_one_response [of sdk] r by simp
  moreover have "length ioss = length envs"
    using length_run_steps [of "wallet_step sdk" AIdle envs] r by simp
  ultimately show ?thesis using r by (simp add: normal_main_wallet ui_menu_main_def)
qed

text \<open>C5: a public key leaves the device only after the user saw it: a response of 32 bytes with status
  9000 answers a VERIFY PUBLIC KEY command with a provisional path, is the key derived from that path,
  and is sent after its hexadecimal digits were shown and the user confirmed them.\<close>

theorem public_key_is_confirmed:
  assumes sdk: "signature_buffers sdk" and run: "normal_main sdk envs = Some (ioss, s)"
    and i: "i < length envs"
    and sent: "Send key 0x9000 \<in> set (ioss ! Suc i)" and len: "length key = 32"
  shows "\<exists>c path. next_apdu (envs ! i) = Inr c \<and> ac_ins c = ins_verify_public_key
    \<and> ac_data c = encode_path path \<and> path_wf path
    \<and> fst (device_derive sdk () path) = Some key \<and> env_confirm (envs ! i) (display_bytes key)
    \<and> ioss ! Suc i = [Show (AddressReview review_title (display_bytes key)), Send key 0x9000,
        Show (ReviewStatus AddressStatus True), Show ui_menu_main]"
proof -
  from normal_main_iteration [OF run i] obtain a where
    a: "device_history (take i envs) a" "ioss ! Suc i = fst (wallet_step sdk a (envs ! i))" by blast
  then have "resting a" "key \<noteq> []" using len by (auto simp: device_history_def)
  moreover from a sent have "Send key 0x9000 \<in> set (fst (wallet_step sdk a (envs ! i)))" by simp
  ultimately show ?thesis
  proof (cases rule: wallet_sends)
    case (key c path)
    with a(2) show ?thesis by (intro exI [of _ c] exI [of _ path]) (simp add: confirmation_def Let_def)
  next
    case (signature n path bs chunk r)
    with device_signature_length [OF sdk] len show ?thesis by fastforce
  qed (use len in auto)
qed

theorem public_key_is_confirmed_witness:
  "\<exists>ioss s. normal_main fixture_sdk [friendly_env \<lparr>ac_cla = cla, ac_ins = ins_verify_public_key,
        ac_p1 = 1, ac_p2 = 0, ac_data = encode_path fixture_path\<rparr>] = Some (ioss, s)
     \<and> ioss ! 1 = [Show (AddressReview review_title
          (display_bytes (addr_bytes (rv_sender recognized_transfer)))),
        Send (addr_bytes (rv_sender recognized_transfer)) 0x9000,
        Show (ReviewStatus AddressStatus True), Show ui_menu_main]"
proof -
  let ?key = "addr_bytes (rv_sender recognized_transfer)"
  let ?env = "friendly_env \<lparr>ac_cla = cla, ac_ins = ins_verify_public_key,
        ac_p1 = 1, ac_p2 = 0, ac_data = encode_path fixture_path\<rparr>"
  have sdk: "signature_buffers fixture_sdk"
    by (simp add: signature_buffers_def fixture_sdk_def fixture_signature_def)
  have n: "next_apdu ?env = Inr \<lparr>ac_cla = cla, ac_ins = ins_verify_public_key,
        ac_p1 = 1, ac_p2 = 0, ac_data = encode_path fixture_path\<rparr>"
    unfolding next_apdu_Inr by (simp add: friendly_env_def)
  have w: "wallet_step fixture_sdk AIdle ?env = (confirmation ?env ?key, AIdle)"
    using path_codec.decode_encode [OF fixture_path_wf] unfolding wallet_step_def n
    by (simp add: abs_dispatch_def ins_defs handle_verify_public_key_def
        fixture_key wallet_answer_def)
  then have run: "normal_main fixture_sdk [?env]
      = Some ([Show ui_menu_main] # [confirmation ?env ?key], session_new)"
    by (simp add: normal_main_wallet)
  have "env_confirm ?env (display_bytes ?key)" by (simp add: friendly_env_def)
  then have sent: "Send ?key 0x9000 \<in> set (([Show ui_menu_main] # [confirmation ?env ?key]) ! Suc 0)"
    by (simp add: confirmation_def Let_def)
  have len: "length ?key = 32" by (simp add: recognized_transfer_def)
  have i: "0 < length [?env]" by simp
  from public_key_is_confirmed [OF sdk run i sent len] run show ?thesis by auto
qed

text \<open>C18: the device remembers nothing but a transfer in progress: after RESET SIGNING, and after every
  command that is not answered with a bare acknowledgement (an error, a rejection, a configuration, a
  key or a signature), it behaves on all later commands as a device just started.\<close>

theorem device_forgets:
  assumes run: "normal_main sdk (pre @ env # post) = Some (ioss, s)"
    and "next_apdu env = Inr reset_command \<or> Send [] 0x9000 \<notin> set (ioss ! Suc (length pre))"
  shows "normal_main sdk post = Some ([Show ui_menu_main] # drop (Suc (Suc (length pre))) ioss, s)"
proof (rule normal_main_restart [OF run])
  fix a ios a' assume a: "resting a" "wallet_step sdk a env = (ios, a')" "ioss ! Suc (length pre) = ios"
  show "a' = AIdle"
  proof (cases "next_apdu env = Inr reset_command")
    case True
    from wallet_reset_idle [OF this, of sdk a] a(2) show ?thesis by simp
  next
    case False
    with assms(2) a(3) have "Send [] 0x9000 \<notin> set ios" by simp
    from wallet_forgets [OF a(1,2) this] show ?thesis .
  qed
qed

theorem device_forgets_witness:
  "\<exists>ioss. normal_main fixture_sdk ([] @ (friendly_env reset_command\<lparr>env_command := Inl 0x6E03\<rparr>)
        # map friendly_env [reset_command]) = Some (ioss, session_new)
     \<and> normal_main fixture_sdk (map friendly_env [reset_command])
         = Some ([Show ui_menu_main] # drop 2 ioss, session_new)"
proof -
  let ?env = "friendly_env reset_command\<lparr>env_command := Inl 0x6E03\<rparr>"
  have n: "next_apdu ?env = Inl 0x6E03" by (simp add: next_apdu_def)
  then have w: "wallet_step fixture_sdk AIdle ?env = ([Send [] 0x6E03], AIdle)"
    by (simp add: wallet_step_def)
  have r: "wallet_step fixture_sdk AIdle (friendly_env reset_command) = ([Send [] 0x9000], AIdle)"
    by (rule wallet_reset) (simp_all add: friendly_env_def next_apdu_Inr)
  let ?ioss = "[[Show ui_menu_main], [Send [] 0x6E03], [Send [] 0x9000]]"
  have run: "normal_main fixture_sdk ([] @ ?env # map friendly_env [reset_command])
      = Some (?ioss, session_new)"
    using w r by (simp add: normal_main_wallet)
  have "next_apdu ?env = Inr reset_command
      \<or> Send [] 0x9000 \<notin> set (?ioss ! Suc (length ([] :: loop_env list)))" by simp
  from run device_forgets [OF run this] show ?thesis by (intro exI [of _ ?ioss]) simp
qed

text \<open>C3: nothing else leaves the device. A response that carries data has at most 64 bytes and status
  9000, and is the pinned configuration, answering GET CONFIGURATION; the key of a provisional path,
  answering VERIFY PUBLIC KEY after the user confirmed its digits; or the signature of the frame of a
  review that the policy allows, answering LAST after the user approved its lines.\<close>

theorem every_response_explained:
  assumes sdk: "signature_buffers sdk" and run: "normal_main sdk envs = Some (ioss, s)"
    and i: "i < length envs"
    and sent: "Send data code \<in> set (ioss ! Suc i)" and data: "data \<noteq> []"
  shows "code = 0x9000 \<and> length data \<le> 64 \<and> (\<exists>c. next_apdu (envs ! i) = Inr c \<and>
     (ac_ins c = ins_get_configuration \<and> data = [0, 1, 0, 1, 0, 0]
      \<or> ac_ins c = ins_verify_public_key \<and> (\<exists>path. path_wf path \<and> ac_data c = encode_path path
          \<and> fst (device_derive sdk () path) = Some data
          \<and> env_confirm (envs ! i) (display_bytes data))
      \<or> ac_ins c = ins_sign_transaction \<and> ac_p1 c = sign_p1_last
          \<and> (\<exists>path r. path_wf path \<and> review_ok devnet_asset_transfer_policy r
          \<and> fst (device_derive sdk () path) = Some (addr_bytes (rv_sender r))
          \<and> env_approve (envs ! i) (review_lines r)
          \<and> fst (device_sign sdk () path (review_frame devnet_asset_transfer_policy r)) = Some data)))"
proof -
  from normal_main_iteration [OF run i] obtain a where
    a: "device_history (take i envs) a" "ioss ! Suc i = fst (wallet_step sdk a (envs ! i))" by blast
  then have "resting a" "data \<noteq> []" using data by (simp_all add: device_history_def)
  moreover from a sent have "Send data code \<in> set (fst (wallet_step sdk a (envs ! i)))" by simp
  ultimately show ?thesis
  proof (cases rule: wallet_sends)
    case (signature n path bs chunk r)
    with device_signature_length [OF sdk] have "length data = 64" by blast
    with signature show ?thesis by (auto simp: sign_command_def)
  qed auto
qed

theorem every_response_explained_witness:
  "\<exists>ioss s. normal_main fixture_sdk [friendly_env \<lparr>ac_cla = cla, ac_ins = ins_get_configuration,
        ac_p1 = 0, ac_p2 = 0, ac_data = []\<rparr>] = Some (ioss, s)
     \<and> Send [0, 1, 0, 1, 0, 0] 0x9000 \<in> set (ioss ! 1)"
proof -
  let ?c = "\<lparr>ac_cla = cla, ac_ins = ins_get_configuration, ac_p1 = 0, ac_p2 = 0, ac_data = []\<rparr>"
  obtain ios a where w: "wallet_step fixture_sdk AIdle (friendly_env ?c) = (ios, a)" by fastforce
  have n: "next_apdu (friendly_env ?c) = Inr ?c"
    unfolding next_apdu_Inr by (simp add: friendly_env_def)
  have run: "normal_main fixture_sdk [friendly_env ?c] = Some ([Show ui_menu_main] # [ios], conc a)"
    using w by (simp add: normal_main_wallet)
  obtain data where s: "Send data 0x9000 \<in> set ios" "data \<noteq> []"
    using w unfolding wallet_step_def n
    by (force simp: abs_dispatch_def ins_defs handle_get_configuration_def reply_success_def
        wallet_answer_def reply_data_def sw_code_def Let_def)
  have sdk: "signature_buffers fixture_sdk"
    by (simp add: signature_buffers_def fixture_sdk_def fixture_signature_def)
  have i: "0 < length [friendly_env ?c]" by simp
  from s(1) have "Send data 0x9000 \<in> set (([Show ui_menu_main] # [ios]) ! Suc 0)" by simp
  from every_response_explained [OF sdk run i this s(2)] n have "data = [0, 1, 0, 1, 0, 0]"
    by (auto simp: ins_defs)
  with run s(1) show ?thesis by auto
qed

end
